(* ===== verification/WebRpc_Prelude.thy ===== *)
theory WebRpc_Prelude
  imports Main "HOL-Library.Word"
begin

text \<open>
  What every component shares: the machine integer types of the C++ code, C strings and
  \<^verbatim>\<open>snprintf\<close>, decimal printing and reading, the C stdio calls on a file seen as a byte list,
  and the status codes (\<^verbatim>\<open>BOFERR\<close>) the sources name.  The lemmas here are generic: numbers and
  their digits, words and their values, slices of lists.
\<close>

section \<open>Machine types and collections of facts\<close>

type_synonym byte = "8 word"
type_synonym u8 = "8 word"
type_synonym u16 = "16 word"
type_synonym u32 = "32 word"
type_synonym u64 = "64 word"

named_theorems reset_defs \<open>what the Reset methods of the parameter structures write\<close>
named_theorems io_simps \<open>facts on the stdio calls\<close>
named_theorems word_nat \<open>word arithmetic read as nat arithmetic where it does not wrap\<close>

section \<open>Status codes\<close>

text \<open>
  The \<^verbatim>\<open>BOF_ERR_...\<close> codes the sources mention.  The type belongs to bofstd, which is not part of
  the repository: any other code one of its calls returns is \<open>BOF_ERR_OTHER\<close>.
\<close>

datatype boferr =
    BOF_ERR_NO_ERROR
  | BOF_ERR_PENDING
  | BOF_ERR_EINVAL
  | BOF_ERR_NO_MORE
  | BOF_ERR_ALREADY_OPENED
  | BOF_ERR_NOT_FOUND
  | BOF_ERR_NOT_AVAILABLE
  | BOF_ERR_TOO_SMALL
  | BOF_ERR_WRITE
  | BOF_ERR_ETIMEDOUT
  | BOF_ERR_ECONNRESET
  | BOF_ERR_WRONG_MODE
  | BOF_ERR_INVALID_STATE
  | BOF_ERR_INIT
  | BOF_ERR_ENOTCONN
  | BOF_ERR_CANCEL
  | BOF_ERR_OPERATION_FAILED
  | BOF_ERR_INVALID_COMMAND
  | BOF_ERR_BAD_ID
  | BOF_ERR_SOFT_INIT
  | BOF_ERR_EXIT_THREAD
  | BOF_ERR_OTHER nat

section \<open>C strings\<close>

text \<open>\<open>c_str\<close>: what a callee sees of a string passed as a zero terminated pointer.\<close>

definition c_str :: "string \<Rightarrow> string" where
  "c_str s = takeWhile (\<lambda>c. c \<noteq> CHR 0x00) s"

text \<open>What \<^verbatim>\<open>snprintf(buf, cap, ...)\<close> leaves in \<open>buf\<close>, as a C string, for the full text \<open>s\<close>.\<close>

definition snprintf_buf :: "nat \<Rightarrow> string \<Rightarrow> string" where
  "snprintf_buf cap s = take (cap - 1) s"

lemma snprintf_buf_fits: "length s < cap \<Longrightarrow> snprintf_buf cap s = s"
  by (simp add: snprintf_buf_def)

lemma snprintf_buf_complete: "0 < cap \<Longrightarrow> snprintf_buf cap s = s \<longleftrightarrow> length s < cap"
  by (auto simp: snprintf_buf_def)

lemma length_snprintf_buf: "0 < cap \<Longrightarrow> length (snprintf_buf cap s) < cap"
  by (simp add: snprintf_buf_def)

lemma length_snprintf_buf_le: "length (snprintf_buf cap s) \<le> cap - 1"
  by (simp add: snprintf_buf_def)

lemma c_str_id: "CHR 0x00 \<notin> set s \<Longrightarrow> c_str s = s"
  unfolding c_str_def by (subst takeWhile_eq_all_conv) auto

lemma length_c_str: "length (c_str s) \<le> length s"
  by (simp add: c_str_def length_takeWhile_le)

definition strip_prefix :: "'a list \<Rightarrow> 'a list \<Rightarrow> 'a list option" where
  "strip_prefix p s = (if take (length p) s = p then Some (drop (length p) s) else None)"

lemma strip_prefix_append [simp]: "strip_prefix p (p @ s) = Some s"
  by (simp add: strip_prefix_def)

lemma strip_prefix_Some_iff: "strip_prefix p s = Some r \<longleftrightarrow> s = p @ r"
  unfolding strip_prefix_def by (metis append_take_drop_id append_eq_conv_conj option.inject option.distinct(1))

section \<open>Decimal numbers\<close>

definition is_digit :: "char \<Rightarrow> bool" where
  "is_digit c \<longleftrightarrow> 48 \<le> (of_char c :: nat) \<and> (of_char c :: nat) \<le> 57"

definition digit_char :: "nat \<Rightarrow> char" where
  "digit_char d = char_of (48 + d)"

definition digit_val :: "char \<Rightarrow> nat" where
  "digit_val c = of_char c - 48"

text \<open>The text \<^verbatim>\<open>%zu\<close>, \<^verbatim>\<open>%d\<close> (of a non negative value) and \<^verbatim>\<open>std::to_string\<close> print.\<close>

fun dec :: "nat \<Rightarrow> string" where
  "dec n = (if n < 10 then [digit_char n] else dec (n div 10) @ [digit_char (n mod 10)])"

declare dec.simps [simp del]

text \<open>The value a digit string denotes.\<close>

definition undec :: "string \<Rightarrow> nat" where
  "undec s = foldl (\<lambda>v c. 10 * v + digit_val c) 0 s"

text \<open>\<^verbatim>\<open>%d\<close> of an int, and \<^verbatim>\<open>%04d\<close>: padded with zeros to four characters, the sign included.\<close>

definition dec_int :: "int \<Rightarrow> string" where
  "dec_int i = (if i < 0 then ''-'' @ dec (nat (- i)) else dec (nat i))"

definition dec_int04 :: "int \<Rightarrow> string" where
  "dec_int04 i =
     (if i < 0 then ''-'' @ replicate (3 - length (dec (nat (- i)))) CHR ''0'' @ dec (nat (- i))
      else replicate (4 - length (dec (nat i))) CHR ''0'' @ dec (nat i))"

lemma is_digit_digit_char [simp]: "d < 10 \<Longrightarrow> is_digit (digit_char d)"
  by (simp add: is_digit_def digit_char_def of_char_of take_bit_eq_mod)

lemma digit_val_digit_char [simp]: "d < 10 \<Longrightarrow> digit_val (digit_char d) = d"
  by (simp add: digit_val_def digit_char_def of_char_of take_bit_eq_mod)

lemma undec_snoc [simp]: "undec (s @ [c]) = 10 * undec s + digit_val c"
  by (simp add: undec_def)

lemma undec_single [simp]: "undec [c] = digit_val c"
  by (simp add: undec_def)

lemma dec_nonempty [simp]: "dec n \<noteq> []"
  by (subst dec.simps) simp

lemma dec_digits: "\<forall>c \<in> set (dec n). is_digit c"
proof (induction n rule: dec.induct)
  case (1 n)
  then show ?case by (cases "n < 10") (auto simp: dec.simps [of n])
qed

lemma undec_dec [simp]: "undec (dec n) = n"
proof (induction n rule: dec.induct)
  case (1 n)
  then show ?case by (cases "n < 10") (simp_all add: dec.simps [of n])
qed

lemma length_dec_le: "n < 10 ^ Suc k \<Longrightarrow> length (dec n) \<le> Suc k"
proof (induction k arbitrary: n)
  case 0
  then show ?case by (simp add: dec.simps [of n])
next
  case (Suc k)
  then have "n div 10 < 10 ^ Suc k" by (simp add: less_mult_imp_div_less)
  from Suc.IH [OF this] show ?case by (auto simp: dec.simps [of n])
qed

lemma length_dec_u64: "length (dec (unat (w :: u64))) \<le> 20"
proof -
  have "unat w < 2 ^ 64" using unsigned_less [of w] by simp
  also have "(2 :: nat) ^ 64 < 10 ^ Suc 19" by simp
  finally show ?thesis using length_dec_le [of "unat w" 19] by simp
qed

lemma digit_neq: "is_digit c \<Longrightarrow> c \<noteq> CHR ''-''" "is_digit c \<Longrightarrow> c \<noteq> CHR ''/''"
    "is_digit c \<Longrightarrow> c \<noteq> CHR 0x00"
  by (auto simp: is_digit_def)

section \<open>Words as natural numbers\<close>

lemma unat_plus_one [word_nat]:
  fixes a :: "'a::len word"
  shows "unat a < 2 ^ LENGTH('a) - 1 \<Longrightarrow> unat (a + 1) = unat a + 1"
  by (metis less_diff_conv unat_1 unat_add_lem)

lemma unat_minus_one_pos [word_nat]:
  fixes a :: "'a::len word"
  shows "0 < unat a \<Longrightarrow> unat (a - 1) = unat a - 1"
  by (metis unat_minus_one unat_gt_0)

lemma unat_of_nat_lt [word_nat]: "n < 2 ^ LENGTH('a) \<Longrightarrow> unat (of_nat n :: 'a::len word) = n"
  by (simp add: unat_of_nat take_bit_nat_eq_self)

text \<open>
  Ranges are kept as the first byte \<open>p\<close> and the last byte \<open>q - 1\<close>; their size is \<open>q - p\<close>, and two last
  bytes compare as their ends do.
\<close>

lemma range_size [word_nat]:
  "p \<le> q \<Longrightarrow> (word_of_nat q - 1) - word_of_nat p + 1 = (word_of_nat (q - p) :: 'a::len word)"
  by (simp add: of_nat_diff)

lemma unat_range_size [word_nat]:
  "p \<le> q \<Longrightarrow> q < 2 ^ LENGTH('a) \<Longrightarrow>
     unat ((word_of_nat q - 1) - word_of_nat p + 1 :: 'a::len word) = q - p"
  by (simp only: range_size) (rule unat_of_nat_lt, simp)

lemma unat_range_size64:
  "p \<le> q \<Longrightarrow> q < 2 ^ 64 \<Longrightarrow> unat ((word_of_nat q - 1) - word_of_nat p + 1 :: u64) = q - p"
  by (rule unat_range_size) simp_all

lemma unat_last_byte [word_nat]:
  assumes "0 < a" "a < 2 ^ LENGTH('a)"
  shows "unat (word_of_nat a - 1 :: 'a::len word) = a - 1"
  using unat_minus_one_pos [of "word_of_nat a :: 'a word"] assms by (simp add: unat_of_nat_lt)

lemma last_byte_le [word_nat]:
  assumes "0 < a" "0 < b" "a < 2 ^ LENGTH('a)" "b < 2 ^ LENGTH('a)"
  shows "word_of_nat a - 1 \<le> (word_of_nat b - 1 :: 'a::len word) \<longleftrightarrow> a \<le> b"
  unfolding word_le_nat_alt using assms by (simp only: unat_last_byte) linarith

lemma unat_u32_lt: "unat (w :: u32) < 4294967296"
  using unsigned_less [of w] by simp

lemma unat_u64_lt: "unat (w :: u64) < 18446744073709551616"
  using unsigned_less [of w] by simp

lemma unat_ucast_u32_u64 [simp]: "unat (ucast (w :: u32) :: u64) = unat w"
  using unat_u32_lt [of w] by (simp add: unsigned_ucast_eq take_bit_nat_eq_self)

lemma ucast_last_byte:
  assumes "0 < unat (n :: u32)"
  shows "(ucast (n - 1) :: u64) = word_of_nat (unat n) - 1"
proof (rule word_unat_eq_iff [THEN iffD2])
  have "unat (ucast (n - 1) :: u64) = unat n - 1"
    using assms by (simp add: unat_minus_one_pos)
  also have "\<dots> = unat (word_of_nat (unat n) - 1 :: u64)"
    using assms unat_u32_lt [of n] by (subst unat_last_byte) simp_all
  finally show "unat (ucast (n - 1) :: u64) = unat (word_of_nat (unat n) - 1 :: u64)" .
qed

lemma byte_add: "word_of_nat ((unat (w :: byte) + n) mod 256) = w + word_of_nat n"
proof (rule word_unat_eq_iff [THEN iffD2])
  show "unat (word_of_nat ((unat w + n) mod 256) :: byte) = unat (w + word_of_nat n)"
    by (simp add: unat_word_ariths unat_of_nat take_bit_eq_mod mod_simps)
qed

section \<open>Files as byte lists\<close>

text \<open>
  \<^verbatim>\<open>fread(buf, n, 1, f)\<close> at position \<open>pos\<close>: one element of \<open>n\<close> bytes or nothing.  An element of size
  zero is never read (the call returns 0).  \<open>can\<close> is the device: whether the read succeeds.
\<close>

definition fread1 :: "(nat \<Rightarrow> nat \<Rightarrow> bool) \<Rightarrow> byte list \<Rightarrow> nat \<Rightarrow> nat \<Rightarrow> byte list option" where
  "fread1 can file pos n =
     (if 0 < n \<and> pos + n \<le> length file \<and> can pos n then Some (take n (drop pos file)) else None)"

lemma fread1_Some_iff [io_simps]:
  "fread1 can file pos n = Some bs \<longleftrightarrow>
     0 < n \<and> pos + n \<le> length file \<and> can pos n \<and> bs = take n (drop pos file)"
  by (auto simp: fread1_def)

lemma fread1_length [io_simps]: "fread1 can file pos n = Some bs \<Longrightarrow> length bs = n"
  by (auto simp: fread1_def split: if_splits)

lemma fread1_zero [io_simps]: "fread1 can file pos 0 = None"
  by (simp add: fread1_def)

text \<open>
  \<^verbatim>\<open>fwrite(buf, n, 1, f)\<close> on a file whose bytes so far are \<open>old\<close>: the device accepts the first
  \<open>accepts old new\<close> bytes; the call reports success (1) when it took them all and there were any.
\<close>

definition fwrite1 :: "(byte list \<Rightarrow> byte list \<Rightarrow> nat) \<Rightarrow> byte list \<Rightarrow> byte list \<Rightarrow> bool \<times> byte list" where
  "fwrite1 accepts old new =
     (let k = min (accepts old new) (length new)
      in (0 < length new \<and> k = length new, old @ take k new))"

lemma fwrite1_True_iff [io_simps]:
  "fwrite1 accepts old new = (True, res) \<longleftrightarrow>
     new \<noteq> [] \<and> length new \<le> accepts old new \<and> res = old @ new"
  by (auto simp: fwrite1_def Let_def min_def)

section \<open>Slices\<close>

lemma take_append_slice: "take n xs @ take k (drop n xs) = take (n + k) xs"
  by (simp add: take_add)

lemma length_slice: "pos + n \<le> length xs \<Longrightarrow> length (take n (drop pos xs)) = n"
  by simp

end
