(* ===== verification/WebApp.thy ===== *)
theory WebApp
  imports WebRpc_Prelude
begin

text \<open>
  The web application base class (\<^verbatim>\<open>src/src/bofwebapp.cpp\<close>, \<^verbatim>\<open>include/bofwebrpc/bofwebapp.h\<close>):
  the text utilities the client, the server and the applications share, the host description, the
  construction of the base object and the log text of an exchange.  The regular expressions are
  modelled by deterministic scanners; a lemma relates each scanner to the language its pattern
  denotes.
\<close>

section \<open>Parameter structures\<close>

record web_app_param =
  AppName_S :: string

definition BOF_WEB_APP_PARAM_Reset :: "web_app_param \<Rightarrow> web_app_param" where
  [reset_defs]: "BOF_WEB_APP_PARAM_Reset p = p\<lparr>AppName_S := ''''\<rparr>"

record web_app_host =
  IpAddress_S :: string
  Port_U16 :: u16
  BannedIpAddressCollection :: "string set"

definition BOF_WEB_APP_HOST_Reset :: "web_app_host \<Rightarrow> web_app_host" where
  [reset_defs]: "BOF_WEB_APP_HOST_Reset h =
     h\<lparr>IpAddress_S := '''', Port_U16 := 0, BannedIpAddressCollection := {}\<rparr>"

definition IsBanned :: "web_app_host \<Rightarrow> string \<Rightarrow> bool" where
  "IsBanned h ip \<longleftrightarrow> ip \<in> BannedIpAddressCollection h"

text \<open>
  The configuration of a host: what the JSON library reads under the three keys.  A member of the wrong
  type or a missing one throws, which is \<open>None\<close>; the banned addresses may be missing.
\<close>

record json_host =
  js_ip :: "string option"
  js_port :: "u16 option"
  js_contains_banned :: bool
  js_banned :: "string set option"

definition BOF_WEB_APP_HOST :: "json_host \<Rightarrow> web_app_host option" where
  "BOF_WEB_APP_HOST cfg =
     (case (js_ip cfg, js_port cfg) of
        (Some ip, Some port) \<Rightarrow>
          (if js_contains_banned cfg then
             (case js_banned cfg of
                None \<Rightarrow> None
              | Some b \<Rightarrow> Some \<lparr>IpAddress_S = ip, Port_U16 = port, BannedIpAddressCollection = b\<rparr>)
           else Some \<lparr>IpAddress_S = ip, Port_U16 = port, BannedIpAddressCollection = {}\<rparr>)
      | _ \<Rightarrow> None)"

text \<open>A host made from a configuration bans exactly the addresses listed in it.\<close>

lemma configured_host_bans:
  "BOF_WEB_APP_HOST cfg = Some h \<Longrightarrow> IsBanned h ip \<longleftrightarrow> js_contains_banned cfg \<and> (\<exists>b. js_banned cfg = Some b \<and> ip \<in> b)"
  by (auto simp: BOF_WEB_APP_HOST_def IsBanned_def split: option.splits if_splits)

section \<open>Content-Range headers\<close>

text \<open>The text of \<^verbatim>\<open>snprintf("bytes %zu-%zu/%zu", RangeMin, RangeMax, DataSize)\<close>.\<close>

definition content_range :: "u64 \<Rightarrow> u64 \<Rightarrow> u64 \<Rightarrow> string" where
  "content_range mn mx sz =
     ''bytes '' @ dec (unat mn) @ ''-'' @ dec (unat mx) @ ''/'' @ dec (unat sz)"

text \<open>One or more digits, greedily: the group \<^verbatim>\<open>(\d+)\<close> before a character that is no digit.\<close>

definition scan_digits :: "string \<Rightarrow> (string \<times> string) option" where
  "scan_digits s =
     (let d = takeWhile is_digit s
      in if d = [] then None else Some (d, dropWhile is_digit s))"

text \<open>The pattern \<^verbatim>\<open>bytes (\d+)-(\d+)/(\d+)\<close> against a whole string: its three groups.\<close>

definition match_content_range :: "string \<Rightarrow> (string \<times> string \<times> string) option" where
  "match_content_range s =
     (case strip_prefix ''bytes '' s of None \<Rightarrow> None | Some s1 \<Rightarrow>
      (case scan_digits s1 of None \<Rightarrow> None | Some (a, s2) \<Rightarrow>
       (case strip_prefix ''-'' s2 of None \<Rightarrow> None | Some s3 \<Rightarrow>
        (case scan_digits s3 of None \<Rightarrow> None | Some (b, s4) \<Rightarrow>
         (case strip_prefix ''/'' s4 of None \<Rightarrow> None | Some s5 \<Rightarrow>
          (case scan_digits s5 of None \<Rightarrow> None | Some (c, s6) \<Rightarrow>
            if s6 = [] then Some (a, b, c) else None))))))"

text \<open>\<^verbatim>\<open>std::stoul\<close> on a digit string, \<^verbatim>\<open>unsigned long\<close> of 64 bits: \<open>None\<close> is the exception.\<close>

definition stoul :: "string \<Rightarrow> u64 option" where
  "stoul s = (if undec s < 2 ^ 64 then Some (of_nat (undec s)) else None)"

text \<open>
  The three output parameters are threaded through: the groups are converted in order, so an
  exception in the second or third conversion leaves the earlier outputs overwritten.
\<close>

definition S_ParseContentRangeRequest ::
    "string \<Rightarrow> u64 \<Rightarrow> u64 \<Rightarrow> u64 \<Rightarrow> bool \<times> u64 \<times> u64 \<times> u64" where
  "S_ParseContentRangeRequest s mn mx sz =
     (case match_content_range s of
        None \<Rightarrow> (False, mn, mx, sz)
      | Some (a, b, c) \<Rightarrow>
         (case stoul a of None \<Rightarrow> (False, mn, mx, sz) | Some mn' \<Rightarrow>
          (case stoul b of None \<Rightarrow> (False, mn', mx, sz) | Some mx' \<Rightarrow>
           (case stoul c of None \<Rightarrow> (False, mn', mx', sz) | Some sz' \<Rightarrow>
              (True, mn', mx', sz')))))"

text \<open>The language of the pattern, stated directly.\<close>

definition digits :: "string \<Rightarrow> bool" where
  "digits s \<longleftrightarrow> s \<noteq> [] \<and> (\<forall>c \<in> set s. is_digit c)"

lemma scan_digits_Some_iff:
  "scan_digits s = Some (d, r) \<longleftrightarrow>
     s = d @ r \<and> digits d \<and> (r = [] \<or> \<not> is_digit (hd r))"
proof
  assume "scan_digits s = Some (d, r)"
  then have d: "d = takeWhile is_digit s" "d \<noteq> []" and r: "r = dropWhile is_digit s"
    by (auto simp: scan_digits_def Let_def split: if_splits)
  have "r = [] \<or> \<not> is_digit (hd r)"
    using r hd_dropWhile [of is_digit s] by auto
  then show "s = d @ r \<and> digits d \<and> (r = [] \<or> \<not> is_digit (hd r))"
    using d r by (auto simp: digits_def dest: set_takeWhileD)
next
  assume a: "s = d @ r \<and> digits d \<and> (r = [] \<or> \<not> is_digit (hd r))"
  then have "takeWhile is_digit s = d" "dropWhile is_digit s = r"
    by (cases r; auto simp: digits_def takeWhile_append dropWhile_append)+
  then show "scan_digits s = Some (d, r)"
    using a by (auto simp: scan_digits_def digits_def)
qed

lemma scan_digits_dec [simp]:
  "r = [] \<or> \<not> is_digit (hd r) \<Longrightarrow> scan_digits (dec n @ r) = Some (dec n, r)"
  by (subst scan_digits_Some_iff) (auto simp: digits_def dec_digits)

lemma scan_digits_dec_end [simp]: "scan_digits (dec n) = Some (dec n, [])"
  using scan_digits_dec [of "[]" n] by simp

lemma sep_not_digit [simp]: "\<not> is_digit CHR ''-''" "\<not> is_digit CHR ''/''"
  by (auto simp: is_digit_def)

lemma match_content_range_iff:
  "match_content_range s = Some (a, b, c) \<longleftrightarrow>
     s = ''bytes '' @ a @ ''-'' @ b @ ''/'' @ c \<and> digits a \<and> digits b \<and> digits c"
proof
  assume "match_content_range s = Some (a, b, c)"
  then show "s = ''bytes '' @ a @ ''-'' @ b @ ''/'' @ c \<and> digits a \<and> digits b \<and> digits c"
    by (auto simp: match_content_range_def strip_prefix_Some_iff scan_digits_Some_iff
        split: option.splits prod.splits if_splits)
next
  assume s: "s = ''bytes '' @ a @ ''-'' @ b @ ''/'' @ c \<and> digits a \<and> digits b \<and> digits c"
  have a: "scan_digits (a @ ''-'' @ b @ ''/'' @ c) = Some (a, ''-'' @ b @ ''/'' @ c)"
    and b: "scan_digits (b @ ''/'' @ c) = Some (b, ''/'' @ c)"
    and c: "scan_digits c = Some (c, [])"
    using s by (simp_all add: scan_digits_Some_iff)
  have "strip_prefix ''bytes '' s = Some (a @ ''-'' @ b @ ''/'' @ c)"
    "strip_prefix ''-'' (''-'' @ b @ ''/'' @ c) = Some (b @ ''/'' @ c)"
    "strip_prefix ''/'' (''/'' @ c) = Some c"
    using s by (simp_all only: strip_prefix_Some_iff)
  with a b c show "match_content_range s = Some (a, b, c)"
    unfolding match_content_range_def by simp
qed

lemma match_content_range_text [simp]:
  "match_content_range (content_range mn mx sz) =
     Some (dec (unat mn), dec (unat mx), dec (unat sz))"
  by (simp add: match_content_range_iff content_range_def digits_def dec_digits)

lemma stoul_dec [simp]: "stoul (dec (unat w)) = Some w"
  using unsigned_less [of w] by (simp add: stoul_def)

lemma stoul_Some_iff: "stoul s = Some w \<longleftrightarrow> undec s = unat w"
proof
  assume "stoul s = Some w"
  then have "undec s < 2 ^ 64" "w = of_nat (undec s)" by (auto simp: stoul_def split: if_splits)
  then show "undec s = unat w" by (simp add: unat_of_nat_lt)
next
  assume "undec s = unat w"
  then show "stoul s = Some w" using unsigned_less [of w] by (simp add: stoul_def)
qed

lemma stoul_None_iff: "stoul s = None \<longleftrightarrow> 2 ^ 64 \<le> undec s"
  by (simp add: stoul_def linorder_not_less)

lemma parse_content_range [simp]:
  "S_ParseContentRangeRequest (content_range mn mx sz) a b c = (True, mn, mx, sz)"
  by (simp add: S_ParseContentRangeRequest_def)

lemma length_content_range: "length (content_range mn mx sz) \<le> 68"
proof -
  have "length (dec (unat mn)) \<le> 20" "length (dec (unat mx)) \<le> 20" "length (dec (unat sz)) \<le> 20"
    by (rule length_dec_u64)+
  then show ?thesis by (simp add: content_range_def)
qed

lemma content_range_in_buffer [simp]:
  "snprintf_buf 256 (content_range mn mx sz) = content_range mn mx sz"
  using length_content_range [of mn mx sz] by (intro snprintf_buf_fits) simp

section \<open>Commands and arguments\<close>

definition is_word_char :: "char \<Rightarrow> bool" where
  "is_word_char c \<longleftrightarrow>
     (let n = (of_char c :: nat)
      in 48 \<le> n \<and> n \<le> 57 \<or> 65 \<le> n \<and> n \<le> 90 \<or> 97 \<le> n \<and> n \<le> 122 \<or> n = 95)"

text \<open>What the pattern character \<^verbatim>\<open>.\<close> refuses: the line terminators.\<close>

definition is_line_end :: "char \<Rightarrow> bool" where
  "is_line_end c \<longleftrightarrow> (of_char c :: nat) = 10 \<or> (of_char c :: nat) = 13"

text \<open>The pattern \<^verbatim>\<open>(\w+)\((.*?)\)\<close> against a whole string: its two groups.\<close>

definition match_cmd_arg :: "string \<Rightarrow> (string \<times> string) option" where
  "match_cmd_arg s =
     (let w = takeWhile is_word_char s; r = dropWhile is_word_char s
      in if w = [] then None
         else case strip_prefix ''('' r of
           None \<Rightarrow> None
         | Some r' \<Rightarrow>
             if r' \<noteq> [] \<and> last r' = CHR '')'' \<and> (\<forall>c \<in> set (butlast r'). \<not> is_line_end c)
             then Some (w, butlast r') else None)"

definition S_SplitCmdAndArg :: "string \<Rightarrow> string \<Rightarrow> string \<Rightarrow> bool \<times> string \<times> string" where
  "S_SplitCmdAndArg s cmd arg =
     (case match_cmd_arg s of None \<Rightarrow> (False, cmd, arg) | Some (c, a) \<Rightarrow> (True, c, a))"

lemma paren_not_word [simp]: "\<not> is_word_char CHR ''(''"
  by (simp add: is_word_char_def)

lemma match_cmd_arg_iff:
  "match_cmd_arg s = Some (c, a) \<longleftrightarrow>
     s = c @ ''('' @ a @ '')'' \<and> c \<noteq> [] \<and> (\<forall>x \<in> set c. is_word_char x) \<and>
     (\<forall>x \<in> set a. \<not> is_line_end x)"
proof
  assume "match_cmd_arg s = Some (c, a)"
  then obtain r' where c: "c = takeWhile is_word_char s" "c \<noteq> []"
    and r: "dropWhile is_word_char s = ''('' @ r'" "r' \<noteq> []" "last r' = CHR '')''"
    and a: "a = butlast r'" "\<forall>x \<in> set a. \<not> is_line_end x"
    by (auto simp: match_cmd_arg_def Let_def strip_prefix_Some_iff split: if_splits option.splits)
  from r a have "r' = a @ '')''" by (metis append_butlast_last_id)
  with c r have "s = c @ ''('' @ a @ '')''" by (metis takeWhile_dropWhile_id)
  moreover have "\<forall>x \<in> set c. is_word_char x" using c(1) by (metis set_takeWhileD)
  ultimately show "s = c @ ''('' @ a @ '')'' \<and> c \<noteq> [] \<and> (\<forall>x \<in> set c. is_word_char x) \<and>
      (\<forall>x \<in> set a. \<not> is_line_end x)"
    using c a by simp
next
  assume s: "s = c @ ''('' @ a @ '')'' \<and> c \<noteq> [] \<and> (\<forall>x \<in> set c. is_word_char x) \<and>
      (\<forall>x \<in> set a. \<not> is_line_end x)"
  then have "takeWhile is_word_char s = c" "dropWhile is_word_char s = ''('' @ a @ '')''"
    by (simp_all add: takeWhile_append2 dropWhile_append2)
  moreover have "strip_prefix ''('' (''('' @ a @ '')'') = Some (a @ '')'')"
    by (simp only: strip_prefix_Some_iff)
  ultimately show "match_cmd_arg s = Some (c, a)"
    using s by (simp add: match_cmd_arg_def Let_def butlast_append)
qed

text \<open>
  \<^verbatim>\<open>std::getline(Ss, Item_S, ',')\<close> until it fails: the delimiter is consumed, and at the end of the
  stream a call that extracts nothing fails, so no item follows a final delimiter.
\<close>

function getline_items :: "char \<Rightarrow> string \<Rightarrow> string list" where
  "getline_items d s =
     (if s = [] then []
      else takeWhile (\<lambda>c. c \<noteq> d) s # getline_items d (drop 1 (dropWhile (\<lambda>c. c \<noteq> d) s)))"
  by pat_completeness auto
termination
proof (relation "measure (\<lambda>(d, s). length s)", simp)
  fix d :: char and s :: string
  assume "s \<noteq> []"
  moreover have "length (dropWhile (\<lambda>c. c \<noteq> d) s) \<le> length s" by (rule length_dropWhile_le)
  ultimately show "((d, drop 1 (dropWhile (\<lambda>c. c \<noteq> d) s)), d, s) \<in> measure (\<lambda>(d, s). length s)"
    by (cases s) auto
qed

declare getline_items.simps [simp del]

definition S_SplitArg :: "string \<Rightarrow> string list" where
  "S_SplitArg arg = getline_items CHR '','' arg"

text \<open>Items joined by commas.\<close>

fun join_comma :: "string list \<Rightarrow> string" where
  "join_comma [] = []"
| "join_comma [x] = x"
| "join_comma (x # y # ys) = x @ '','' @ join_comma (y # ys)"

lemma getline_items_Nil [simp]: "getline_items d [] = []"
  by (simp add: getline_items.simps)

lemma getline_items_last:
  "d \<notin> set x \<Longrightarrow> x \<noteq> [] \<Longrightarrow> getline_items d x = [x]"
proof -
  assume "d \<notin> set x" "x \<noteq> []"
  then have "takeWhile (\<lambda>c. c \<noteq> d) x = x" "dropWhile (\<lambda>c. c \<noteq> d) x = []"
    by (auto simp: takeWhile_eq_all_conv dropWhile_eq_Nil_conv)
  with \<open>x \<noteq> []\<close> show ?thesis by (subst getline_items.simps) (simp only: if_False drop_Nil getline_items_Nil)
qed

lemma getline_items_Cons:
  "d \<notin> set x \<Longrightarrow> getline_items d (x @ d # r) = x # getline_items d r"
proof -
  assume "d \<notin> set x"
  then have "takeWhile (\<lambda>c. c \<noteq> d) (x @ d # r) = x" "dropWhile (\<lambda>c. c \<noteq> d) (x @ d # r) = d # r"
    by (auto simp: takeWhile_append dropWhile_append)
  then show ?thesis by (subst getline_items.simps) simp
qed

lemma split_join_items:
  "\<forall>x \<in> set xs. CHR '','' \<notin> set x \<Longrightarrow> xs \<noteq> [] \<Longrightarrow> last xs \<noteq> [] \<Longrightarrow>
     getline_items CHR '','' (join_comma xs) = xs"
  by (induction xs rule: join_comma.induct) (auto simp: getline_items_last getline_items_Cons)

lemma getline_items_no_delim: "\<forall>x \<in> set (getline_items d s). d \<notin> set x"
proof (induction d s rule: getline_items.induct)
  case (1 d s)
  then show ?case
    by (subst getline_items.simps) (auto dest: set_takeWhileD)
qed

text \<open>Joining the items gives the argument back, up to one final comma.\<close>

lemma join_getline_items:
  "join_comma (getline_items CHR '','' s) = s \<or>
   join_comma (getline_items CHR '','' s) @ '','' = s"
proof (induction "CHR '',''" s rule: getline_items.induct)
  case (1 s)
  let ?w = "takeWhile (\<lambda>c. c \<noteq> CHR '','') s" and ?r = "dropWhile (\<lambda>c. c \<noteq> CHR '','') s"
  show ?case
  proof (cases "s = [] \<or> ?r = []")
    case True
    then have "CHR '','' \<notin> set s" by (auto simp: dropWhile_eq_Nil_conv)
    then show ?thesis by (cases "s = []") (simp_all add: getline_items_last)
  next
    case False
    then obtain t where t: "?r = CHR '','' # t"
      using hd_dropWhile [of "\<lambda>c. c \<noteq> CHR '',''" s] by (cases ?r) auto
    then have s: "s = ?w @ CHR '','' # t" by (metis takeWhile_dropWhile_id)
    have "CHR '','' \<notin> set ?w" by (auto dest: set_takeWhileD)
    from getline_items_Cons [OF this, of t] s
    have g: "getline_items CHR '','' s = ?w # getline_items CHR '','' t" by simp
    have IH: "join_comma (getline_items CHR '','' t) = t \<or> join_comma (getline_items CHR '','' t) @ '','' = t"
      using "1" False t by simp
    show ?thesis
    proof (cases "getline_items CHR '','' t")
      case Nil
      then have "t = []" by (cases "t = []") (simp_all add: getline_items.simps [of _ t])
      with Nil have "join_comma (getline_items CHR '','' s) @ '','' = s" using g s by simp
      then show ?thesis ..
    next
      case (Cons y ys)
      have j: "join_comma (getline_items CHR '','' s) = ?w @ CHR '','' # join_comma (y # ys)"
        using g Cons by simp
      from IH show ?thesis
      proof
        assume "join_comma (getline_items CHR '','' t) = t"
        with j Cons s have "join_comma (getline_items CHR '','' s) = s" by simp
        then show ?thesis ..
      next
        assume "join_comma (getline_items CHR '','' t) @ '','' = t"
        then have "join_comma (getline_items CHR '','' s) @ '','' = ?w @ CHR '','' # t"
          using j Cons by simp
        with s have "join_comma (getline_items CHR '','' s) @ '','' = s" by simp
        then show ?thesis ..
      qed
    qed
  qed
qed

section \<open>Session identifiers and test files\<close>

definition S_CharToUse_S :: string where
  "S_CharToUse_S = ''0123456789ABCDEFGHIJKLMNOPQRSTUVWXYZabcdefghijklmnopqrstuvwxyz''"

text \<open>\<open>rnd i\<close> is what the \<open>i\<close>th call of \<^verbatim>\<open>rand()\<close> returns, a non negative int.\<close>

definition S_GenerateSessionId :: "(nat \<Rightarrow> nat) \<Rightarrow> u32 \<Rightarrow> string" where
  "S_GenerateSessionId rnd len =
     map (\<lambda>i. S_CharToUse_S ! (rnd i mod length S_CharToUse_S)) [0..<unat len]"

lemma length_CharToUse [simp]: "length S_CharToUse_S = 62"
  by (simp add: S_CharToUse_S_def)

lemma session_id_chars: "set (S_GenerateSessionId rnd len) \<subseteq> set S_CharToUse_S"
proof
  fix c assume "c \<in> set (S_GenerateSessionId rnd len)"
  then obtain i where "c = S_CharToUse_S ! (rnd i mod 62)"
    by (auto simp: S_GenerateSessionId_def)
  moreover have "rnd i mod 62 < length S_CharToUse_S" by simp
  ultimately show "c \<in> set S_CharToUse_S" by (metis nth_mem)
qed

text \<open>Files by path; the device says which files it creates and how much of a write it accepts.\<close>

type_synonym file_system = "string \<Rightarrow> byte list option"

record io_device =
  io_can_open :: "string \<Rightarrow> bool"
  io_can_read :: "nat \<Rightarrow> nat \<Rightarrow> bool"
  io_accepts :: "byte list \<Rightarrow> byte list \<Rightarrow> nat"

definition test_bytes :: "u32 \<Rightarrow> u8 \<Rightarrow> byte list" where
  "test_bytes sz start = map (\<lambda>i. start + of_nat i) [0..<unat sz]"

definition S_CreateTestFile ::
    "io_device \<Rightarrow> string \<Rightarrow> u32 \<Rightarrow> u8 \<Rightarrow> file_system \<Rightarrow> bool \<times> file_system" where
  "S_CreateTestFile io path sz start fs =
     (if io_can_open io path then
        (let (ok, content) = fwrite1 (io_accepts io) [] (test_bytes sz start)
         in (ok, fs(path := Some content)))
      else (False, fs))"

section \<open>Construction, configuration file and logger name\<close>

record 'json web_app =
  mServer_B :: bool
  mWebAppParam_X :: web_app_param
  mWebAppConfig :: "'json option"

record 'log web_app_statics =
  S_mInstanceId_U32 :: u32
  S_mpsWebAppLogger :: "'log option"

text \<open>The file \<^verbatim>\<open>ReadConfig\<close> opens, and the name \<^verbatim>\<open>ConfigureLogger\<close> gives to the logger it creates.\<close>

definition config_path :: "string \<Rightarrow> string \<Rightarrow> bool \<Rightarrow> string" where
  "config_path cwd app srv =
     cwd @ ''assets/'' @ app @ (if srv then ''-srv.json'' else ''-clt.json'')"

definition ReadConfig ::
    "(string \<Rightarrow> 'json option) \<Rightarrow> string \<Rightarrow> 'json web_app \<Rightarrow> bool \<times> 'json web_app" where
  "ReadConfig parse_file cwd a =
     (case parse_file (config_path cwd (AppName_S (mWebAppParam_X a)) (mServer_B a)) of
        None \<Rightarrow> (False, a)
      | Some j \<Rightarrow> (True, a\<lparr>mWebAppConfig := Some j\<rparr>))"

definition logger_name :: "bool \<Rightarrow> u32 \<Rightarrow> string" where
  "logger_name srv inst =
     snprintf_buf 256 ((if srv then ''Srv'' else ''Clt'') @ ''_BofWebApp_'' @ dec_int04 (sint inst) @ ''_'')"

text \<open>\<open>factory\<close> is the logger factory's \<^verbatim>\<open>V_Create\<close>, when there is one.\<close>

definition ConfigureLogger ::
    "(string \<Rightarrow> string \<Rightarrow> 'log) option \<Rightarrow> bool \<Rightarrow> 'log web_app_statics \<Rightarrow> 'log web_app_statics" where
  "ConfigureLogger factory srv st =
     (let st0 = st\<lparr>S_mpsWebAppLogger := None\<rparr>
      in case factory of
           None \<Rightarrow> st0
         | Some create \<Rightarrow>
             st0\<lparr>S_mpsWebAppLogger := Some (create (logger_name srv (S_mInstanceId_U32 st0)) ''APP'')\<rparr>)"

definition BofWebApp ::
    "(string \<Rightarrow> 'json option) \<Rightarrow> string \<Rightarrow> (string \<Rightarrow> string \<Rightarrow> 'log) option \<Rightarrow> bool \<Rightarrow>
     web_app_param \<Rightarrow> 'log web_app_statics \<Rightarrow> 'json web_app \<times> 'log web_app_statics" where
  "BofWebApp parse_file cwd factory srv param st =
     (let st1 = st\<lparr>S_mInstanceId_U32 := S_mInstanceId_U32 st + 1\<rparr>;
          st2 = ConfigureLogger factory srv st1;
          a = \<lparr>mServer_B = srv, mWebAppParam_X = param, mWebAppConfig = None\<rparr>
      in (snd (ReadConfig parse_file cwd a), st2))"

section \<open>The log text of an exchange\<close>

text \<open>\<^verbatim>\<open>%s\<close> of a \<^verbatim>\<open>std::string\<close> goes through \<^verbatim>\<open>c_str()\<close>.\<close>

definition DumpHeader :: "(string \<times> string) list \<Rightarrow> string" where
  "DumpHeader hs =
     concat (map (\<lambda>(k, v). snprintf_buf 0x4000 (c_str k @ '': '' @ c_str v @ [CHR 0x0A])) hs)"

definition query_text :: "(string \<times> string) list \<Rightarrow> string" where
  "query_text ps =
     concat (map (\<lambda>(i, (k, v)). snprintf_buf 0x1000
                     ((if i = 0 then ''?'' else ''&'') @ c_str k @ ''='' @ c_str v))
                 (zip [0..<length ps] ps))"

record logged_request =
  lq_method :: string
  lq_version :: string
  lq_path :: string
  lq_params :: "(string \<times> string) list"
  lq_headers :: "(string \<times> string) list"

record logged_response =
  lr_status :: int
  lr_version :: string
  lr_headers :: "(string \<times> string) list"
  lr_body :: string

definition LogRequestAndResponse :: "logged_request \<Rightarrow> logged_response \<Rightarrow> string" where
  "LogRequestAndResponse rq rs =
     ''===Begin============================='' @ [CHR 0x0A] @
     snprintf_buf 0x1000 (c_str (lq_method rq) @ '' '' @ c_str (lq_version rq) @ '' '' @ c_str (lq_path rq)) @
     snprintf_buf 0x1000 (c_str (query_text (lq_params rq)) @ [CHR 0x0A]) @
     DumpHeader (lq_headers rq) @
     ''--------------------------------'' @ [CHR 0x0A] @
     snprintf_buf 0x1000 (dec_int (lr_status rs) @ '' '' @ c_str (lr_version rs) @ [CHR 0x0A]) @
     DumpHeader (lr_headers rs) @
     [CHR 0x0A] @
     (if lr_body rs \<noteq> [] then lr_body rs else []) @
     [CHR 0x0A] @
     ''===End==============================='' @ [CHR 0x0A]"

lemma DumpHeader_Nil [simp]: "DumpHeader [] = []"
  by (simp add: DumpHeader_def)

lemma length_DumpHeader: "length (DumpHeader hs) \<le> length hs * 0x3FFF"
proof (induction hs)
  case Nil
  then show ?case by simp
next
  case (Cons h hs)
  have "length (snprintf_buf 0x4000 s) \<le> 0x3FFF" for s
    using length_snprintf_buf_le [of "0x4000" s] by simp
  with Cons show ?case
    by (cases h) (auto simp: DumpHeader_def intro: add_mono)
qed

section \<open>Properties\<close>

text \<open>C21. Round trip: the Content-Range text the client and the server print with
  \<^verbatim>\<open>snprintf\<close> into their 256 byte buffers is read back by \<open>S_ParseContentRangeRequest\<close> as exactly the
  three 64 bit values, whatever the output parameters held before.\<close>

theorem content_range_roundtrip:
  "S_ParseContentRangeRequest (snprintf_buf 256 (content_range mn mx sz)) a b c = (True, mn, mx, sz)"
  by simp

text \<open>C22. Functional: \<open>S_ParseContentRangeRequest\<close> accepts exactly the texts
  \<open>bytes a-b/c\<close> with three digit strings whose values fit 64 bits, and returns those values.\<close>

theorem content_range_accepts_exactly:
  "S_ParseContentRangeRequest s mn mx sz = (True, mn', mx', sz') \<longleftrightarrow>
     (\<exists>a b c. s = ''bytes '' @ a @ ''-'' @ b @ ''/'' @ c \<and> digits a \<and> digits b \<and> digits c \<and>
        undec a = unat mn' \<and> undec b = unat mx' \<and> undec c = unat sz')"
    (is "?lhs \<longleftrightarrow> ?rhs")
proof
  assume ?lhs
  then obtain a b c where m: "match_content_range s = Some (a, b, c)"
    and v: "stoul a = Some mn'" "stoul b = Some mx'" "stoul c = Some sz'"
    by (auto simp: S_ParseContentRangeRequest_def split: option.splits prod.splits)
  from v have "undec a = unat mn'" "undec b = unat mx'" "undec c = unat sz'"
    by (auto simp: stoul_Some_iff)
  with m show ?rhs by (auto simp: match_content_range_iff)
next
  assume ?rhs
  then obtain a b c where m: "match_content_range s = Some (a, b, c)"
    and v: "stoul a = Some mn'" "stoul b = Some mx'" "stoul c = Some sz'"
    by (auto simp: match_content_range_iff stoul_Some_iff)
  then show ?lhs by (simp add: S_ParseContentRangeRequest_def)
qed

text \<open>Error path: when the second number does not fit 64 bits the call reports failure, but the
  first output parameter has already been overwritten; the two others keep their values.\<close>

theorem content_range_overflow_overwrites:
  assumes "digits a" "digits b" "digits c" and "undec a < 2 ^ 64" and "2 ^ 64 \<le> undec b"
  shows "S_ParseContentRangeRequest (''bytes '' @ a @ ''-'' @ b @ ''/'' @ c) mn mx sz =
           (False, of_nat (undec a), mx, sz)"
proof -
  have "match_content_range (''bytes '' @ a @ ''-'' @ b @ ''/'' @ c) = Some (a, b, c)"
    using assms(1-3) by (simp only: match_content_range_iff)
  moreover have "stoul a = Some (of_nat (undec a))" "stoul b = None"
    using assms(4,5) by (simp_all add: stoul_def)
  ultimately show ?thesis by (simp add: S_ParseContentRangeRequest_def)
qed

theorem content_range_overflow_overwrites_witness:
  "S_ParseContentRangeRequest (''bytes '' @ ''7'' @ ''-'' @ ''18446744073709551616'' @ ''/'' @ ''9'') 1 2 3 =
     (False, 7, 2, 3)"
proof -
  have "digits ''7''" "digits ''18446744073709551616''" "digits ''9''"
    by (simp_all add: digits_def is_digit_def)
  moreover have "undec ''7'' = 7" "undec ''18446744073709551616'' = 2 ^ 64"
    by (simp_all add: undec_def digit_val_def)
  ultimately show ?thesis
    using content_range_overflow_overwrites [of "''7''" "''18446744073709551616''" "''9''" 1 2 3]
    by simp
qed

text \<open>Functional: \<open>S_SplitCmdAndArg\<close> accepts exactly \<open>cmd(arg)\<close> with a non empty word as
  command and no line terminator in the argument, returns the two parts, and on any other text
  leaves both output parameters as they were.\<close>

theorem split_cmd_and_arg_exact:
  "(S_SplitCmdAndArg s cmd arg = (True, c, a) \<longleftrightarrow>
     s = c @ ''('' @ a @ '')'' \<and> c \<noteq> [] \<and> list_all is_word_char c \<and>
     list_all (\<lambda>x. \<not> is_line_end x) a) \<and>
   (S_SplitCmdAndArg s cmd arg = (False, cmd, arg) \<longleftrightarrow>
     (\<nexists>c a. s = c @ ''('' @ a @ '')'' \<and> c \<noteq> [] \<and> list_all is_word_char c \<and>
        list_all (\<lambda>x. \<not> is_line_end x) a))"
proof -
  let ?P = "\<lambda>c a. s = c @ ''('' @ a @ '')'' \<and> c \<noteq> [] \<and> list_all is_word_char c \<and>
     list_all (\<lambda>x. \<not> is_line_end x) a"
  have P: "match_cmd_arg s = Some (c, a) \<longleftrightarrow> ?P c a" for c a
    by (simp add: match_cmd_arg_iff list_all_iff)
  have "S_SplitCmdAndArg s cmd arg = (True, c, a) \<longleftrightarrow> match_cmd_arg s = Some (c, a)"
    by (auto simp: S_SplitCmdAndArg_def split: option.splits)
  moreover have "S_SplitCmdAndArg s cmd arg = (False, cmd, arg) \<longleftrightarrow> (\<nexists>c a. match_cmd_arg s = Some (c, a))"
    by (auto simp: S_SplitCmdAndArg_def split: option.splits)
  ultimately show ?thesis by (simp only: P)
qed

text \<open>Round trip: splitting a joined argument list gives the list back when no item contains
  a comma and the last item is not empty; the second conjunct is the converse for any text, up to
  one final comma, which the reading loop drops.\<close>

theorem split_arg_roundtrip:
  assumes "\<forall>x \<in> set xs. CHR '','' \<notin> set x" and "xs \<noteq> []" and "last xs \<noteq> []"
  shows "S_SplitArg (join_comma xs) = xs \<and>
         (join_comma (S_SplitArg s) = s \<or> join_comma (S_SplitArg s) @ '','' = s)"
  using split_join_items [OF assms] join_getline_items [of s] by (simp add: S_SplitArg_def)

theorem split_arg_roundtrip_witness:
  "S_SplitArg (join_comma [''ab'', [], ''c'']) = [''ab'', [], ''c''] \<and>
   (join_comma (S_SplitArg ''x,'') = ''x,'' \<or> join_comma (S_SplitArg ''x,'') @ '','' = ''x,'')"
  using split_arg_roundtrip [of "[''ab'', [], ''c'']" "''x,''"] by simp

text \<open>Bounds: a session identifier has exactly the requested length and only characters of the
  alphabet, whatever \<open>rand\<close> returns: the index never leaves the table.\<close>

theorem session_id_shape:
  "length (S_GenerateSessionId rnd len) = unat len \<and>
   set (S_GenerateSessionId rnd len) \<subseteq> set S_CharToUse_S"
  using session_id_chars by (simp add: S_GenerateSessionId_def)

text \<open>Functional: a test file is created with byte \<open>i\<close> equal to the start value plus \<open>i\<close>
  modulo 256 exactly when the path opens, the size is not zero and the device takes every byte;
  a size of zero creates an empty file and still reports failure.\<close>

theorem create_test_file_result:
  "(S_CreateTestFile io path sz start fs = (True, fs') \<longleftrightarrow>
      io_can_open io path \<and> sz \<noteq> 0 \<and> unat sz \<le> io_accepts io [] (test_bytes sz start) \<and>
      fs' = fs(path \<mapsto> map (\<lambda>i. word_of_nat ((unat start + i) mod 256)) [0..<unat sz])) \<and>
   S_CreateTestFile io path 0 start fs =
     (False, if io_can_open io path then fs(path \<mapsto> []) else fs)"
proof -
  have b: "test_bytes sz start = map (\<lambda>i. word_of_nat ((unat start + i) mod 256)) [0..<unat sz]"
    unfolding test_bytes_def by (intro map_cong refl) (simp add: byte_add)
  have "test_bytes sz start = [] \<longleftrightarrow> sz = 0" "length (test_bytes sz start) = unat sz" "test_bytes 0 start = []"
    by (simp_all add: test_bytes_def unat_eq_zero)
  then show ?thesis
    unfolding b [symmetric]
    by (cases "sz = 0")
      (auto simp: S_CreateTestFile_def fwrite1_def Let_def min_def unat_gt_0 split: if_splits)
qed

end
