(* ===== verification/WebClient.thy ===== *)
theory WebClient
  imports WebApp
begin

text \<open>
  The HTTP client object (\<^verbatim>\<open>src/src/bofwebclient.cpp\<close>, \<^verbatim>\<open>include/bofwebrpc/bofwebclient.h\<close>):
  connection set-up, the seven verbs, the benchmark loop and the chunked transfers \<^verbatim>\<open>Upload\<close> and
  \<^verbatim>\<open>Download\<close>.  cpp-httplib is not part of the repository: a client object is the record of the
  settings the code stores in it, and an exchange is a parameter \<open>net\<close> that takes the client, the
  request and the state of the outside world and returns a response or nothing
  (\<^verbatim>\<open>httplib::Result\<close>, whose \<^verbatim>\<open>operator bool\<close> says whether there is a response).
\<close>

section \<open>Parameters, client object, requests and responses\<close>

record web_client_param =
  IsHttpsClient_B :: bool
  CertificateAuthorityPath_S :: string
  DisableServerCertificateVerification_B :: bool
  ReadTimeoutInMs_U32 :: u32
  WriteTimeoutInMs_U32 :: u32
  WebAppParam_X :: web_app_param

definition BOF_WEB_CLIENT_PARAM_Reset :: "web_client_param \<Rightarrow> web_client_param" where
  [reset_defs]: "BOF_WEB_CLIENT_PARAM_Reset p =
     p\<lparr>IsHttpsClient_B := False, CertificateAuthorityPath_S := [],
       DisableServerCertificateVerification_B := False, ReadTimeoutInMs_U32 := 0,
       WriteTimeoutInMs_U32 := 0, WebAppParam_X := BOF_WEB_APP_PARAM_Reset (WebAppParam_X p)\<rparr>"

text \<open>The settings of a \<^verbatim>\<open>httplib::Client\<close>; \<open>None\<close> is the library's default.\<close>

record http_client =
  hc_host :: string
  hc_port :: "u16 option"
  hc_socket_options :: bool
  hc_connection_timeout :: "u32 option"
  hc_read_timeout :: "u32 option"
  hc_write_timeout :: "u32 option"
  hc_ca_cert_path :: "string option"
  hc_verify :: "bool option"
  hc_default_headers :: "(string \<times> string) list"
  hc_keep_alive :: "bool option"
  hc_compress :: "bool option"
  hc_decompress :: "bool option"

definition new_http_client :: "string \<Rightarrow> u16 option \<Rightarrow> http_client" where
  "new_http_client host port =
     \<lparr>hc_host = host, hc_port = port, hc_socket_options = False, hc_connection_timeout = None,
      hc_read_timeout = None, hc_write_timeout = None, hc_ca_cert_path = None, hc_verify = None,
      hc_default_headers = [], hc_keep_alive = None, hc_compress = None, hc_decompress = None\<rparr>"

datatype http_method =
  HTTP_GET | HTTP_POST | HTTP_PUT | HTTP_PATCH | HTTP_DELETE | HTTP_OPTIONS | HTTP_HEAD

text \<open>
  Headers are seen the way the code reads them, through \<^verbatim>\<open>get_header_value\<close>, which gives the empty
  string for a header that is not there.
\<close>

type_synonym headers = "string \<Rightarrow> string"

definition no_headers :: headers where
  "no_headers = (\<lambda>_. [])"

record http_request =
  rq_method :: http_method
  rq_uri :: string
  rq_headers :: headers
  rq_body :: "byte list"
  rq_body_type :: string

record http_response =
  rs_status :: nat
  rs_headers :: headers
  rs_body :: "byte list"

type_synonym 'w net = "http_client \<Rightarrow> http_request \<Rightarrow> 'w \<Rightarrow> http_response option \<times> 'w"

record web_client =
  mWebClientParam_X :: web_client_param
  mpuHttpClient :: "http_client option"

abbreviation OK_200 :: nat where "OK_200 \<equiv> 200"
abbreviation PartialContent_206 :: nat where "PartialContent_206 \<equiv> 206"

text \<open>How a call ends: it returns, or it reads through the null pointer of an empty result.\<close>

datatype 'a outcome = Returned 'a | NullDeref

section \<open>Construction and connection\<close>

definition BofWebClient :: "web_client_param \<Rightarrow> web_client" where
  "BofWebClient param = \<lparr>mWebClientParam_X = param, mpuHttpClient = None\<rparr>"

definition GetWebClientParam :: "web_client \<Rightarrow> web_client_param" where
  "GetWebClientParam c = mWebClientParam_X c"

definition BofWebClient_Connect :: "u32 \<Rightarrow> string \<Rightarrow> u16 \<Rightarrow> web_client \<Rightarrow> bool \<times> web_client" where
  "BofWebClient_Connect timeout ip port c =
     (let p = mWebClientParam_X c;
          h = (if IsHttpsClient_B p
               then new_http_client (snprintf_buf 0x100 (''https://'' @ c_str ip @ '':'' @ dec (unat port))) None
               else new_http_client ip (Some port))
      in (True, c\<lparr>mpuHttpClient := Some (h\<lparr>
           hc_socket_options := True,
           hc_connection_timeout := Some timeout,
           hc_read_timeout := Some (ReadTimeoutInMs_U32 p),
           hc_write_timeout := Some (WriteTimeoutInMs_U32 p),
           hc_ca_cert_path := Some (CertificateAuthorityPath_S p),
           hc_verify := Some (\<not> DisableServerCertificateVerification_B p),
           hc_default_headers := [(''User-Agent'', ''BofWebRpcAgent/1.0.0'')]\<rparr>)\<rparr>))"

definition BofWebClient_Disconnect :: "web_client \<Rightarrow> bool \<times> web_client" where
  "BofWebClient_Disconnect c =
     (case mpuHttpClient c of
        None \<Rightarrow> (False, c)
      | Some h \<Rightarrow> (True, c\<lparr>mpuHttpClient := None\<rparr>))"

section \<open>The verbs\<close>

text \<open>
  Each verb stores the three flags in the client and sends its request; with no client it returns
  an empty result and touches nothing.
\<close>

definition prepare :: "bool \<Rightarrow> bool \<Rightarrow> bool \<Rightarrow> http_client \<Rightarrow> http_client" where
  "prepare compress_req decompress_res keep_alive h =
     h\<lparr>hc_keep_alive := Some keep_alive, hc_compress := Some compress_req,
       hc_decompress := Some decompress_res\<rparr>"

definition exchange ::
    "'w net \<Rightarrow> http_request \<Rightarrow> bool \<Rightarrow> bool \<Rightarrow> bool \<Rightarrow> web_client \<Rightarrow> 'w \<Rightarrow>
     http_response option \<times> web_client \<times> 'w" where
  "exchange net rq cr dr ka c w =
     (case mpuHttpClient c of
        None \<Rightarrow> (None, c, w)
      | Some h \<Rightarrow>
          (let h' = prepare cr dr ka h; (res, w') = net h' rq w
           in (res, c\<lparr>mpuHttpClient := Some h'\<rparr>, w')))"

definition BofWebClient_Get ::
    "'w net \<Rightarrow> string \<Rightarrow> bool \<Rightarrow> bool \<Rightarrow> bool \<Rightarrow> headers \<Rightarrow> web_client \<Rightarrow> 'w \<Rightarrow>
     http_response option \<times> web_client \<times> 'w" where
  "BofWebClient_Get net uri cr dr ka hdr =
     exchange net \<lparr>rq_method = HTTP_GET, rq_uri = uri, rq_headers = hdr, rq_body = [], rq_body_type = []\<rparr> cr dr ka"

definition BofWebClient_Post ::
    "'w net \<Rightarrow> string \<Rightarrow> bool \<Rightarrow> bool \<Rightarrow> bool \<Rightarrow> headers \<Rightarrow> nat \<Rightarrow> byte list \<Rightarrow> string \<Rightarrow>
     web_client \<Rightarrow> 'w \<Rightarrow> http_response option \<times> web_client \<times> 'w" where
  "BofWebClient_Post net uri cr dr ka hdr len body ty =
     exchange net \<lparr>rq_method = HTTP_POST, rq_uri = uri, rq_headers = hdr, rq_body = take len body, rq_body_type = ty\<rparr> cr dr ka"

definition BofWebClient_Put ::
    "'w net \<Rightarrow> string \<Rightarrow> bool \<Rightarrow> bool \<Rightarrow> bool \<Rightarrow> headers \<Rightarrow> nat \<Rightarrow> byte list \<Rightarrow> string \<Rightarrow>
     web_client \<Rightarrow> 'w \<Rightarrow> http_response option \<times> web_client \<times> 'w" where
  "BofWebClient_Put net uri cr dr ka hdr len body ty =
     exchange net \<lparr>rq_method = HTTP_PUT, rq_uri = uri, rq_headers = hdr, rq_body = take len body, rq_body_type = ty\<rparr> cr dr ka"

definition BofWebClient_Patch ::
    "'w net \<Rightarrow> string \<Rightarrow> bool \<Rightarrow> bool \<Rightarrow> bool \<Rightarrow> headers \<Rightarrow> nat \<Rightarrow> byte list \<Rightarrow> string \<Rightarrow>
     web_client \<Rightarrow> 'w \<Rightarrow> http_response option \<times> web_client \<times> 'w" where
  "BofWebClient_Patch net uri cr dr ka hdr len body ty =
     exchange net \<lparr>rq_method = HTTP_PATCH, rq_uri = uri, rq_headers = hdr, rq_body = take len body, rq_body_type = ty\<rparr> cr dr ka"

definition BofWebClient_Delete ::
    "'w net \<Rightarrow> string \<Rightarrow> bool \<Rightarrow> bool \<Rightarrow> bool \<Rightarrow> headers \<Rightarrow> web_client \<Rightarrow> 'w \<Rightarrow>
     http_response option \<times> web_client \<times> 'w" where
  "BofWebClient_Delete net uri cr dr ka hdr =
     exchange net \<lparr>rq_method = HTTP_DELETE, rq_uri = uri, rq_headers = hdr, rq_body = [], rq_body_type = []\<rparr> cr dr ka"

definition BofWebClient_Options ::
    "'w net \<Rightarrow> string \<Rightarrow> bool \<Rightarrow> bool \<Rightarrow> bool \<Rightarrow> headers \<Rightarrow> web_client \<Rightarrow> 'w \<Rightarrow>
     http_response option \<times> web_client \<times> 'w" where
  "BofWebClient_Options net uri cr dr ka hdr =
     exchange net \<lparr>rq_method = HTTP_OPTIONS, rq_uri = uri, rq_headers = hdr, rq_body = [], rq_body_type = []\<rparr> cr dr ka"

definition BofWebClient_Head ::
    "'w net \<Rightarrow> string \<Rightarrow> bool \<Rightarrow> bool \<Rightarrow> bool \<Rightarrow> headers \<Rightarrow> web_client \<Rightarrow> 'w \<Rightarrow>
     http_response option \<times> web_client \<times> 'w" where
  "BofWebClient_Head net uri cr dr ka hdr =
     exchange net \<lparr>rq_method = HTTP_HEAD, rq_uri = uri, rq_headers = hdr, rq_body = [], rq_body_type = []\<rparr> cr dr ka"

lemmas verb_defs =
  BofWebClient_Get_def BofWebClient_Post_def BofWebClient_Put_def BofWebClient_Patch_def
  BofWebClient_Delete_def BofWebClient_Options_def BofWebClient_Head_def

lemma exchange_no_client [simp]:
  "mpuHttpClient c = None \<Longrightarrow> exchange net rq cr dr ka c w = (None, c, w)"
  by (simp add: exchange_def)

lemma exchange_client:
  "mpuHttpClient c = Some h \<Longrightarrow>
     exchange net rq cr dr ka c w =
       (fst (net (prepare cr dr ka h) rq w), c\<lparr>mpuHttpClient := Some (prepare cr dr ka h)\<rparr>,
        snd (net (prepare cr dr ka h) rq w))"
  by (simp add: exchange_def Let_def split: prod.split)

lemma exchange_keeps_client:
  "exchange net rq cr dr ka c w = (res, c', w') \<Longrightarrow>
     (mpuHttpClient c' = None \<longleftrightarrow> mpuHttpClient c = None) \<and> mWebClientParam_X c' = mWebClientParam_X c"
  by (auto simp: exchange_def Let_def split: option.splits prod.splits)

lemma prepare_idem [simp]: "prepare cr dr ka (prepare cr' dr' ka' h) = prepare cr dr ka h"
  by (simp add: prepare_def)

section \<open>Benchmark\<close>

text \<open>
  The loop of \<^verbatim>\<open>Benchmark\<close>: \<open>clock n\<close> is the tick count read at the start of turn \<open>n\<close>, \<open>todo\<close> counts the
  turns left, and every answer that is not a 200 is reported.  The status is read through the result
  without a test that there is one.  The final report of the times is left out: it only prints.
\<close>

fun benchmark_loop ::
    "'w net \<Rightarrow> (nat \<Rightarrow> u32) \<Rightarrow> nat \<Rightarrow> nat \<Rightarrow> (nat \<times> nat \<times> byte list) list \<Rightarrow> web_client \<Rightarrow> 'w \<Rightarrow>
     (nat \<times> nat \<times> byte list) list outcome \<times> web_client \<times> 'w" where
  "benchmark_loop net clock 0 n rep c w = (Returned rep, c, w)"
| "benchmark_loop net clock (Suc todo) n rep c w =
     (case BofWebClient_Get net ''/cli/v1/benchmark?sleep=0'' False True True
             (no_headers(''timestamp'' := dec (unat (clock n)))) c w of
        (None, c', w') \<Rightarrow> (NullDeref, c', w')
      | (Some r, c', w') \<Rightarrow>
          benchmark_loop net clock todo (Suc n)
            (if rs_status r \<noteq> OK_200 then rep @ [(n, rs_status r, rs_body r)] else rep) c' w')"

definition BofWebClient_Benchmark ::
    "'w net \<Rightarrow> (nat \<Rightarrow> u32) \<Rightarrow> u32 \<Rightarrow> web_client \<Rightarrow> 'w \<Rightarrow> bool outcome \<times> web_client \<times> 'w" where
  "BofWebClient_Benchmark net clock NbTests c w =
     (case benchmark_loop net clock (unat NbTests) 0 [] c w of
        (Returned _, c', w') \<Rightarrow> (Returned True, c', w')
      | (NullDeref, c', w') \<Rightarrow> (NullDeref, c', w'))"

text \<open>An exchange that also keeps the list of the requests it was given.\<close>

definition recording :: "'w net \<Rightarrow> (http_request list \<times> 'w) net" where
  "recording net h rq lw = (case net h rq (snd lw) of (res, w') \<Rightarrow> (res, (fst lw @ [rq], w')))"

text \<open>The request of one turn of the benchmark.\<close>

definition benchmark_request :: "u32 \<Rightarrow> http_request" where
  "benchmark_request tick =
     \<lparr>rq_method = HTTP_GET, rq_uri = ''/cli/v1/benchmark?sleep=0'',
      rq_headers = no_headers(''timestamp'' := dec (unat tick)), rq_body = [], rq_body_type = []\<rparr>"

lemma get_benchmark:
  "BofWebClient_Get net ''/cli/v1/benchmark?sleep=0'' False True True
     (no_headers(''timestamp'' := dec (unat tick))) = exchange net (benchmark_request tick) False True True"
  by (simp add: BofWebClient_Get_def benchmark_request_def)

lemma exchange_recording:
  "mpuHttpClient c = Some h \<Longrightarrow>
     exchange (recording net) rq cr dr ka c w =
       (case net (prepare cr dr ka h) rq (snd w) of
          (res, w') \<Rightarrow> (res, c\<lparr>mpuHttpClient := Some (prepare cr dr ka h)\<rparr>, fst w @ [rq], w'))"
  by (simp add: exchange_client recording_def split: prod.split)

lemma benchmark_requests:
  assumes "mpuHttpClient c \<noteq> None" "benchmark_loop (recording net) clock k n rep c w = (Returned rep', c', w')"
  shows "fst w' = fst w @ map (\<lambda>i. benchmark_request (clock i)) [n..<n + k]"
  using assms
proof (induction k arbitrary: n rep c w)
  case 0
  then show ?case by simp
next
  case (Suc k)
  obtain h where h: "mpuHttpClient c = Some h" using Suc.prems(1) by auto
  let ?c = "c\<lparr>mpuHttpClient := Some (prepare False True True h)\<rparr>"
  from Suc.prems(2) h obtain rep1 w1 where
    "benchmark_loop (recording net) clock k (Suc n) rep1 ?c w1 = (Returned rep', c', w')"
    "fst w1 = fst w @ [benchmark_request (clock n)]"
    by (auto simp: get_benchmark exchange_recording split: prod.splits option.splits)
  moreover have "[n..<n + Suc k] = n # [Suc n..<Suc n + k]"
    by (simp add: upt_conv_Cons del: upt_Suc)
  ultimately show ?case using Suc.IH [of ?c "Suc n" rep1 w1] by simp
qed

section \<open>Properties\<close>

text \<open>A benchmark that returns has made exactly the requests it was asked for, each with the tick
  count of its start, and returns true whatever the statuses were.\<close>

theorem benchmark_makes_all_requests:
  assumes "mpuHttpClient c \<noteq> None"
    and "BofWebClient_Benchmark (recording net) clock n c ([], w) = (Returned b, c', log, w')"
  shows "b \<and> log = map (\<lambda>i. benchmark_request (clock i)) [0..<unat n]"
proof -
  obtain rep where r: "benchmark_loop (recording net) clock (unat n) 0 [] c ([], w) = (Returned rep, c', log, w')" and b
    using assms(2) by (auto simp: BofWebClient_Benchmark_def split: prod.splits outcome.splits)
  from benchmark_requests [OF assms(1) r] \<open>b\<close> show ?thesis by simp
qed

definition always_ok :: "unit net" where
  "always_ok h rq w = (Some \<lparr>rs_status = OK_200, rs_headers = no_headers, rs_body = []\<rparr>, w)"

definition bench_client :: web_client where
  "bench_client = \<lparr>mWebClientParam_X = BOF_WEB_CLIENT_PARAM_Reset undefined,
     mpuHttpClient = Some (new_http_client ''localhost'' None)\<rparr>"

lemma bench_returns:
  "\<exists>c log w. BofWebClient_Benchmark (recording always_ok) (\<lambda>n. word_of_nat n) 1 bench_client ([], ()) =
     (Returned True, c, log, w)"
  proof -
  have "unat (1 :: u32) = Suc 0" by simp
  then show ?thesis
    by (simp only: BofWebClient_Benchmark_def benchmark_loop.simps get_benchmark)
      (simp add: exchange_recording always_ok_def bench_client_def)
qed

lemma benchmark_makes_all_requests_witness:
  "\<exists>c log w. BofWebClient_Benchmark (recording always_ok) (\<lambda>n. word_of_nat n) 1 bench_client ([], ()) =
     (Returned True, c, log, w) \<and> True \<and>
     log = map (\<lambda>i. benchmark_request (word_of_nat i))
       [0..<unat (1 :: u32)]"
proof -
  have c: "mpuHttpClient bench_client \<noteq> None" by (simp add: bench_client_def)
  obtain c' log w where r: "BofWebClient_Benchmark (recording always_ok) (\<lambda>n. word_of_nat n) 1 bench_client ([], ()) =
      (Returned True, c', log, w)"
    using bench_returns by blast
  from r benchmark_makes_all_requests [OF c r] show ?thesis by blast
qed

text \<open>Without a connection, or when the first request gets no answer, the benchmark reads the status
  through a null pointer instead of returning.\<close>

theorem benchmark_without_connection:
  assumes "mpuHttpClient c = None" "n \<noteq> 0"
  shows "BofWebClient_Benchmark net clock n c w = (NullDeref, c, w)"
proof -
  obtain k where "unat n = Suc k" using assms(2) by (metis not0_implies_Suc unat_eq_zero)
  then show ?thesis using assms(1) by (simp add: BofWebClient_Benchmark_def verb_defs)
qed

lemma benchmark_without_connection_witness:
  "\<forall>p. BofWebClient_Benchmark (\<lambda>h rq w. (None, w)) (\<lambda>_. 0) 3 (BofWebClient p) () = (NullDeref, BofWebClient p, ())"
  by (intro allI benchmark_without_connection) (simp_all add: BofWebClient_def)

end
