(* ===== verification/Upload.thy ===== *)
theory Upload
  imports WebClient
begin

text \<open>
  \<^verbatim>\<open>BofWebClient::Upload\<close>: a file is posted in chunks, each with the session and its range in the
  headers; the server's echo of the range drives the loop.  The lemmas give the exact sequence of
  requests for any server, the number of turns, and what a result of true means.
\<close>

section \<open>Upload\<close>

text \<open>
  What stays fixed during one upload: the exchange, whether the logging macro evaluates its
  arguments (it belongs to bofstd), the destination, the three flags, the file and the session.
\<close>

record 'w upload_env =
  ue_net :: "'w net"
  ue_log_args :: bool
  ue_uri :: string
  ue_compress :: bool
  ue_decompress :: bool
  ue_keep_alive :: bool
  ue_can_read :: "nat \<Rightarrow> nat \<Rightarrow> bool"
  ue_file :: "byte list"
  ue_session :: string

text \<open>\<open>DataSize = ftell(pIo_X)\<close> at the end of the file.\<close>

definition ue_data_size :: "'w upload_env \<Rightarrow> u64" where
  "ue_data_size E = word_of_nat (length (ue_file E))"

text \<open>
  The loop's variables: the client and the outside world, the position of the file, the two ranges
  and the last result; \<open>us_sent\<close> records the ranges and bodies posted so far.
\<close>

record 'w upload_state =
  us_client :: web_client
  us_world :: 'w
  us_pos :: nat
  us_min :: u64
  us_max :: u64
  us_res :: "http_response option"
  us_sent :: "(u64 \<times> u64 \<times> byte list) list"

text \<open>One turn of the \<^verbatim>\<open>while(1)\<close>: \<open>Inl\<close> is a \<^verbatim>\<open>break\<close> with the value of \<^verbatim>\<open>Rts_B\<close>.\<close>

definition upload_step ::
    "'w upload_env \<Rightarrow> 'w upload_state \<Rightarrow> (bool outcome \<times> 'w upload_state) + 'w upload_state" where
  "upload_step E s =
     (let RangeMin = us_min s; RangeMax = us_max s; DataSize = ue_data_size E;
          ReadSize = RangeMax - RangeMin + 1
      in case fread1 (ue_can_read E) (ue_file E) (us_pos s) (unat ReadSize) of
           None \<Rightarrow> Inl (if ue_log_args E \<and> us_res s = None then NullDeref else Returned False, s)
         | Some chunk \<Rightarrow>
             (let hdr = no_headers(''Session-Id'' := ue_session E,
                          ''Content-Range'' := snprintf_buf 0x100 (content_range RangeMin RangeMax DataSize));
                  (Res, c', w') = BofWebClient_Post (ue_net E) (ue_uri E) (ue_compress E) (ue_decompress E)
                     (ue_keep_alive E) hdr (unat ReadSize) chunk ''application/octet-stream'' (us_client s) (us_world s);
                  s1 = s\<lparr>us_client := c', us_world := w', us_res := Res,
                         us_pos := us_pos s + unat ReadSize,
                         us_sent := us_sent s @ [(RangeMin, RangeMax, chunk)]\<rparr>
              in case Res of
                   None \<Rightarrow> Inl (Returned False, s1)
                 | Some r \<Rightarrow>
                     if rs_status r \<noteq> OK_200 \<and> rs_status r \<noteq> PartialContent_206 then Inl (Returned False, s1)
                     else
                       (case S_ParseContentRangeRequest (rs_headers r ''Content-Range'') 0 0 0 of
                          (ok, NewRangeMin, NewRangeMax, NewDataSize) \<Rightarrow>
                            if ok \<and> RangeMin = NewRangeMin \<and> RangeMax = NewRangeMax \<and> DataSize = NewDataSize then
                              if rs_status r = OK_200 then Inl (Returned (DataSize - 1 \<le> RangeMax), s1)
                              else (let RangeMin' = RangeMax + 1;
                                        RangeMax' = RangeMin' + ReadSize - 1;
                                        RangeMax'' = (if DataSize - 1 \<le> RangeMax' then DataSize - 1 else RangeMax')
                                    in Inr (s1\<lparr>us_min := RangeMin', us_max := RangeMax''\<rparr>))
                            else Inl (Returned False, s1))))"

text \<open>Every turn that continues has read at least one byte of the file, so the loop ends.\<close>

lemma upload_step_progress:
  assumes "upload_step E s = Inr s'"
  shows "us_pos s < us_pos s' \<and> us_pos s' \<le> length (ue_file E)"
proof -
  obtain chunk where r: "fread1 (ue_can_read E) (ue_file E) (us_pos s) (unat (us_max s - us_min s + 1)) = Some chunk"
    using assms by (auto simp: upload_step_def Let_def split: option.splits)
  then have "us_pos s' = us_pos s + unat (us_max s - us_min s + 1)"
    using assms by (auto simp: upload_step_def Let_def split: option.splits prod.splits if_splits)
  with r show ?thesis by (auto simp: fread1_Some_iff)
qed

function upload_loop :: "'w upload_env \<Rightarrow> 'w upload_state \<Rightarrow> bool outcome \<times> 'w upload_state" where
  "upload_loop E s = (case upload_step E s of Inl r \<Rightarrow> r | Inr s' \<Rightarrow> upload_loop E s')"
  by pat_completeness auto
termination
  by (relation "measure (\<lambda>(E, s). length (ue_file E) - us_pos s)")
    (auto dest: upload_step_progress)

declare upload_loop.simps [simp del]

text \<open>The ranges before the first turn; a chunk size of zero means 64 kB.\<close>

definition upload_chunk :: "u32 \<Rightarrow> u32" where
  "upload_chunk chunk = (if chunk = 0 then 64 * 1024 else chunk)"

definition upload_start :: "'w upload_env \<Rightarrow> u32 \<Rightarrow> web_client \<Rightarrow> 'w \<Rightarrow> 'w upload_state" where
  "upload_start E chunk c w =
     \<lparr>us_client = c, us_world = w, us_pos = 0, us_min = 0,
      us_max = (if ue_data_size E \<le> ucast (upload_chunk chunk) then ue_data_size E - 1
                else ucast (upload_chunk chunk - 1)),
      us_res = None, us_sent = []\<rparr>"

definition BofWebClient_Upload ::
    "'w net \<Rightarrow> bool \<Rightarrow> (nat \<Rightarrow> nat) \<Rightarrow> io_device \<Rightarrow> file_system \<Rightarrow> string \<Rightarrow> string \<Rightarrow> bool \<Rightarrow> bool \<Rightarrow> bool \<Rightarrow>
     u32 \<Rightarrow> web_client \<Rightarrow> 'w \<Rightarrow> bool outcome \<times> web_client \<times> 'w" where
  "BofWebClient_Upload net log_args rnd io fs path uri cr dr ka chunk c w =
     (case mpuHttpClient c of
        None \<Rightarrow> (Returned False, c, w)
      | Some h \<Rightarrow>
          (case (if io_can_open io path then fs path else None) of
             None \<Rightarrow> (Returned False, c, w)
           | Some file \<Rightarrow>
               (let E = \<lparr>ue_net = net, ue_log_args = log_args, ue_uri = uri, ue_compress = cr,
                         ue_decompress = dr, ue_keep_alive = ka, ue_can_read = io_can_read io,
                         ue_file = file, ue_session = S_GenerateSessionId rnd 36\<rparr>;
                    (out, s) = upload_loop E (upload_start E chunk c w)
                in (out, us_client s, us_world s))))"

section \<open>The plan of an upload\<close>

text \<open>The first \<open>k\<close> chunks of a file: first byte, last byte, content.\<close>

definition upload_plan :: "byte list \<Rightarrow> nat \<Rightarrow> nat \<Rightarrow> (u64 \<times> u64 \<times> byte list) list" where
  "upload_plan file c k =
     map (\<lambda>i. (word_of_nat (i * c), word_of_nat (min (Suc i * c) (length file)) - 1,
               take c (drop (i * c) file))) [0..<k]"

lemma length_upload_plan [simp]: "length (upload_plan file c k) = k"
  by (simp add: upload_plan_def)

lemma upload_plan_Suc:
  "upload_plan file c (Suc k) = upload_plan file c k @
     [(word_of_nat (k * c), word_of_nat (min (Suc k * c) (length file)) - 1, take c (drop (k * c) file))]"
  by (simp add: upload_plan_def)

lemma upload_plan_bodies: "concat (map (\<lambda>(a, b, body). body) (upload_plan file c k)) = take (k * c) file"
proof (induction k)
  case 0
  then show ?case by (simp add: upload_plan_def)
next
  case (Suc k)
  then show ?case by (simp add: upload_plan_Suc take_append_slice add.commute)
qed

text \<open>
  Before every turn the ranges are those of the next chunk of the plan.  At the end of the file the
  range is empty, so the turn reads nothing.
\<close>

definition upload_inv :: "'w upload_env \<Rightarrow> nat \<Rightarrow> nat \<Rightarrow> 'w upload_state \<Rightarrow> bool" where
  "upload_inv E c k s \<longleftrightarrow>
     (let len = length (ue_file E); pos = min (k * c) len
      in us_pos s = pos \<and> us_min s = word_of_nat pos \<and>
         us_max s = word_of_nat (min (pos + c) len) - 1 \<and>
         us_sent s = upload_plan (ue_file E) c k)"

lemma upload_start_inv:
  assumes "length (ue_file E) < 2 ^ 63"
  shows "upload_inv E (unat (upload_chunk chunk)) 0 (upload_start E chunk c w)"
proof -
  let ?c = "upload_chunk chunk"
  have c: "0 < unat ?c" by (simp add: upload_chunk_def unat_gt_0)
  have "unat (ucast ?c :: u64) = unat ?c" by simp
  moreover have "unat (ue_data_size E) = length (ue_file E)"
    using assms by (simp add: ue_data_size_def unat_of_nat_lt)
  ultimately have le: "ue_data_size E \<le> ucast ?c \<longleftrightarrow> length (ue_file E) \<le> unat ?c"
    by (simp add: word_le_nat_alt)
  have "(ucast (?c - 1) :: u64) = word_of_nat (unat ?c) - 1" by (rule ucast_last_byte [OF c])
  with le show ?thesis
    by (auto simp: upload_inv_def upload_start_def upload_plan_def ue_data_size_def Let_def min_def)
qed

lemma upload_chunk_bounds: "0 < unat (upload_chunk chunk)" "unat (upload_chunk chunk) < 2 ^ 32"
  using unat_u32_lt [of "upload_chunk chunk"] by (simp_all add: upload_chunk_def unat_gt_0)

text \<open>The size of the next read, and the ranges of the turn after it.\<close>

lemma upload_inv_read_size:
  assumes "upload_inv E c k s" "length (ue_file E) < 2 ^ 63"
  shows "unat (us_max s - us_min s + 1) = min (us_pos s + c) (length (ue_file E)) - us_pos s"
proof -
  let ?q = "min (us_pos s + c) (length (ue_file E))"
  have "us_pos s \<le> ?q" "?q < 2 ^ 64" using assms by (auto simp: upload_inv_def Let_def)
  moreover have "us_max s = word_of_nat ?q - 1" "us_min s = word_of_nat (us_pos s)"
    using assms(1) by (auto simp: upload_inv_def Let_def)
  ultimately show ?thesis by (simp only: unat_range_size64)
qed

lemma upload_inv_facts:
  assumes "upload_inv E c k s" "length (ue_file E) < 2 ^ 63"
  defines "q \<equiv> min (us_pos s + c) (length (ue_file E))"
  shows "us_min s = word_of_nat (us_pos s)" "us_max s = word_of_nat q - 1"
    "us_sent s = upload_plan (ue_file E) c k" "us_pos s \<le> q" "q < 2 ^ 63"
    "us_pos s = min (k * c) (length (ue_file E))"
  using assms by (auto simp: upload_inv_def Let_def)

text \<open>A turn that reads is a turn of the plan: the file is not at its end, and the chunk is the next one.\<close>

lemma upload_read_is_plan:
  assumes inv: "upload_inv E c k s" and len: "length (ue_file E) < 2 ^ 63"
    and r: "fread1 (ue_can_read E) (ue_file E) (us_pos s) (unat (us_max s - us_min s + 1)) = Some chunk"
  shows "us_pos s = k * c \<and> k * c < length (ue_file E) \<and>
    us_pos s + unat (us_max s - us_min s + 1) = min (Suc k * c) (length (ue_file E)) \<and>
    us_sent s @ [(us_min s, us_max s, chunk)] = upload_plan (ue_file E) c (Suc k)"
proof -
  note f = upload_inv_facts [OF inv len]
  have rs: "unat (us_max s - us_min s + 1) = min (us_pos s + c) (length (ue_file E)) - us_pos s"
    by (rule upload_inv_read_size [OF inv len])
  with r have pos: "us_pos s < length (ue_file E)" and "0 < c"
    and chunk: "chunk = take (min (us_pos s + c) (length (ue_file E)) - us_pos s) (drop (us_pos s) (ue_file E))"
    by (auto simp: fread1_Some_iff)
  with f(6) have k: "us_pos s = k * c" by simp
  have "chunk = take c (drop (k * c) (ue_file E))"
    unfolding chunk k by (cases "k * c + c \<le> length (ue_file E)") (simp_all add: min_def)
  with k pos rs f show ?thesis
    by (simp add: upload_plan_Suc add.commute [of _ c])
qed

lemma upload_next_max:
  fixes p q len :: nat
  assumes "p < q" "q \<le> len" "len < 2 ^ 63" "q = min (p + c) len"
  defines "m \<equiv> word_of_nat q + (word_of_nat (q - p)) - (1 :: u64)"
  shows "(if word_of_nat len - 1 \<le> m then word_of_nat len - 1 else m) = word_of_nat (min (q + c) len) - 1"
proof -
  have m: "m = word_of_nat (q + (q - p)) - 1" by (simp add: m_def)
  have "word_of_nat len - 1 \<le> m \<longleftrightarrow> len \<le> q + (q - p)"
    unfolding m by (rule last_byte_le) (use assms in \<open>auto simp: min_def split: if_splits\<close>)
  moreover have "min (q + c) len = (if len \<le> q + (q - p) then len else q + (q - p))"
    using assms(1,2,4) by (auto simp: min_def split: if_splits)
  ultimately show ?thesis unfolding m by simp
qed

lemma upload_step_inv:
  assumes inv: "upload_inv E c k s" and len: "length (ue_file E) < 2 ^ 63"
    and step: "upload_step E s = Inr s'"
  shows "upload_inv E c (Suc k) s' \<and> k * c < length (ue_file E)"
proof -
  let ?rs = "us_max s - us_min s + 1" and ?len = "length (ue_file E)"
  obtain chunk where r: "fread1 (ue_can_read E) (ue_file E) (us_pos s) (unat ?rs) = Some chunk"
    using step by (auto simp: upload_step_def Let_def split: option.splits)
  note p = upload_read_is_plan [OF inv len r]
  note f = upload_inv_facts [OF inv len]
  let ?q = "min (us_pos s + c) ?len"
  have rs: "?rs = word_of_nat (?q - us_pos s)"
    using range_size [OF f(4), where 'a = 64] f(1,2) by simp
  have s': "us_pos s' = us_pos s + unat ?rs" "us_min s' = us_max s + 1"
      "us_max s' = (if ue_data_size E - 1 \<le> us_max s + 1 + ?rs - 1 then ue_data_size E - 1
                    else us_max s + 1 + ?rs - 1)"
      "us_sent s' = us_sent s @ [(us_min s, us_max s, chunk)]"
    using step r
    by (auto simp: upload_step_def Let_def algebra_simps split: option.splits prod.splits if_splits)
  have "us_pos s < ?q" using p r by (auto simp: fread1_Some_iff)
  have next_max: "us_max s + 1 + ?rs - 1 = word_of_nat ?q + word_of_nat (?q - us_pos s) - 1"
    unfolding rs unfolding f(2) by simp
  have mx: "us_max s' = word_of_nat (min (?q + c) ?len) - 1"
    unfolding s'(3) next_max ue_data_size_def
    by (rule upload_next_max) (use len \<open>us_pos s < ?q\<close> in simp_all)
  have q: "?q = min (Suc k * c) ?len" using p by (simp add: add.commute)
  have "us_pos s' = ?q" using p q unfolding s'(1) by metis
  have "us_min s' = word_of_nat ?q" unfolding s'(2) f(2) by simp
  with \<open>us_pos s' = ?q\<close> mx p s'(4) q show ?thesis by (simp add: upload_inv_def Let_def)
qed

section \<open>What the server sees\<close>

text \<open>The request one entry of the plan becomes.\<close>

definition upload_request ::
    "string \<Rightarrow> string \<Rightarrow> u64 \<Rightarrow> u64 \<times> u64 \<times> byte list \<Rightarrow> http_request" where
  "upload_request uri session data_size e =
     (case e of (lo, hi, body) \<Rightarrow>
        \<lparr>rq_method = HTTP_POST, rq_uri = uri,
         rq_headers = no_headers(''Session-Id'' := session,
           ''Content-Range'' := content_range lo hi data_size),
         rq_body = body, rq_body_type = ''application/octet-stream''\<rparr>)"

text \<open>The log of the requests follows the list of what was sent, as long as there is a client.\<close>

definition upload_logged :: "(http_request list \<times> 'w) upload_env \<Rightarrow> (http_request list \<times> 'w) upload_state \<Rightarrow> bool" where
  "upload_logged E s \<longleftrightarrow> mpuHttpClient (us_client s) \<noteq> None \<and>
     fst (us_world s) = map (upload_request (ue_uri E) (ue_session E) (ue_data_size E)) (us_sent s)"

lemma post_recording:
  assumes "mpuHttpClient c \<noteq> None" "length body = n"
    and "BofWebClient_Post (recording net) uri cr dr ka hdr n body ty c w = (res, c', w')"
  shows "mpuHttpClient c' \<noteq> None \<and>
    fst w' = fst w @ [\<lparr>rq_method = HTTP_POST, rq_uri = uri, rq_headers = hdr, rq_body = body, rq_body_type = ty\<rparr>]"
  using assms by (auto simp: verb_defs exchange_client recording_def split: prod.splits)

lemma upload_step_logged:
  assumes net: "ue_net E = recording net" and log: "upload_logged E s"
  shows "case upload_step E s of Inl (out, s') \<Rightarrow> upload_logged E s' | Inr s' \<Rightarrow> upload_logged E s'"
proof (cases "fread1 (ue_can_read E) (ue_file E) (us_pos s) (unat (us_max s - us_min s + 1))")
  case None
  then show ?thesis using log by (simp add: upload_step_def Let_def)
next
  case (Some chunk)
  let ?hdr = "no_headers(''Session-Id'' := ue_session E,
    ''Content-Range'' := content_range (us_min s) (us_max s) (ue_data_size E))"
  obtain res c' w' where post: "BofWebClient_Post (recording net) (ue_uri E) (ue_compress E) (ue_decompress E)
      (ue_keep_alive E) ?hdr (unat (us_max s - us_min s + 1)) chunk ''application/octet-stream''
      (us_client s) (us_world s) = (res, c', w')"
    by (metis prod_cases3)
  have "mpuHttpClient c' \<noteq> None" "fst w' = fst (us_world s) @
      [upload_request (ue_uri E) (ue_session E) (ue_data_size E) (us_min s, us_max s, chunk)]"
    using post_recording [OF _ _ post] log fread1_length [OF Some]
    by (simp_all add: upload_logged_def upload_request_def)
  then show ?thesis
    using log Some post
    by (simp add: upload_step_def upload_logged_def Let_def net split: option.splits prod.splits)
qed

text \<open>
  The whole run: whatever the server answers, the bodies sent are the first chunks of the plan; the
  run ends with true only when their ranges reach the end of the file.
\<close>

lemma upload_step_exit:
  assumes inv: "upload_inv E c k s" and len: "length (ue_file E) < 2 ^ 63"
    and step: "upload_step E s = Inl (out, s')"
  shows "\<exists>k'. (k' = k \<or> k' = Suc k \<and> k * c < length (ue_file E)) \<and>
    us_sent s' = upload_plan (ue_file E) c k' \<and>
    (out = Returned True \<longrightarrow> length (ue_file E) \<le> k' * c)"
proof (cases "fread1 (ue_can_read E) (ue_file E) (us_pos s) (unat (us_max s - us_min s + 1))")
  case None
  then show ?thesis using step upload_inv_facts [OF inv len]
    by (auto simp: upload_step_def Let_def split: if_splits)
next
  case (Some chunk)
  note p = upload_read_is_plan [OF inv len Some] and f = upload_inv_facts [OF inv len]
  let ?q = "min (us_pos s + c) (length (ue_file E))"
  have "us_pos s < ?q" using p Some by (auto simp: fread1_Some_iff)
  then have le: "ue_data_size E - 1 \<le> us_max s \<longleftrightarrow> length (ue_file E) \<le> ?q"
    unfolding f(2) ue_data_size_def using len by (intro last_byte_le) auto
  have "us_sent s' = us_sent s @ [(us_min s, us_max s, chunk)]"
    and "out = Returned True \<longrightarrow> ue_data_size E - 1 \<le> us_max s"
    using step Some by (auto simp: upload_step_def Let_def split: option.splits prod.splits if_splits)
  with p le have "us_sent s' = upload_plan (ue_file E) c (Suc k)"
    "out = Returned True \<longrightarrow> length (ue_file E) \<le> Suc k * c" by (auto simp: add.commute)
  with p show ?thesis by blast
qed

lemma upload_loop_rule:
  assumes "P s" "\<And>s s'. P s \<Longrightarrow> upload_step E s = Inr s' \<Longrightarrow> P s'"
    and "\<And>s out s'. P s \<Longrightarrow> upload_step E s = Inl (out, s') \<Longrightarrow> Q out s'"
    and "upload_loop E s = (out, s')"
  shows "Q out s'"
  using assms
proof (induction E s rule: upload_loop.induct)
  case (1 E s)
  show ?case
  proof (cases "upload_step E s")
    case (Inl r)
    then show ?thesis using 1 by (simp add: upload_loop.simps [of E s])
  next
    case (Inr t)
    then show ?thesis
      using 1 by (auto simp: upload_loop.simps [of E s])
  qed
qed

text \<open>The loop invariant, with the number of turns so far bounded by the size of the file.\<close>

definition upload_good ::
    "(http_request list \<times> 'w) upload_env \<Rightarrow> nat \<Rightarrow> nat \<Rightarrow> (http_request list \<times> 'w) upload_state \<Rightarrow> bool" where
  "upload_good E c k s \<longleftrightarrow> upload_inv E c k s \<and> upload_logged E s \<and>
     (k = 0 \<or> (k - 1) * c < length (ue_file E))"

lemma upload_good_step:
  assumes "ue_net E = recording net" "length (ue_file E) < 2 ^ 63"
    and "upload_good E c k s" "upload_step E s = Inr s'"
  shows "upload_good E c (Suc k) s'"
  using upload_step_inv [OF _ assms(2,4), of c k] upload_step_logged [OF assms(1), of s] assms(3,4)
  by (simp add: upload_good_def)

lemma upload_good_exit:
  assumes "ue_net E = recording net" "length (ue_file E) < 2 ^ 63"
    and "upload_good E c k s" "upload_step E s = Inl (out, s')"
  shows "\<exists>k. fst (us_world s') =
      map (upload_request (ue_uri E) (ue_session E) (ue_data_size E)) (upload_plan (ue_file E) c k) \<and>
    (k = 0 \<or> (k - 1) * c < length (ue_file E)) \<and>
    (out = Returned True \<longrightarrow> length (ue_file E) \<le> k * c)"
proof -
  have "upload_logged E s'"
    using upload_step_logged [OF assms(1), of s] assms(3,4) by (simp add: upload_good_def)
  moreover obtain k' where "k' = k \<or> k' = Suc k \<and> k * c < length (ue_file E)"
      "us_sent s' = upload_plan (ue_file E) c k'"
      "out = Returned True \<longrightarrow> length (ue_file E) \<le> k' * c"
    using upload_step_exit [OF _ assms(2,4), of c k] assms(3) by (auto simp: upload_good_def)
  ultimately show ?thesis
    using assms(3) by (intro exI [of _ k']) (auto simp: upload_good_def upload_logged_def)
qed

lemma upload_run:
  assumes net: "ue_net E = recording net" and len: "length (ue_file E) < 2 ^ 63"
    and c: "mpuHttpClient c \<noteq> None"
    and run: "upload_loop E (upload_start E chunk c ([], w)) = (out, s)"
  shows "\<exists>k. fst (us_world s) = map (upload_request (ue_uri E) (ue_session E) (ue_data_size E))
      (upload_plan (ue_file E) (unat (upload_chunk chunk)) k) \<and>
    (k = 0 \<or> (k - 1) * unat (upload_chunk chunk) < length (ue_file E)) \<and>
    (out = Returned True \<longrightarrow> length (ue_file E) \<le> k * unat (upload_chunk chunk))"
proof -
  let ?c = "unat (upload_chunk chunk)"
  have "upload_good E ?c 0 (upload_start E chunk c ([], w))"
    using upload_start_inv [OF len] c
    by (simp add: upload_good_def upload_logged_def upload_start_def upload_plan_def)
  then have start: "\<exists>k. upload_good E ?c k (upload_start E chunk c ([], w))" ..
  show ?thesis
    by (rule upload_loop_rule [where P = "\<lambda>s. \<exists>k. upload_good E ?c k s", OF start _ _ run])
      (blast intro: upload_good_step [OF net len], blast dest: upload_good_exit [OF net len])
qed

lemma upload_bodies:
  "concat (map rq_body (map (upload_request uri session n) (upload_plan file c k))) = take (k * c) file"
  unfolding upload_plan_bodies [symmetric] by (simp add: upload_request_def comp_def split_def)

lemma upload_unfold:
  assumes "mpuHttpClient c = Some h" "io_can_open io path" "fs path = Some file"
    and "BofWebClient_Upload net log_args rnd io fs path uri cr dr ka chunk c w = (out, c', w')"
  defines "E \<equiv> \<lparr>ue_net = net, ue_log_args = log_args, ue_uri = uri, ue_compress = cr,
    ue_decompress = dr, ue_keep_alive = ka, ue_can_read = io_can_read io, ue_file = file,
    ue_session = S_GenerateSessionId rnd 36\<rparr>"
  obtains s where "upload_loop E (upload_start E chunk c w) = (out, s)" "c' = us_client s" "w' = us_world s"
  using assms by (auto simp: BofWebClient_Upload_def Let_def split: prod.splits)

section \<open>Properties\<close>

text \<open>C20. An upload posts, in order, the first chunks of the file: whatever the server answers, the
  requests are those of the plan (POST to the destination, the session identifier, the range of the
  chunk and the bytes of that range, no body larger than the chunk buffer), at most one more than
  the full chunks of the file, and their bodies together are a prefix of the file.\<close>

theorem upload_requests_are_the_plan:
  assumes "mpuHttpClient c = Some h" "io_can_open io path" "fs path = Some file"
    and "length file < 2 ^ 63"
    and "BofWebClient_Upload (recording net) log_args rnd io fs path uri cr dr ka chunk c ([], w) =
           (out, c', log, w')"
  defines "n \<equiv> unat (upload_chunk chunk)"
  shows "\<exists>k. log = map (upload_request uri (S_GenerateSessionId rnd 36) (word_of_nat (length file)))
        (upload_plan file n k) \<and>
      (k - 1) * n \<le> length file \<and>
      concat (map rq_body log) = take (k * n) file \<and>
      (\<forall>rq \<in> set log. length (rq_body rq) \<le> n)"
proof -
  obtain s where s: "upload_loop \<lparr>ue_net = recording net, ue_log_args = log_args, ue_uri = uri,
      ue_compress = cr, ue_decompress = dr, ue_keep_alive = ka, ue_can_read = io_can_read io,
      ue_file = file, ue_session = S_GenerateSessionId rnd 36\<rparr>
      (upload_start \<lparr>ue_net = recording net, ue_log_args = log_args, ue_uri = uri,
      ue_compress = cr, ue_decompress = dr, ue_keep_alive = ka, ue_can_read = io_can_read io,
      ue_file = file, ue_session = S_GenerateSessionId rnd 36\<rparr> chunk c ([], w)) = (out, s)"
    "(log, w') = us_world s"
    by (rule upload_unfold [OF assms(1-3,5)])
  obtain k where k: "log = map (upload_request uri (S_GenerateSessionId rnd 36) (word_of_nat (length file)))
        (upload_plan file n k)" "k = 0 \<or> (k - 1) * n < length file"
    using upload_run [OF _ _ _ s(1)] assms(1,4) s(2) [symmetric]
    by (auto simp: ue_data_size_def n_def)
  have "\<forall>rq \<in> set log. length (rq_body rq) \<le> n"
    by (auto simp: k(1) upload_plan_def upload_request_def)
  moreover have "concat (map rq_body log) = take (k * n) file" unfolding k(1) by (rule upload_bodies)
  moreover have "(k - 1) * n \<le> length file" using k(2) by auto
  ultimately show ?thesis using k(1) by blast
qed

text \<open>The setting of the witnesses: a connected client, one file of five bytes, a server that echoes
  the range and answers 206 to the first two requests and 200 afterwards.\<close>

definition sample_file :: "byte list" where
  "sample_file = [10, 20, 30, 40, 50]"

definition sample_fs :: file_system where
  "sample_fs p = (if p = ''data.bin'' then Some sample_file else None)"

definition sample_io :: io_device where
  "sample_io = \<lparr>io_can_open = (\<lambda>_. True), io_can_read = (\<lambda>_ _. True), io_accepts = (\<lambda>_ new. length new)\<rparr>"

definition sample_client :: web_client where
  "sample_client = \<lparr>mWebClientParam_X = BOF_WEB_CLIENT_PARAM_Reset undefined,
     mpuHttpClient = Some (new_http_client ''localhost'' (Some 8090))\<rparr>"

definition echo_net :: "nat net" where
  "echo_net h rq n = (Some \<lparr>rs_status = (if n < 2 then 206 else 200), rs_headers = rq_headers rq, rs_body = []\<rparr>, Suc n)"

definition sample_upload :: "bool outcome \<times> web_client \<times> http_request list \<times> nat" where
  "sample_upload = BofWebClient_Upload (recording echo_net) True (\<lambda>_. 0) sample_io sample_fs ''data.bin'' ''/up''
     False False True 2 sample_client ([], 0)"

lemma sample_setting:
  "mpuHttpClient sample_client = Some (new_http_client ''localhost'' (Some 8090))"
  "io_can_open sample_io ''data.bin''" "sample_fs ''data.bin'' = Some sample_file"
  "length sample_file < 2 ^ 63"
  by (simp_all add: sample_client_def sample_io_def sample_fs_def sample_file_def)

text \<open>C11. When an upload returns true, the server was sent the whole file, every byte once and in
  order.\<close>

theorem upload_true_sent_everything:
  assumes "mpuHttpClient c = Some h" "io_can_open io path" "fs path = Some file"
    and "length file < 2 ^ 63"
    and "BofWebClient_Upload (recording net) log_args rnd io fs path uri cr dr ka chunk c ([], w) =
           (Returned True, c', log, w')"
  shows "concat (map rq_body log) = file"
proof -
  obtain s where s: "upload_loop \<lparr>ue_net = recording net, ue_log_args = log_args, ue_uri = uri,
      ue_compress = cr, ue_decompress = dr, ue_keep_alive = ka, ue_can_read = io_can_read io,
      ue_file = file, ue_session = S_GenerateSessionId rnd 36\<rparr>
      (upload_start \<lparr>ue_net = recording net, ue_log_args = log_args, ue_uri = uri,
      ue_compress = cr, ue_decompress = dr, ue_keep_alive = ka, ue_can_read = io_can_read io,
      ue_file = file, ue_session = S_GenerateSessionId rnd 36\<rparr> chunk c ([], w)) = (Returned True, s)"
    "(log, w') = us_world s"
    by (rule upload_unfold [OF assms(1-3,5)])
  then obtain k where "log = map (upload_request uri (S_GenerateSessionId rnd 36) (word_of_nat (length file)))
        (upload_plan file (unat (upload_chunk chunk)) k)"
      "length file \<le> k * unat (upload_chunk chunk)"
    using upload_run [OF _ _ _ s(1)] assms(1,4) s(2) [symmetric]
    by (auto simp: ue_data_size_def)
  then show ?thesis by (simp add: upload_bodies del: map_map)
qed

text \<open>An empty file is never uploaded: nothing is sent and the client is left as it was; the error
  message of the failed read looks into the result of a request that was never made, so a logger
  that evaluates its arguments reads through a null pointer.\<close>

theorem upload_of_empty_file:
  assumes "mpuHttpClient c = Some h" "io_can_open io path" "fs path = Some []"
  shows "BofWebClient_Upload net log_args rnd io fs path uri cr dr ka chunk c w =
    (if log_args then NullDeref else Returned False, c, w)"
  using assms
  by (simp add: BofWebClient_Upload_def Let_def upload_loop.simps upload_start_def upload_step_def
      ue_data_size_def fread1_def)

lemma upload_of_empty_file_witness:
  "BofWebClient_Upload echo_net True (\<lambda>_. 0) sample_io (\<lambda>_. Some []) ''empty.bin'' ''/up'' False False True 2
     sample_client 0 = (NullDeref, sample_client, 0)"
  by (subst upload_of_empty_file [OF sample_setting(1)]) (simp_all add: sample_io_def)

lemma sample_chunk: "unat (upload_chunk 2) = 2"
  by (simp add: upload_chunk_def)

lemma sample_upload_true: "fst sample_upload = Returned True"
  by (simp add: sample_upload_def BofWebClient_Upload_def sample_setting Let_def upload_loop.simps
      upload_start_def upload_step_def upload_chunk_def ue_data_size_def verb_defs exchange_client
      recording_def echo_net_def sample_file_def fread1_def sample_client_def sample_io_def)

lemma sample_upload_eq:
  "BofWebClient_Upload (recording echo_net) True (\<lambda>_. 0) sample_io sample_fs ''data.bin'' ''/up''
     False False True 2 sample_client ([], 0) =
   (Returned True, fst (snd sample_upload), fst (snd (snd sample_upload)), snd (snd (snd sample_upload)))"
  using sample_upload_true by (simp add: sample_upload_def prod_eq_iff)

lemma upload_requests_are_the_plan_witness:
  "\<exists>k. fst (snd (snd sample_upload)) =
       map (upload_request ''/up'' (S_GenerateSessionId (\<lambda>_. 0) 36) (word_of_nat (length sample_file)))
         (upload_plan sample_file 2 k) \<and>
     (k - 1) * 2 \<le> length sample_file \<and>
     concat (map rq_body (fst (snd (snd sample_upload)))) = take (k * 2) sample_file \<and>
     (\<forall>rq \<in> set (fst (snd (snd sample_upload))). length (rq_body rq) \<le> 2)"
  using upload_requests_are_the_plan [where fs = sample_fs and path = "''data.bin''" and io = sample_io and
      c = sample_client, OF sample_setting sample_upload_eq]
  by (simp only: sample_chunk)

lemma upload_true_sent_everything_witness:
  "concat (map rq_body (fst (snd (snd sample_upload)))) = sample_file"
  by (rule upload_true_sent_everything [where fs = sample_fs and path = "''data.bin''" and io = sample_io and
      c = sample_client, OF sample_setting sample_upload_eq])

end
