(* ===== verification/Download.thy ===== *)
theory Download
  imports Upload
begin

text \<open>
  \<^verbatim>\<open>BofWebClient::Download\<close> (\<^verbatim>\<open>src/src/bofwebclient.cpp\<close>): a file is requested range by range and the
  bodies are appended to a local file.  The loop has no bound of its own, so it is a partial
  function whose value is \<open>None\<close> when it does not return.  The lemmas give, for any server, what the
  stored file holds and the ranges that are asked for, one turn against a peer that sends what it was
  asked for, and a peer against which the loop never ends.
\<close>

section \<open>The loop\<close>

record 'w download_env =
  de_net :: "'w net"
  de_uri :: string
  de_compress :: bool
  de_decompress :: bool
  de_keep_alive :: bool
  de_accepts :: "byte list \<Rightarrow> byte list \<Rightarrow> nat"
  de_session :: string

text \<open>
  The variables of the loop: the client and the outside world, the range to ask for, the size of
  the remote file (zero: not known yet) and what the local file holds.  \<open>NewRangeMin\<close>, \<open>NewRangeMax\<close>
  and \<open>NewDataSize\<close> are written before they are read in every turn, except by log messages.
\<close>

record 'w download_state =
  ds_client :: web_client
  ds_world :: 'w
  ds_min :: u64
  ds_max :: u64
  ds_size :: u64
  ds_file :: "byte list"

text \<open>The control data of one response: what the code keeps of the ranges before it compares them.\<close>

definition learn_size :: "u64 \<Rightarrow> u64 \<Rightarrow> u64 \<Rightarrow> u64 \<Rightarrow> u64 \<times> u64" where
  "learn_size RangeMax DataSize NewRangeMax NewDataSize =
     (if DataSize = 0 then
        (let DataSize' = NewDataSize
         in (if NewRangeMax + 1 \<ge> DataSize' then DataSize' - 1 else RangeMax, DataSize'))
      else (RangeMax, DataSize))"

text \<open>The range asked for after the chunk from \<open>RangeMin\<close> to \<open>RangeMax\<close> was stored.\<close>

definition next_range :: "u64 \<Rightarrow> u32 \<Rightarrow> u64 \<Rightarrow> u64 \<Rightarrow> u64 \<times> u64" where
  "next_range RangeMax ChunkSize NewRangeMax DataSize =
     (let RangeMin' = RangeMax + 1;
          RangeMax' = RangeMin' + ucast ChunkSize - 1
      in if RangeMax' \<ge> DataSize - 1 then (NewRangeMax, DataSize - 1) else (RangeMin', RangeMax'))"

text \<open>One turn of the \<^verbatim>\<open>while(1)\<close>: \<open>Inl\<close> is a \<^verbatim>\<open>break\<close> with the value of \<^verbatim>\<open>Rts_B\<close>.\<close>

definition download_step ::
    "'w download_env \<Rightarrow> 'w download_state \<Rightarrow> (bool \<times> 'w download_state) + 'w download_state" where
  "download_step E s =
     (let hdr = no_headers(''Session-Id'' := de_session E,
             ''Content-Range'' := snprintf_buf 0x100 (content_range (ds_min s) (ds_max s) (ds_size s)));
          (Res, c', w') = BofWebClient_Get (de_net E) (de_uri E) (de_compress E) (de_decompress E)
             (de_keep_alive E) hdr (ds_client s) (ds_world s);
          s1 = s\<lparr>ds_client := c', ds_world := w'\<rparr>
      in case Res of
           None \<Rightarrow> Inl (False, s1)
         | Some r \<Rightarrow>
             if rs_status r \<noteq> OK_200 \<and> rs_status r \<noteq> PartialContent_206 then Inl (False, s1)
             else if rs_body r = [] then Inl (False, s1)
             else
               (case S_ParseContentRangeRequest (rs_headers r ''Content-Range'') 0 0 0 of
                  (ok, NewRangeMin, NewRangeMax, NewDataSize) \<Rightarrow>
                    if ok \<and> NewDataSize \<noteq> 0 then
                      (let (RangeMax, DataSize) = learn_size (ds_max s) (ds_size s) NewRangeMax NewDataSize;
                           s2 = s1\<lparr>ds_max := RangeMax, ds_size := DataSize\<rparr>
                       in if ds_min s = NewRangeMin \<and> RangeMax = NewRangeMax \<and> DataSize = NewDataSize then
                            (let ChunkSize = (ucast (RangeMax - ds_min s + 1) :: u32)
                             in if unat ChunkSize \<noteq> length (rs_body r) then Inl (False, s2)
                                else
                                  (let (written, f) = fwrite1 (de_accepts E) (ds_file s) (rs_body r);
                                       (mn, mx) = next_range RangeMax ChunkSize NewRangeMax DataSize;
                                       s3 = s2\<lparr>ds_file := f, ds_min := mn, ds_max := mx\<rparr>
                                   in if \<not> written then Inl (False, s2\<lparr>ds_file := f\<rparr>)
                                      else if rs_status r = OK_200 then Inl (mx \<ge> DataSize - 1, s3)
                                      else Inr s3))
                          else Inl (False, s2))
                    else Inl (False, s1)))"

partial_function (option) download_loop ::
    "'w download_env \<Rightarrow> 'w download_state \<Rightarrow> (bool \<times> 'w download_state) option" where
  "download_loop E s = (case download_step E s of Inl r \<Rightarrow> Some r | Inr s' \<Rightarrow> download_loop E s')"

definition download_start :: "u32 \<Rightarrow> web_client \<Rightarrow> 'w \<Rightarrow> 'w download_state" where
  "download_start chunk c w =
     \<lparr>ds_client = c, ds_world = w, ds_min = 0, ds_max = ucast (chunk - 1), ds_size = 0, ds_file = []\<rparr>"

definition BofWebClient_Download ::
    "'w net \<Rightarrow> (nat \<Rightarrow> nat) \<Rightarrow> io_device \<Rightarrow> file_system \<Rightarrow> string \<Rightarrow> string \<Rightarrow> bool \<Rightarrow> bool \<Rightarrow> bool \<Rightarrow>
     u32 \<Rightarrow> web_client \<Rightarrow> 'w \<Rightarrow> (bool \<times> file_system \<times> web_client \<times> 'w) option" where
  "BofWebClient_Download net rnd io fs uri path cr dr ka chunk c w =
     (case mpuHttpClient c of
        None \<Rightarrow> Some (False, fs, c, w)
      | Some h \<Rightarrow>
          if io_can_open io path then
            (let E = \<lparr>de_net = net, de_uri = uri, de_compress = cr, de_decompress = dr,
                      de_keep_alive = ka, de_accepts = io_accepts io,
                      de_session = S_GenerateSessionId rnd 36\<rparr>
             in case download_loop E (download_start chunk c w) of
                  None \<Rightarrow> None
                | Some (Rts, s) \<Rightarrow> Some (Rts, fs(path \<mapsto> ds_file s), ds_client s, ds_world s))
          else Some (False, fs, c, w))"

text \<open>A fact on the final state of every run that returns.\<close>

lemma download_loop_rule:
  assumes "download_loop E s = Some (out, s')" "P s"
    and "\<And>s s'. P s \<Longrightarrow> download_step E s = Inr s' \<Longrightarrow> P s'"
    and "\<And>s out s'. P s \<Longrightarrow> download_step E s = Inl (out, s') \<Longrightarrow> Q out s'"
  shows "Q out s'"
proof -
  have body: "E' = E \<longrightarrow> P s \<longrightarrow> Q (fst r) (snd r)"
    if IH: "\<And>E' s r. loop E' s = Some r \<Longrightarrow> E' = E \<longrightarrow> P s \<longrightarrow> Q (fst r) (snd r)"
      and run: "(case download_step E' s of Inl r \<Rightarrow> Some r | Inr s' \<Rightarrow> loop E' s') = Some r" for loop E' s r
  proof (intro impI)
    assume E': "E' = E" and P: "P s"
    show "Q (fst r) (snd r)"
    proof (cases "download_step E s")
      case (Inl r')
      with run E' P assms(4) [of s "fst r'" "snd r'"] show ?thesis by simp
    next
      case (Inr t)
      with IH [of E t r] run E' P assms(3) [of s t] show ?thesis by simp
    qed
  qed
  have "E = E \<longrightarrow> P s \<longrightarrow> Q (fst (out, s')) (snd (out, s'))"
    by (rule download_loop.raw_induct [OF _ assms(1)]) (rule body)
  with assms(2) show ?thesis by simp
qed

section \<open>What is stored\<close>

text \<open>An exchange that also keeps the list of the results it returned.\<close>

definition receiving :: "'w net \<Rightarrow> (http_response option list \<times> 'w) net" where
  "receiving net h rq lw = (case net h rq (snd lw) of (res, w') \<Rightarrow> (res, (fst lw @ [res], w')))"

lemma get_receiving:
  assumes "mpuHttpClient c \<noteq> None"
    and "BofWebClient_Get (receiving net) uri cr dr ka hdr c w = (res, c', w')"
  shows "mpuHttpClient c' \<noteq> None \<and> fst w' = fst w @ [res]"
  using assms by (auto simp: verb_defs exchange_client receiving_def split: prod.splits)

text \<open>A turn that goes on, or that ends with true, has appended the body of an accepted response.\<close>

lemma download_step_stored:
  assumes step: "download_step E s = Inr s' \<or> download_step E s = Inl (True, s')"
  shows "\<exists>hdr r w'. BofWebClient_Get (de_net E) (de_uri E) (de_compress E) (de_decompress E)
      (de_keep_alive E) hdr (ds_client s) (ds_world s) = (Some r, ds_client s', w') \<and> w' = ds_world s' \<and>
    ds_file s' = ds_file s @ rs_body r \<and>
    rs_status r = (if download_step E s = Inr s' then PartialContent_206 else OK_200)"
proof -
  let ?hdr = "no_headers(''Session-Id'' := de_session E,
    ''Content-Range'' := snprintf_buf 0x100 (content_range (ds_min s) (ds_max s) (ds_size s)))"
  obtain res c' w' where get: "BofWebClient_Get (de_net E) (de_uri E) (de_compress E) (de_decompress E)
      (de_keep_alive E) ?hdr (ds_client s) (ds_world s) = (res, c', w')"
    by (metis prod_cases3)
  obtain r where res: "res = Some r"
    using step get by (cases res) (auto simp: download_step_def Let_def)
  have s': "ds_client s' = c'" "ds_world s' = w'"
    using step get res
    by (auto simp: download_step_def Let_def split: prod.splits if_splits)
  have "fwrite1 (de_accepts E) (ds_file s) (rs_body r) = (True, ds_file s')"
    "rs_status r = (if download_step E s = Inr s' then PartialContent_206 else OK_200)"
    using step get res
    by (auto simp: download_step_def Let_def split: prod.splits if_splits bool.splits)
  with get res s' show ?thesis by (intro exI [of _ ?hdr]) (simp add: fwrite1_True_iff)
qed

definition download_good :: "(http_response option list \<times> 'w) download_state \<Rightarrow> bool" where
  "download_good s \<longleftrightarrow> mpuHttpClient (ds_client s) \<noteq> None \<and>
     (\<exists>rs. fst (ds_world s) = map Some rs \<and> ds_file s = concat (map rs_body rs) \<and>
        list_all (\<lambda>r. rs_status r = PartialContent_206) rs)"

lemma download_good_step:
  assumes net: "de_net E = receiving net" and "download_good s"
    and step: "download_step E s = Inr s'"
  shows "download_good s'"
proof -
  obtain rs where rs: "fst (ds_world s) = map Some rs" "ds_file s = concat (map rs_body rs)"
      "list_all (\<lambda>r. rs_status r = PartialContent_206) rs" and c: "mpuHttpClient (ds_client s) \<noteq> None"
    using assms(2) by (auto simp: download_good_def)
  obtain hdr r where r: "BofWebClient_Get (receiving net) (de_uri E) (de_compress E) (de_decompress E)
      (de_keep_alive E) hdr (ds_client s) (ds_world s) = (Some r, ds_client s', ds_world s')"
      "ds_file s' = ds_file s @ rs_body r" "rs_status r = PartialContent_206"
    using download_step_stored [OF disjI1 [OF step]] net step by auto
  from get_receiving [OF c r(1)] rs r show ?thesis
    unfolding download_good_def by (intro conjI exI [of _ "rs @ [r]"]) auto
qed

lemma download_good_exit:
  assumes net: "de_net E = receiving net" and "download_good s"
    and step: "download_step E s = Inl (out, s')"
  shows "out \<longrightarrow> (\<exists>rs r. fst (ds_world s') = map Some (rs @ [r]) \<and>
    ds_file s' = concat (map rs_body (rs @ [r])) \<and>
    list_all (\<lambda>r. rs_status r = PartialContent_206) rs \<and> rs_status r = OK_200)"
proof
  assume out
  obtain rs where rs: "fst (ds_world s) = map Some rs" "ds_file s = concat (map rs_body rs)"
      "list_all (\<lambda>r. rs_status r = PartialContent_206) rs" and c: "mpuHttpClient (ds_client s) \<noteq> None"
    using assms(2) by (auto simp: download_good_def)
  obtain hdr r where r: "BofWebClient_Get (receiving net) (de_uri E) (de_compress E) (de_decompress E)
      (de_keep_alive E) hdr (ds_client s) (ds_world s) = (Some r, ds_client s', ds_world s')"
      "ds_file s' = ds_file s @ rs_body r" "rs_status r = OK_200"
    using download_step_stored [of E s s'] net step \<open>out\<close> by auto
  from get_receiving [OF c r(1)] rs r
  show "\<exists>rs r. fst (ds_world s') = map Some (rs @ [r]) \<and>
      ds_file s' = concat (map rs_body (rs @ [r])) \<and>
      list_all (\<lambda>r. rs_status r = PartialContent_206) rs \<and> rs_status r = OK_200"
    by (intro exI [of _ rs] exI [of _ r]) auto
qed

section \<open>The arithmetic of one turn\<close>

lemma last_byte_eq:
  assumes "0 < a" "0 < b" "a < 2 ^ 64" "b < 2 ^ 64"
  shows "word_of_nat a - 1 = (word_of_nat b - 1 :: u64) \<longleftrightarrow> a = b"
proof
  assume "word_of_nat a - 1 = (word_of_nat b - 1 :: u64)"
  then have "unat (word_of_nat a :: u64) = unat (word_of_nat b :: u64)" by simp
  then show "a = b" using assms by (simp add: unat_of_nat_lt)
qed simp

text \<open>
  The bookkeeping of one turn, for the range from \<open>p\<close> to before \<open>r\<close>, cut to \<open>q\<close>
  at the end of the file.
\<close>

lemma learn_size_range:
  assumes "p < q" "q = min r len" "len < 2 ^ 63"
    and "ds = word_of_nat len \<and> r \<le> len \<or> ds = 0"
  shows "learn_size (word_of_nat r - 1) ds (word_of_nat q - 1) (word_of_nat len) = (word_of_nat q - 1, word_of_nat len)"
proof -
  have le: "word_of_nat len \<le> (word_of_nat q :: u64) \<longleftrightarrow> len \<le> q"
    using assms(1-3) by (simp add: word_le_nat_alt unat_of_nat_lt)
  have "word_of_nat len \<noteq> (0 :: u64)"
  proof
    assume "word_of_nat len = (0 :: u64)"
    then have "unat (word_of_nat len :: u64) = 0" by simp
    then show False using assms(1-3) by (simp add: unat_of_nat_lt)
  qed
  with assms le show ?thesis by (auto simp: learn_size_def Let_def min_def split: if_splits)
qed

lemma next_range_after:
  assumes "p < q" "q \<le> len" "len < 2 ^ 63" "q - p < 2 ^ 32"
  shows "next_range (word_of_nat q - 1) (word_of_nat (q - p)) (word_of_nat q - 1) (word_of_nat len) =
    (if len \<le> q + (q - p) then (word_of_nat q - 1, word_of_nat len - 1)
     else (word_of_nat q, word_of_nat (q + (q - p)) - 1))"
proof -
  have c: "(ucast (word_of_nat (q - p) :: u32) :: u64) = word_of_nat (q - p)"
  proof (rule word_unat_eq_iff [THEN iffD2])
    have "unat (word_of_nat (q - p) :: u32) = q - p" using assms(4) by (intro unat_of_nat_lt) simp
    moreover have "unat (word_of_nat (q - p) :: u64) = q - p" using assms(4) by (intro unat_of_nat_lt) simp
    ultimately show "unat (ucast (word_of_nat (q - p) :: u32) :: u64) = unat (word_of_nat (q - p) :: u64)" by simp
  qed
  have m: "word_of_nat q - 1 + 1 + (word_of_nat (q - p) :: u64) - 1 = word_of_nat (q + (q - p)) - 1" by simp
  have "word_of_nat len - 1 \<le> (word_of_nat (q + (q - p)) - 1 :: u64) \<longleftrightarrow> len \<le> q + (q - p)"
    by (rule last_byte_le) (use assms in auto)
  then show ?thesis unfolding next_range_def Let_def c m by simp
qed

lemma unat_u32_of_nat_mod: "unat (word_of_nat m :: u32) = m mod 2 ^ 32"
  by (simp add: unsigned_of_nat take_bit_eq_mod)

lemma ucast_u64_u32: "(ucast (word_of_nat m :: u64) :: u32) = word_of_nat m"
  by (simp add: unsigned_of_nat word_of_nat_eq_iff)

lemma ucast_range_size:
  assumes "p \<le> q" "q < 2 ^ 64" "q - p < 2 ^ 32"
  shows "(ucast (word_of_nat q - 1 - word_of_nat p + 1 :: u64) :: u32) = word_of_nat (q - p)"
proof (rule word_unat_eq_iff [THEN iffD2])
  have "unat (word_of_nat q - 1 - word_of_nat p + 1 :: u64) = q - p"
    using assms by (intro unat_range_size64)
  moreover have "unat (word_of_nat (q - p) :: u32) = q - p" using assms(3) by (intro unat_of_nat_lt) simp
  ultimately show "unat (ucast (word_of_nat q - 1 - word_of_nat p + 1 :: u64) :: u32) = unat (word_of_nat (q - p) :: u32)"
    using assms(3) by (simp add: unsigned_ucast_eq take_bit_nat_eq_self)
qed

definition asks :: "'w download_state \<Rightarrow> nat \<Rightarrow> nat \<Rightarrow> bool" where
  "asks s p r \<longleftrightarrow> ds_min s = word_of_nat p \<and> ds_max s = word_of_nat r - 1 \<and> mpuHttpClient (ds_client s) \<noteq> None"

lemma download_step_accepted:
  assumes "BofWebClient_Get (de_net E) (de_uri E) (de_compress E) (de_decompress E) (de_keep_alive E)
      (no_headers(''Session-Id'' := de_session E,
        ''Content-Range'' := content_range (ds_min s) (ds_max s) (ds_size s))) (ds_client s) (ds_world s) =
      (Some r, c', w')"
    and "rs_status r = OK_200 \<or> rs_status r = PartialContent_206" "rs_body r \<noteq> []" "N \<noteq> 0"
    and "rs_headers r ''Content-Range'' = content_range (ds_min s) M N"
    and "learn_size (ds_max s) (ds_size s) M N = (M, N)"
    and "C = ucast (M - ds_min s + 1)" "unat C = length (rs_body r)"
    and "fwrite1 (de_accepts E) (ds_file s) (rs_body r) = (True, f)" "next_range M C M N = (mn, mx)"
  defines "s' \<equiv> s\<lparr>ds_client := c', ds_world := w', ds_size := N, ds_file := f, ds_min := mn, ds_max := mx\<rparr>"
  shows "download_step E s = (if rs_status r = OK_200 then Inl (mx \<ge> N - 1, s') else Inr s')"
proof -
  note C = assms(7)
  show ?thesis
    using assms(1-6,8-10) unfolding C s'_def by (auto simp: download_step_def Let_def)
qed

text \<open>A turn whose response carries the bytes from \<open>p\<close> to before \<open>q\<close>, whoever sent it.\<close>

lemma accepted_turn:
  assumes get: "BofWebClient_Get (de_net E) (de_uri E) (de_compress E) (de_decompress E) (de_keep_alive E)
      (no_headers(''Session-Id'' := de_session E,
        ''Content-Range'' := content_range (ds_min s) (ds_max s) (ds_size s))) (ds_client s) (ds_world s) =
      (Some rp, c', w')" and c': "mpuHttpClient c' \<noteq> None"
    and rp: "rs_status rp = (if q = length bytes then OK_200 else PartialContent_206)"
      "rs_headers rp ''Content-Range'' = content_range (word_of_nat p) (word_of_nat q - 1) (word_of_nat (length bytes))"
      "rs_body rp = take (q - p) (drop p bytes)"
    and acc: "\<And>old new. length new \<le> de_accepts E old new"
    and asks: "asks s p r" and q: "p < q" "q = min r (length bytes)" "q - p < 2 ^ 32"
    and len: "length bytes < 2 ^ 63" "r < 2 ^ 64"
    and known: "ds_size s = word_of_nat (length bytes) \<and> r \<le> length bytes \<or> ds_size s = 0"
  shows "\<exists>s'. download_step E s = (if q = length bytes then Inl (True, s') else Inr s') \<and>
    ds_file s' = ds_file s @ take (q - p) (drop p bytes) \<and> ds_size s' = word_of_nat (length bytes) \<and>
    ds_world s' = w' \<and>
    (if length bytes \<le> q + (q - p) then asks s' (q - 1) (length bytes) else asks s' q (q + (q - p)))"
proof -
  have body: "length (rs_body rp) = q - p" "rs_body rp \<noteq> []" using q rp(3) by auto
  have w: "fwrite1 (de_accepts E) (ds_file s) (rs_body rp) = (True, ds_file s @ rs_body rp)"
    unfolding fwrite1_True_iff using body(2) by (intro conjI acc) simp_all
  have sz: "word_of_nat (length bytes) \<noteq> (0 :: u64)"
  proof
    assume "word_of_nat (length bytes) = (0 :: u64)"
    then have "unat (word_of_nat (length bytes) :: u64) = 0" by simp
    then show False using q len by (simp add: unat_of_nat_lt)
  qed
  have cs: "unat (word_of_nat (q - p) :: u32) = q - p" using q(3) by (intro unat_of_nat_lt) simp
  have ql: "q \<le> length bytes" "q < 2 ^ 64" "p \<le> q" using q len by auto
  define mn mx where "mn = (if length bytes \<le> q + (q - p) then word_of_nat q - 1 else word_of_nat q :: u64)"
    and "mx = (if length bytes \<le> q + (q - p) then word_of_nat (length bytes) - 1
          else word_of_nat (q + (q - p)) - 1 :: u64)"
  have nxt: "next_range (word_of_nat q - 1) (word_of_nat (q - p)) (word_of_nat q - 1) (word_of_nat (length bytes)) = (mn, mx)"
    unfolding next_range_after [OF q(1) ql(1) len(1) q(3)] mn_def mx_def by simp
  have uc: "(word_of_nat (q - p) :: u32) = ucast (word_of_nat q - 1 - ds_min s + 1)"
    using ucast_range_size [OF ql(3,2) q(3)] asks unfolding asks_def by metis
  have learn: "learn_size (ds_max s) (ds_size s) (word_of_nat q - 1) (word_of_nat (length bytes)) =
      (word_of_nat q - 1, word_of_nat (length bytes))"
    using learn_size_range [OF q(1,2) len(1) known] asks unfolding asks_def by metis
  let ?s' = "s\<lparr>ds_client := c', ds_world := w', ds_size := word_of_nat (length bytes),
    ds_file := ds_file s @ rs_body rp, ds_min := mn, ds_max := mx\<rparr>"
  have "download_step E s = (if rs_status rp = OK_200 then Inl (mx \<ge> word_of_nat (length bytes) - 1, ?s') else Inr ?s')"
    by (rule download_step_accepted [OF get _ _ sz _ learn uc _ _ nxt])
      (use asks body cs w rp in \<open>simp_all add: asks_def\<close>)
  then have turn: "download_step E s = (if q = length bytes then Inl (True, ?s') else Inr ?s')"
    unfolding rp(1) by (simp add: mx_def)
  have pre: "word_of_nat (q - Suc 0) = (word_of_nat q - 1 :: u64)"
    using q(1) by (simp add: of_nat_diff)
  show ?thesis
    by (intro exI [of _ ?s'] conjI turn)
      (use c' rp(3) in \<open>simp_all add: asks_def pre mn_def mx_def\<close>)
qed

lemma download_loop_Inl: "download_step E s = Inl r \<Longrightarrow> download_loop E s = Some r"
  by (simp add: download_loop.simps)

lemma download_loop_Inr: "download_step E s = Inr s' \<Longrightarrow> download_loop E s = download_loop E s'"
  by (simp add: download_loop.simps [of E s])

section \<open>The ranges asked for\<close>

definition download_request :: "string \<Rightarrow> string \<Rightarrow> u64 \<times> u64 \<times> u64 \<Rightarrow> http_request" where
  "download_request uri session rg =
     (case rg of (lo, hi, size') \<Rightarrow>
        \<lparr>rq_method = HTTP_GET, rq_uri = uri,
         rq_headers = no_headers(''Session-Id'' := session, ''Content-Range'' := content_range lo hi size'),
         rq_body = [], rq_body_type = []\<rparr>)"

text \<open>
  The \<open>j\<close>-th range of a download of \<open>n\<close> bytes in chunks of \<open>c\<close>.  The first is that of the call, whose size is
  not known yet; then the chunks while there is another one behind them; the last chunk is asked for from
  the byte before it on; and then the last byte again and again.
\<close>

definition asked_range :: "u32 \<Rightarrow> nat \<Rightarrow> nat \<Rightarrow> nat \<Rightarrow> u64 \<times> u64 \<times> u64" where
  "asked_range chunk c n j =
     (if j = 0 then (0, ucast (chunk - 1), 0)
      else if Suc j * c < n then (word_of_nat (j * c), word_of_nat (Suc j * c) - 1, word_of_nat n)
      else (word_of_nat (if j * c < n then j * c else n) - 1, word_of_nat n - 1, word_of_nat n))"

text \<open>The bytes a good answer to it carries; the client counts them in 32 bits.\<close>

definition range_bytes :: "nat \<Rightarrow> nat \<Rightarrow> nat \<Rightarrow> nat" where
  "range_bytes c n j = (if j = 0 then c mod 2 ^ 32 else if Suc j * c < n then c else if j * c < n then n - j * c + 1 else 1)"

text \<open>The size of a response is that of a file.\<close>

definition reports_file_sizes :: "'w net \<Rightarrow> bool" where
  "reports_file_sizes net \<longleftrightarrow> (\<forall>h rq w r w' mn mx n. net h rq w = (Some r, w') \<longrightarrow>
     S_ParseContentRangeRequest (rs_headers r ''Content-Range'') 0 0 0 = (True, mn, mx, n) \<longrightarrow> unat n < 2 ^ 63)"

lemma next_range_end:
  assumes "0 < n" "n < 2 ^ 63"
  shows "next_range (word_of_nat n - 1) C (word_of_nat n - 1) (word_of_nat n) = (word_of_nat n - 1, word_of_nat n - 1)"
proof -
  have m: "word_of_nat n - 1 + 1 + (ucast C :: u64) - 1 = word_of_nat (n + unat C) - 1"
    by (simp flip: unat_ucast_u32_u64)
  have "word_of_nat n - 1 \<le> (word_of_nat (n + unat C) - 1 :: u64)"
    using last_byte_le [where 'a = 64, of n "n + unat C"] assms unat_u32_lt [of C] by simp
  then show ?thesis unfolding next_range_def Let_def m by simp
qed

text \<open>The control data of a turn that goes on, or that ends with true.\<close>

lemma download_step_range:
  assumes step: "download_step E s = Inr s' \<or> download_step E s = Inl (True, s')"
    and E: "de_net E = recording net" "reports_file_sizes net" and c: "mpuHttpClient (ds_client s) \<noteq> None"
  shows "\<exists>M N C. learn_size (ds_max s) (ds_size s) M N = (M, N) \<and> N \<noteq> 0 \<and> unat N < 2 ^ 63 \<and>
    C = ucast (M - ds_min s + 1) \<and> C \<noteq> 0 \<and> length (ds_file s') = length (ds_file s) + unat C \<and>
    next_range M C M N = (ds_min s', ds_max s') \<and> ds_size s' = N \<and> (download_step E s = Inl (True, s') \<longrightarrow> ds_max s' \<ge> N - 1)"
proof -
  let ?hdr = "no_headers(''Session-Id'' := de_session E,
    ''Content-Range'' := snprintf_buf 0x100 (content_range (ds_min s) (ds_max s) (ds_size s)))"
  obtain res c' w' where get: "BofWebClient_Get (de_net E) (de_uri E) (de_compress E) (de_decompress E)
      (de_keep_alive E) ?hdr (ds_client s) (ds_world s) = (res, c', w')"
    by (metis prod_cases3)
  obtain r where res: "res = Some r"
    using step get by (cases res) (auto simp: download_step_def Let_def)
  obtain h0 where h0: "mpuHttpClient (ds_client s) = Some h0" using c by auto
  then obtain h rq v v' where net: "net h rq v = (Some r, v')"
    using get res E(1) by (auto simp: verb_defs exchange_client recording_def split: prod.splits)
  obtain ok mn M N where p: "S_ParseContentRangeRequest (rs_headers r ''Content-Range'') 0 0 0 = (ok, mn, M, N)"
    by (metis prod_cases4)
  have ok: "ok" "N \<noteq> 0" "rs_body r \<noteq> []"
    using step get res p by (auto simp: download_step_def Let_def split: prod.splits if_splits)
  have "S_ParseContentRangeRequest (rs_headers r ''Content-Range'') 0 0 0 = (True, mn, M, N)" using p ok(1) by simp
  then have size: "unat N < 2 ^ 63" using net E(2) unfolding reports_file_sizes_def by metis
  have learn: "learn_size (ds_max s) (ds_size s) M N = (M, N)"
    using step get res p ok by (auto simp: download_step_def Let_def split: prod.splits if_splits)
  let ?C = "ucast (M - ds_min s + 1) :: u32"
  have C: "unat ?C = length (rs_body r)"
    using step get res p ok learn by (auto simp: download_step_def Let_def split: prod.splits if_splits)
  have acc: "fst (fwrite1 (de_accepts E) (ds_file s) (rs_body r))"
    using step get res p ok learn C by (auto simp: download_step_def Let_def split: prod.splits if_splits bool.splits)
  have same: "ds_min s = mn" "rs_status r = OK_200 \<or> rs_status r = PartialContent_206"
    using step get res p ok learn by (auto simp: download_step_def Let_def split: prod.splits if_splits)
  obtain lo hi where nxt: "next_range M ?C M N = (lo, hi)" by fastforce
  obtain f where f: "fwrite1 (de_accepts E) (ds_file s) (rs_body r) = (True, f)" using acc by (metis prod.collapse)
  let ?s3 = "s\<lparr>ds_client := c', ds_world := w', ds_max := M, ds_size := N, ds_file := f, ds_min := lo, ds_max := hi\<rparr>"
  have turn: "download_step E s = (if rs_status r = OK_200 then Inl (hi \<ge> N - 1, ?s3) else Inr ?s3)"
    using get res p ok learn C same nxt f unfolding same(1) [symmetric]
    by (auto simp: download_step_def Let_def)
  have "s' = ?s3 \<and> (download_step E s = Inl (True, s') \<longrightarrow> hi \<ge> N - 1)"
    using step turn by (cases "rs_status r = OK_200") simp_all
  then have s': "(ds_min s', ds_max s') = next_range M ?C M N" "ds_size s' = N" "ds_file s' = f"
      "download_step E s = Inl (True, s') \<longrightarrow> ds_max s' \<ge> N - 1"
    unfolding nxt by simp_all
  have "ds_file s' = ds_file s @ rs_body r"
    using s'(3) f by (metis fwrite1_True_iff)
  then have "length (ds_file s') = length (ds_file s) + unat ?C" using C by simp
  moreover have "?C \<noteq> 0" using C ok(3) by (metis length_0_conv unat_0)
  ultimately show ?thesis using learn ok(2) size s'(1) [symmetric] s'(2,4)
    by blast
qed

text \<open>The next range is the next of the plan.\<close>

definition on_plan :: "u32 \<Rightarrow> nat \<Rightarrow> nat \<Rightarrow> nat \<Rightarrow> 'w download_state \<Rightarrow> bool" where
  "on_plan chunk c n j s \<longleftrightarrow> (ds_min s, ds_max s, ds_size s) = asked_range chunk c n j \<and>
     length (ds_file s) = (\<Sum>i < j. range_bytes c n i) \<and>
     (j \<noteq> 0 \<longrightarrow> 0 < c \<and> c \<le> n \<and> n < 2 ^ 63 \<and> (c = unat chunk \<or> c = n))"

lemma learn_size_known: "n \<noteq> 0 \<Longrightarrow> learn_size mx n M N = (M, N) \<Longrightarrow> M = mx \<and> N = n"
  by (simp add: learn_size_def)

lemma on_plan_first:
  assumes "on_plan chunk c n 0 s" and learn: "learn_size (ds_max s) (ds_size s) M N = (M, N)" "N \<noteq> 0" "unat N < 2 ^ 63"
    and C: "C = ucast (M - ds_min s + 1)" "C \<noteq> 0" and len: "length (ds_file s') = length (ds_file s) + unat C"
    and nxt: "next_range M C M N = (ds_min s', ds_max s')" "ds_size s' = N"
  shows "\<exists>c' n'. on_plan chunk c' n' 1 s'"
proof -
  let ?n = "unat N"
  have s: "ds_min s = 0" "ds_max s = ucast (chunk - 1)" "ds_size s = 0" "ds_file s = []"
    using assms(1) by (simp_all add: on_plan_def asked_range_def)
  have N: "N = word_of_nat ?n" "0 < ?n" using learn(2) by (simp_all add: unat_gt_0)
  have "learn_size (ds_max s) (ds_size s) M N = (if N \<le> M + 1 then N - 1 else ucast (chunk - 1), N)"
    by (simp add: learn_size_def s(2,3))
  then have "N \<le> M + 1 \<Longrightarrow> M = N - 1" "\<not> N \<le> M + 1 \<Longrightarrow> M = ucast (chunk - 1)"
    using learn(1) by simp_all
  then consider (whole) "M = N - 1" | (chunk) "\<not> N \<le> M + 1" "M = ucast (chunk - 1)" by blast
  then show ?thesis
  proof cases
    case whole
    have "next_range M C M N = (word_of_nat ?n - 1, word_of_nat ?n - 1)"
      using next_range_end [OF N(2) learn(3), of C] whole by simp
    moreover have "C = word_of_nat ?n"
      unfolding C(1) whole s(1) using ucast_u64_u32 [of ?n] by simp
    then have "unat C = ?n mod 2 ^ 32" by (simp only: unat_u32_of_nat_mod)
    ultimately show ?thesis using N s(4) len nxt learn(3)
      by (intro exI [of _ ?n]) (simp add: on_plan_def asked_range_def range_bytes_def)
  next
    case chunk
    let ?c = "unat chunk"
    have "(ucast (ucast (- 1 :: u32) + 1 :: u64) :: u32) = 0" by code_simp
    then have "chunk \<noteq> 0" using C chunk(2) s(1) by auto
    then have c: "0 < ?c" by (simp add: unat_gt_0)
    have M: "M = word_of_nat ?c - 1" unfolding chunk(2) by (rule ucast_last_byte [OF c])
    have cn: "?c < ?n"
      using chunk(1) unat_u32_lt [of chunk] unfolding M by (simp add: word_le_nat_alt unat_of_nat_lt)
    have Cc: "C = word_of_nat ?c" using C(1) M s(1) ucast_u64_u32 [of ?c] by simp
    have "next_range M C M N = (if ?n \<le> ?c + ?c then (word_of_nat ?c - 1, word_of_nat ?n - 1)
        else (word_of_nat ?c, word_of_nat (?c + ?c) - 1))"
      using next_range_after [of 0 ?c ?n] c cn learn(3) unat_u32_lt [of chunk] M Cc by simp
    then show ?thesis using N c cn s(4) len nxt learn(3) Cc unat_u32_lt [of chunk]
      by (intro exI [of _ ?c] exI [of _ ?n]) (auto simp: on_plan_def asked_range_def range_bytes_def split: if_splits)
  qed
qed

lemma on_plan_next:
  assumes "on_plan chunk c n j s" "j \<noteq> 0" and learn: "learn_size (ds_max s) (ds_size s) M N = (M, N)"
    and C: "C = ucast (M - ds_min s + 1)" "C \<noteq> 0" and len: "length (ds_file s') = length (ds_file s) + unat C"
    and nxt: "next_range M C M N = (ds_min s', ds_max s')" "ds_size s' = N"
  shows "on_plan chunk c n (Suc j) s'"
proof -
  have n: "0 < c" "c \<le> n" "n < 2 ^ 63" "c = unat chunk \<or> c = n" using assms(1,2) by (auto simp: on_plan_def)
  have s: "(ds_min s, ds_max s, ds_size s) = asked_range chunk c n j" "length (ds_file s) = (\<Sum>i < j. range_bytes c n i)"
    using assms(1) by (simp_all add: on_plan_def)
  have "unat (word_of_nat n :: u64) = n" using n(3) by (simp add: unat_of_nat_lt)
  then have n0: "(word_of_nat n :: u64) \<noteq> 0" using n(1,2) by auto
  moreover have "ds_size s = word_of_nat n" using s(1) assms(2) by (simp add: asked_range_def split: if_splits)
  ultimately have M: "M = ds_max s" "N = word_of_nat n" using learn_size_known [of "ds_size s"] learn by metis+
  have jc: "c \<le> j * c" using assms(2) by (cases j) simp_all
  consider (chunk) "Suc j * c < n" | (last) "\<not> Suc j * c < n" "j * c < n" | (over) "\<not> j * c < n" by blast
  then have "(ds_min s', ds_max s') = (fst (asked_range chunk c n (Suc j)), fst (snd (asked_range chunk c n (Suc j)))) \<and>
    unat C = range_bytes c n j"
  proof cases
    case chunk
    have c: "c < 2 ^ 32" using n(4) unat_u32_lt [of chunk] chunk jc by auto
    have r: "ds_min s = word_of_nat (j * c)" "ds_max s = word_of_nat (Suc j * c) - 1"
      using s(1) chunk assms(2) by (simp_all add: asked_range_def)
    have "C = word_of_nat (Suc j * c - j * c)"
      unfolding C(1) M(1) r by (rule ucast_range_size) (use chunk c n(3) in auto)
    then have Cc: "C = word_of_nat c" by simp
    have "next_range M C M N = (if n \<le> Suc j * c + c then (word_of_nat (Suc j * c) - 1, word_of_nat n - 1)
        else (word_of_nat (Suc j * c), word_of_nat (Suc j * c + c) - 1))"
      using next_range_after [of "j * c" "Suc j * c" n] n(1,3) chunk c unfolding M r Cc by simp
    then have "(ds_min s', ds_max s') = (if n \<le> Suc (Suc j) * c then (word_of_nat (Suc j * c) - 1, word_of_nat n - 1)
        else (word_of_nat (Suc j * c), word_of_nat (Suc (Suc j) * c) - 1))"
      using nxt(1) by (simp add: add.commute)
    moreover have "unat C = c" unfolding Cc using c by (intro unat_of_nat_lt) simp
    ultimately show ?thesis using chunk assms(2)
      by (cases "n \<le> Suc (Suc j) * c") (simp_all add: asked_range_def range_bytes_def)
  next
    case last
    have c: "c < 2 ^ 32" using n(4) unat_u32_lt [of chunk] last jc by auto
    have r: "ds_min s = word_of_nat (j * c) - 1" "ds_max s = word_of_nat n - 1"
      using s(1) last assms(2) by (simp_all add: asked_range_def)
    have "M - ds_min s + 1 = word_of_nat (n - j * c + 1)" using last(2) unfolding M(1) r by (simp add: of_nat_diff)
    then have C': "C = word_of_nat (n - j * c + 1)" unfolding C(1) by (simp only: ucast_u64_u32)
    have "n - j * c + 1 \<le> 2 ^ 32" using last c by auto
    moreover have "n - j * c + 1 \<noteq> 2 ^ 32" using C(2) C' by auto
    ultimately have "unat C = n - j * c + 1" unfolding C' by (intro unat_of_nat_lt) simp
    then show ?thesis using next_range_end [of n C] n(1-3) nxt(1) last assms(2) unfolding M r
      by (auto simp: asked_range_def range_bytes_def)
  next
    case over
    then have o: "\<not> Suc j * c < n" by simp
    have r: "ds_min s = word_of_nat n - 1" "ds_max s = word_of_nat n - 1"
      using s(1) over o assms(2) by (simp_all add: asked_range_def)
    have "C = 1" unfolding C(1) M r by simp
    then show ?thesis using next_range_end [of n C] n(1-3) nxt(1) over o assms(2) unfolding M r
      by (auto simp: asked_range_def range_bytes_def)
  qed
  then show ?thesis using s(2) n len nxt(2) M(2) assms(2)
    by (auto simp: on_plan_def asked_range_def)
qed

lemma on_plan_step:
  assumes "on_plan chunk c n j s" "download_step E s = Inr s' \<or> download_step E s = Inl (True, s')"
    and "de_net E = recording net" "reports_file_sizes net" "mpuHttpClient (ds_client s) \<noteq> None"
  shows "\<exists>c' n'. (j \<noteq> 0 \<longrightarrow> c' = c \<and> n' = n) \<and> on_plan chunk c' n' (Suc j) s' \<and>
    (download_step E s = Inl (True, s') \<longrightarrow> n' \<le> Suc (Suc j) * c')"
proof -
  obtain M N C where r: "learn_size (ds_max s) (ds_size s) M N = (M, N)" "N \<noteq> 0" "unat N < 2 ^ 63"
      "C = ucast (M - ds_min s + 1)" "C \<noteq> 0" "length (ds_file s') = length (ds_file s) + unat C"
      "next_range M C M N = (ds_min s', ds_max s')" "ds_size s' = N"
      "download_step E s = Inl (True, s') \<longrightarrow> ds_max s' \<ge> N - 1"
    using download_step_range [OF assms(2-5)] by blast
  obtain c' n' where c': "j \<noteq> 0 \<longrightarrow> c' = c \<and> n' = n" "on_plan chunk c' n' (Suc j) s'"
  proof (cases "j = 0")
    case True
    then obtain c' n' where "on_plan chunk c' n' 1 s'" using on_plan_first [OF _ r(1-8)] assms(1) by blast
    then show ?thesis using True that by simp
  next
    case False
    then show ?thesis using on_plan_next [OF assms(1) False r(1,4-8)] that by blast
  qed
  have "n' \<le> Suc (Suc j) * c'" if "ds_max s' \<ge> N - 1"
  proof (rule ccontr)
    assume far: "\<not> n' \<le> Suc (Suc j) * c'"
    then have m: "ds_max s' = word_of_nat (Suc (Suc j) * c') - 1" "N = word_of_nat n'" and n: "0 < c'" "n' < 2 ^ 63"
      using c'(2) r(8) by (auto simp: on_plan_def asked_range_def simp del: of_nat_mult of_nat_add of_nat_Suc)
    have "word_of_nat n' - 1 \<le> (word_of_nat (Suc (Suc j) * c') - 1 :: u64) \<longleftrightarrow> n' \<le> Suc (Suc j) * c'"
      by (rule last_byte_le) (use far n in auto)
    then show False using that far unfolding m by simp
  qed
  then show ?thesis using c' r(9) by blast
qed

text \<open>A server that always answers 206 with the first and only byte of its file.\<close>

definition stuck_server :: "byte \<Rightarrow> 'w net" where
  "stuck_server b h rq w =
     (Some \<lparr>rs_status = PartialContent_206, rs_headers = no_headers(''Content-Range'' := content_range 0 0 1),
            rs_body = [b]\<rparr>, w)"

lemma stuck_turn:
  assumes net: "de_net E = stuck_server b" and acc: "\<And>old new. length new \<le> de_accepts E old new"
    and s: "ds_min s = 0" "ds_size s = 0 \<or> ds_size s = 1 \<and> ds_max s = 0" "mpuHttpClient (ds_client s) = Some h"
  shows "\<exists>s' h'. download_step E s = Inr s' \<and> ds_min s' = 0 \<and> ds_size s' = 1 \<and> ds_max s' = 0 \<and>
    mpuHttpClient (ds_client s') = Some h'"
proof -
  let ?h = "prepare (de_compress E) (de_decompress E) (de_keep_alive E) h"
  let ?r = "\<lparr>rs_status = PartialContent_206, rs_headers = no_headers(''Content-Range'' := content_range 0 0 1),
            rs_body = [b]\<rparr>"
  have "download_step E s = (if rs_status ?r = OK_200 then Inl ((0 :: u64) \<ge> 1 - 1,
      s\<lparr>ds_client := (ds_client s)\<lparr>mpuHttpClient := Some ?h\<rparr>, ds_world := ds_world s, ds_size := 1,
        ds_file := ds_file s @ [b], ds_min := 0, ds_max := 0\<rparr>)
     else Inr (s\<lparr>ds_client := (ds_client s)\<lparr>mpuHttpClient := Some ?h\<rparr>, ds_world := ds_world s, ds_size := 1,
        ds_file := ds_file s @ [b], ds_min := 0, ds_max := 0\<rparr>))"
    by (rule download_step_accepted [where C = 1 and M = 0])
      (use s acc [of "[b]"] in \<open>auto simp: net stuck_server_def verb_defs exchange_client learn_size_def
         next_range_def Let_def fwrite1_True_iff\<close>)
  then show ?thesis by simp
qed

lemma stuck_loop:
  assumes net: "de_net E = stuck_server b" and acc: "\<And>old new. length new \<le> de_accepts E old new"
    and s: "ds_min s = 0" "ds_size s = 0 \<or> ds_size s = 1 \<and> ds_max s = 0" "mpuHttpClient (ds_client s) = Some h"
  shows "download_loop E s = None"
proof (rule ccontr)
  assume "download_loop E s \<noteq> None"
  then obtain out s' where run: "download_loop E s = Some (out, s')" by auto
  let ?P = "\<lambda>s. \<exists>h. ds_min s = 0 \<and> (ds_size s = 0 \<or> ds_size s = 1 \<and> ds_max s = 0) \<and>
    mpuHttpClient (ds_client s) = Some h"
  have turn: "\<exists>s'. download_step E s = Inr s' \<and> ?P s'" if "?P s" for s
    using that stuck_turn [OF net acc] by meson
  show False
    by (rule download_loop_rule [where P = ?P and Q = "\<lambda>_ _. False", OF run])
      (use s turn in \<open>fastforce+\<close>)
qed

section \<open>Properties\<close>

text \<open>C25. When a download returns true, the local file holds exactly the bodies of the responses
  received, in order: every response but the last was a 206, the last a 200, and no other file has
  changed.\<close>

theorem download_stores_what_was_received:
  assumes "mpuHttpClient c = Some h"
    and "BofWebClient_Download (receiving net) rnd io fs uri path cr dr ka chunk c ([], w) =
           Some (True, fs', c', log, w')"
  shows "\<exists>rs r. log = map Some (rs @ [r]) \<and> fs' = fs(path \<mapsto> concat (map rs_body (rs @ [r]))) \<and>
    list_all (\<lambda>r. rs_status r = 206) rs \<and> rs_status r = 200"
proof -
  let ?E = "\<lparr>de_net = receiving net, de_uri = uri, de_compress = cr, de_decompress = dr,
    de_keep_alive = ka, de_accepts = io_accepts io, de_session = S_GenerateSessionId rnd 36\<rparr>"
  obtain s where run: "download_loop ?E (download_start chunk c ([], w)) = Some (True, s)"
    and s: "fs' = fs(path \<mapsto> ds_file s)" "(log, w') = ds_world s"
    using assms by (auto simp: BofWebClient_Download_def Let_def split: if_splits option.splits)
  have net: "de_net ?E = receiving net" by simp
  have start: "download_good (download_start chunk c ([], w))"
    using assms(1) by (auto simp: download_good_def download_start_def intro: exI [of _ "[]"])
  have "True \<longrightarrow> (\<exists>rs r. fst (ds_world s) = map Some (rs @ [r]) \<and>
      ds_file s = concat (map rs_body (rs @ [r])) \<and>
      list_all (\<lambda>r. rs_status r = PartialContent_206) rs \<and> rs_status r = OK_200)"
    by (rule download_loop_rule [where P = download_good, OF run start])
      (erule download_good_step [OF net], assumption, erule download_good_exit [OF net], assumption)
  with s show ?thesis by (metis fst_conv)
qed

text \<open>The run: the log of the requests, the range of the next and the size of the local file.\<close>

definition plan_logged ::
    "'w download_env \<Rightarrow> u32 \<Rightarrow> nat \<Rightarrow> nat \<Rightarrow> nat \<Rightarrow> (http_request list \<times> 'w0) download_state \<Rightarrow> bool" where
  "plan_logged E chunk c n j s \<longleftrightarrow> mpuHttpClient (ds_client s) \<noteq> None \<and>
     fst (ds_world s) = map (download_request (de_uri E) (de_session E) \<circ> asked_range chunk c n) [0..<j]"

lemma get_recording:
  assumes "mpuHttpClient c \<noteq> None"
    and "BofWebClient_Get (recording net) uri cr dr ka hdr c w = (res, c', w')"
  shows "mpuHttpClient c' \<noteq> None \<and>
    fst w' = fst w @ [\<lparr>rq_method = HTTP_GET, rq_uri = uri, rq_headers = hdr, rq_body = [], rq_body_type = []\<rparr>]"
  using assms by (auto simp: verb_defs exchange_client recording_def split: prod.splits)

lemma download_step_logged:
  assumes net: "de_net E = recording net" and s: "plan_logged E chunk c n j s" "on_plan chunk c n j s"
    and step: "download_step E s = Inr s' \<or> download_step E s = Inl (out, s')"
  shows "plan_logged E chunk c n (Suc j) s'"
proof -
  let ?hdr = "no_headers(''Session-Id'' := de_session E,
    ''Content-Range'' := content_range (ds_min s) (ds_max s) (ds_size s))"
  obtain res c' w' where get: "BofWebClient_Get (de_net E) (de_uri E) (de_compress E) (de_decompress E)
      (de_keep_alive E) ?hdr (ds_client s) (ds_world s) = (res, c', w')"
    by (metis prod_cases3)
  have s': "ds_client s' = c'" "ds_world s' = w'"
    using step get by (auto simp: download_step_def Let_def split: prod.splits if_splits option.splits)
  have "asked_range chunk c n j = (ds_min s, ds_max s, ds_size s)" using s(2) by (simp add: on_plan_def)
  then show ?thesis using get_recording [OF _ get [unfolded net]] s(1)
    by (simp add: plan_logged_def s' download_request_def)
qed

text \<open>The first range does not depend on the plan.\<close>

lemma plan_logged_first: "plan_logged E chunk c n 1 s \<Longrightarrow> plan_logged E chunk c' n' 1 s"
  by (simp add: plan_logged_def asked_range_def)

lemma download_run_plan:
  assumes net: "de_net E = recording net" "reports_file_sizes net"
    and run: "download_loop E s = Some (out, s')" and s: "plan_logged E chunk c n 0 s" "on_plan chunk c n 0 s"
  shows "\<exists>c n k. 0 < k \<and> plan_logged E chunk c n k s' \<and>
    (1 < k \<longrightarrow> 0 < c \<and> c \<le> n \<and> n < 2 ^ 63 \<and> (c = unat chunk \<or> c = n)) \<and>
    (out \<longrightarrow> on_plan chunk c n k s' \<and> n \<le> Suc k * c)"
proof (rule download_loop_rule [where P = "\<lambda>s. \<exists>c n j. plan_logged E chunk c n j s \<and> on_plan chunk c n j s", OF run])
  fix s s' assume P: "\<exists>c n j. plan_logged E chunk c n j s \<and> on_plan chunk c n j s" and step: "download_step E s = Inr s'"
  then obtain c n j where s: "plan_logged E chunk c n j s" "on_plan chunk c n j s" by blast
  then have "mpuHttpClient (ds_client s) \<noteq> None" by (simp add: plan_logged_def)
  from on_plan_step [OF s(2) disjI1 [OF step] net this] obtain c' n' where
    c': "j \<noteq> 0 \<longrightarrow> c' = c \<and> n' = n" "on_plan chunk c' n' (Suc j) s'" by blast
  have "plan_logged E chunk c' n' (Suc j) s'"
    using download_step_logged [OF net(1) s disjI1 [OF step]] c'(1) plan_logged_first by (cases "j = 0") auto
  with c'(2) show "\<exists>c n j. plan_logged E chunk c n j s' \<and> on_plan chunk c n j s'" by blast
next
  fix s out s' assume P: "\<exists>c n j. plan_logged E chunk c n j s \<and> on_plan chunk c n j s"
    and step: "download_step E s = Inl (out, s')"
  then obtain c n j where s: "plan_logged E chunk c n j s" "on_plan chunk c n j s" by blast
  have logged: "plan_logged E chunk c n (Suc j) s'" by (rule download_step_logged [OF net(1) s disjI2 [OF step]])
  have bounds: "1 < Suc j \<longrightarrow> 0 < c \<and> c \<le> n \<and> n < 2 ^ 63 \<and> (c = unat chunk \<or> c = n)"
    using s(2) by (simp add: on_plan_def)
  show "\<exists>c n k. 0 < k \<and> plan_logged E chunk c n k s' \<and>
    (1 < k \<longrightarrow> 0 < c \<and> c \<le> n \<and> n < 2 ^ 63 \<and> (c = unat chunk \<or> c = n)) \<and>
    (out \<longrightarrow> on_plan chunk c n k s' \<and> n \<le> Suc k * c)"
  proof (cases out)
    case True
    then have t: "download_step E s = Inl (True, s')" using step by simp
    have "mpuHttpClient (ds_client s) \<noteq> None" using s(1) by (simp add: plan_logged_def)
    from on_plan_step [OF s(2) disjI2 [OF t] net this] t obtain c' n' where
      c': "j \<noteq> 0 \<longrightarrow> c' = c \<and> n' = n" "on_plan chunk c' n' (Suc j) s'" "n' \<le> Suc (Suc j) * c'" by blast
    have "plan_logged E chunk c' n' (Suc j) s'"
      using logged c'(1) plan_logged_first by (cases "j = 0") auto
    moreover have "1 < Suc j \<longrightarrow> 0 < c' \<and> c' \<le> n' \<and> n' < 2 ^ 63 \<and> (c' = unat chunk \<or> c' = n')"
      using c'(2) by (simp add: on_plan_def)
    ultimately show ?thesis using c'(2,3) by blast
  next
    case False
    then show ?thesis using logged bounds by blast
  qed
qed (use s in blast)

lemma download_unfold:
  assumes "mpuHttpClient c = Some h" "io_can_open io path"
    and "BofWebClient_Download net rnd io fs uri path cr dr ka chunk c v = Some (out, fs', c', v')"
  defines "E \<equiv> \<lparr>de_net = net, de_uri = uri, de_compress = cr, de_decompress = dr,
    de_keep_alive = ka, de_accepts = io_accepts io, de_session = S_GenerateSessionId rnd 36\<rparr>"
  obtains s where "download_loop E (download_start chunk c v) = Some (out, s)" "fs' = fs(path \<mapsto> ds_file s)" "v' = ds_world s"
  using assms by (auto simp: BofWebClient_Download_def Let_def split: option.splits)

lemma download_start_run:
  assumes "mpuHttpClient c = Some h" "reports_file_sizes net"
    and run: "download_loop E (download_start chunk c ([], w)) = Some (out, s)" and net: "de_net E = recording net"
  shows "\<exists>sz n k. 0 < k \<and> plan_logged E chunk sz n k s \<and>
    (1 < k \<longrightarrow> 0 < sz \<and> sz \<le> n \<and> n < 2 ^ 63 \<and> (sz = unat chunk \<or> sz = n)) \<and>
    (out \<longrightarrow> on_plan chunk sz n k s \<and> n \<le> Suc k * sz)"
proof -
  have "plan_logged E chunk 0 0 0 (download_start chunk c ([], w))" "on_plan chunk 0 0 0 (download_start chunk c ([], w))"
    using assms(1) by (simp_all add: plan_logged_def on_plan_def download_start_def asked_range_def)
  from download_run_plan [OF net assms(2) run this] show ?thesis .
qed

text \<open>C18. Whatever the server answers, a download that returns has asked for the ranges of one plan: the range of
  the call; the chunks in order while there is another one behind them; the last chunk, from the byte before
  it on; then the last byte again and again.  The size is the one the first accepted answer gave, and the chunk
  is that of the call, or the whole file when that answer carried it.  It returns true only after the last
  chunk but one, with the sizes of these ranges stored.\<close>

theorem download_requests_are_the_plan:
  assumes "mpuHttpClient c = Some h" "io_can_open io path" "reports_file_sizes net"
    and "BofWebClient_Download (recording net) rnd io fs uri path cr dr ka chunk c ([], w) = Some (out, fs', c', log, w')"
  shows "\<exists>sz n k stored. 0 < k \<and> fs' = fs(path \<mapsto> stored) \<and>
    log = map (download_request uri (S_GenerateSessionId rnd 36) \<circ> asked_range chunk sz n) [0..<k] \<and>
    (1 < k \<longrightarrow> 0 < sz \<and> sz \<le> n \<and> n < 2 ^ 63 \<and> (sz = unat chunk \<or> sz = n)) \<and>
    (out \<longrightarrow> n \<le> Suc k * sz \<and> length stored = (\<Sum>j < k. range_bytes sz n j))"
proof -
  let ?E = "\<lparr>de_net = recording net, de_uri = uri, de_compress = cr, de_decompress = dr,
    de_keep_alive = ka, de_accepts = io_accepts io, de_session = S_GenerateSessionId rnd 36\<rparr>"
  obtain s where run: "download_loop ?E (download_start chunk c ([], w)) = Some (out, s)"
    and s: "fs' = fs(path \<mapsto> ds_file s)" "(log, w') = ds_world s"
    by (rule download_unfold [OF assms(1,2,4)])
  obtain sz n k where k: "0 < k" "plan_logged ?E chunk sz n k s"
    "1 < k \<longrightarrow> 0 < sz \<and> sz \<le> n \<and> n < 2 ^ 63 \<and> (sz = unat chunk \<or> sz = n)"
    "out \<longrightarrow> on_plan chunk sz n k s \<and> n \<le> Suc k * sz"
    using download_start_run [OF assms(1,3) run] by auto
  have "log = map (download_request uri (S_GenerateSessionId rnd 36) \<circ> asked_range chunk sz n) [0..<k]"
    using k(2) s(2) by (metis download_env.select_convs(2,7) fst_conv plan_logged_def)
  with k s(1) show ?thesis by (auto simp: on_plan_def)
qed

text \<open>The sizes of the ranges of a plan never add up to the size of the file, except for one range.\<close>

lemma plan_bytes:
  assumes "0 < c" "c \<le> n" "n < 2 ^ 32"
  shows "0 < k \<Longrightarrow> (k * c < n \<longrightarrow> (\<Sum>j < k. range_bytes c n j) = k * c) \<and>
    (n \<le> k * c \<longrightarrow> n + of_bool (1 < k) \<le> (\<Sum>j < k. range_bytes c n j))"
proof (induction k)
  case (Suc k)
  show ?case
  proof (cases "k = 0")
    case True
    then show ?thesis using assms by (auto simp: range_bytes_def)
  next
    case False
    then show ?thesis using Suc assms(1) by (auto simp: range_bytes_def)
  qed
qed simp

text \<open>C17. So a file larger than a chunk is never downloaded whole: when a download of more than one request
  returns true, whatever the server answered, the local file does not have the size the server reported and
  the client asked with.  (The size is taken below 4 GB: the client counts a first answer in 32 bits.)\<close>

theorem larger_downloads_are_not_whole:
  assumes "mpuHttpClient c = Some h" "io_can_open io path" "reports_file_sizes net"
    and "BofWebClient_Download (recording net) rnd io fs uri path cr dr ka chunk c ([], w) = Some (True, fs', c', log, w')"
    and "1 < length log"
  shows "\<exists>n stored. fs' = fs(path \<mapsto> stored) \<and>
    (\<forall>rq \<in> set (tl log). \<exists>lo hi. rq = download_request uri (S_GenerateSessionId rnd 36) (lo, hi, n)) \<and>
    (unat n < 2 ^ 32 \<longrightarrow> length stored \<noteq> unat n)"
proof -
  let ?E = "\<lparr>de_net = recording net, de_uri = uri, de_compress = cr, de_decompress = dr,
    de_keep_alive = ka, de_accepts = io_accepts io, de_session = S_GenerateSessionId rnd 36\<rparr>"
  obtain s where run: "download_loop ?E (download_start chunk c ([], w)) = Some (True, s)"
    and s: "fs' = fs(path \<mapsto> ds_file s)" "(log, w') = ds_world s"
    by (rule download_unfold [OF assms(1,2,4)])
  obtain sz n k where k: "0 < k" "plan_logged ?E chunk sz n k s" "on_plan chunk sz n k s"
    using download_start_run [OF assms(1,3) run] by auto
  have log: "log = map (download_request uri (S_GenerateSessionId rnd 36) \<circ> asked_range chunk sz n) [0..<k]"
    using k(2) s(2) by (metis download_env.select_convs(2,7) fst_conv plan_logged_def)
  then have k1: "1 < k" using assms(5) by simp
  have n: "0 < sz" "sz \<le> n" "n < 2 ^ 63" "length (ds_file s) = (\<Sum>j < k. range_bytes sz n j)"
    using k(1,3) by (auto simp: on_plan_def)
  then have un: "unat (word_of_nat n :: u64) = n" by (simp add: unat_of_nat_lt)
  have "n < 2 ^ 32 \<longrightarrow> length (ds_file s) \<noteq> n" using plan_bytes [OF n(1,2), of k] n(4) k1 by fastforce
  moreover have "\<exists>lo hi. rq = download_request uri (S_GenerateSessionId rnd 36) (lo, hi, word_of_nat n)"
    if "rq \<in> set (tl log)" for rq
  proof -
    have "tl log = map (download_request uri (S_GenerateSessionId rnd 36) \<circ> asked_range chunk sz n) [1..<k]"
      unfolding log by (simp add: tl_upt flip: map_tl)
    with that obtain j where j: "Suc 0 \<le> j" "rq = download_request uri (S_GenerateSessionId rnd 36) (asked_range chunk sz n j)"
      by auto
    then have "j \<noteq> 0" by simp
    moreover have "asked_range chunk sz n j =
        (fst (asked_range chunk sz n j), fst (snd (asked_range chunk sz n j)), word_of_nat n)" if "j \<noteq> 0" for j
      using that by (simp add: asked_range_def)
    ultimately show ?thesis using j(2) by metis
  qed
  ultimately show ?thesis using s(1) un by (intro exI [of _ "word_of_nat n"] exI [of _ "ds_file s"]) simp
qed

text \<open>
  The setting of the witnesses: the client and device of the upload samples, and a peer that gives three
  answers, those for a file of five bytes in chunks of two.
\<close>

lemma sample_accepts: "length new \<le> io_accepts sample_io old new"
  by (simp add: sample_io_def)

lemma sample_session: "mpuHttpClient sample_client = Some (new_http_client ''localhost'' (Some 8090))"
  "io_can_open sample_io ''copy.bin''"
  by (simp_all add: sample_client_def sample_io_def)

definition sample_reply :: "nat \<Rightarrow> u64 \<Rightarrow> u64 \<Rightarrow> byte list \<Rightarrow> http_response" where
  "sample_reply sts lo hi body =
     \<lparr>rs_status = sts, rs_headers = no_headers(''Content-Range'' := content_range lo hi 5), rs_body = body\<rparr>"

definition sample_peer :: "nat net" where
  "sample_peer h rq i =
     (if i = 0 then Some (sample_reply 206 0 1 [10, 20]) else if i = 1 then Some (sample_reply 206 2 3 [30, 40])
      else if i = 2 then Some (sample_reply 200 3 4 [40, 50]) else None, Suc i)"

lemmas sample_download_defs = BofWebClient_Download_def sample_session Let_def download_loop.simps
  download_start_def download_step_def verb_defs exchange_client receiving_def recording_def sample_peer_def
  sample_reply_def learn_size_def next_range_def fwrite1_def sample_io_def sample_client_def

lemma sample_peer_sizes: "reports_file_sizes sample_peer"
  by (auto simp: reports_file_sizes_def sample_peer_def sample_reply_def split: if_splits)

lemma sample_download_received:
  "\<exists>c log. BofWebClient_Download (receiving sample_peer) (\<lambda>_. 0) sample_io (\<lambda>_. None) ''/down'' ''copy.bin''
      False False True 2 sample_client ([], 0) =
    Some (True, (\<lambda>_. None)(''copy.bin'' \<mapsto> [10, 20, 30, 40, 40, 50]), c, log, 3)"
  by (simp add: sample_download_defs)

lemma sample_download_recorded:
  "\<exists>c a b d. BofWebClient_Download (recording sample_peer) (\<lambda>_. 0) sample_io (\<lambda>_. None) ''/down'' ''copy.bin''
      False False True 2 sample_client ([], 0) =
    Some (True, (\<lambda>_. None)(''copy.bin'' \<mapsto> [10, 20, 30, 40, 40, 50]), c, [a, b, d], 3)"
  by (simp add: sample_download_defs)

lemma download_stores_what_was_received_witness:
  "\<exists>fs c log. BofWebClient_Download (receiving sample_peer) (\<lambda>_. 0) sample_io (\<lambda>_. None) ''/down'' ''copy.bin''
      False False True 2 sample_client ([], 0) = Some (True, fs, c, log, 3) \<and>
    (\<exists>rs r. log = map Some (rs @ [r]) \<and>
       fs = (\<lambda>_. None)(''copy.bin'' \<mapsto> concat (map rs_body (rs @ [r]))) \<and>
       list_all (\<lambda>r. rs_status r = 206) rs \<and> rs_status r = 200)"
proof -
  obtain c log where d: "BofWebClient_Download (receiving sample_peer) (\<lambda>_. 0) sample_io (\<lambda>_. None) ''/down'' ''copy.bin''
      False False True 2 sample_client ([], 0) =
    Some (True, (\<lambda>_. None)(''copy.bin'' \<mapsto> [10, 20, 30, 40, 40, 50]), c, log, 3)"
    using sample_download_received by blast
  show ?thesis using d download_stores_what_was_received [OF sample_session(1) d] by blast
qed

lemma download_requests_are_the_plan_witness:
  "\<exists>c log sz n. BofWebClient_Download (recording sample_peer) (\<lambda>_. 0) sample_io (\<lambda>_. None) ''/down'' ''copy.bin''
      False False True 2 sample_client ([], 0) =
    Some (True, (\<lambda>_. None)(''copy.bin'' \<mapsto> [10, 20, 30, 40, 40, 50]), c, log, 3) \<and> length log = 3 \<and>
    log = map (download_request ''/down'' (S_GenerateSessionId (\<lambda>_. 0) 36) \<circ> asked_range 2 sz n) [0..<3] \<and> n \<le> 4 * sz"
proof -
  obtain c a b d where r: "BofWebClient_Download (recording sample_peer) (\<lambda>_. 0) sample_io (\<lambda>_. None) ''/down'' ''copy.bin''
      False False True 2 sample_client ([], 0) =
    Some (True, (\<lambda>_. None)(''copy.bin'' \<mapsto> [10, 20, 30, 40, 40, 50]), c, [a, b, d], 3)"
    using sample_download_recorded by blast
  obtain sz n k where
    k: "[a, b, d] = map (download_request ''/down'' (S_GenerateSessionId (\<lambda>_. 0) 36) \<circ> asked_range 2 sz n) [0..<k]"
    "n \<le> Suc k * sz"
    using download_requests_are_the_plan [OF sample_session sample_peer_sizes r]
    by (elim exE conjE) (rule that, assumption, simp)
  have "k = 3" using arg_cong [OF k(1), of length] by simp
  with k r show ?thesis
    by - (rule exI [of _ c], rule exI [of _ "[a, b, d]"], rule exI [of _ sz], rule exI [of _ n], simp)
qed

lemma larger_downloads_are_not_whole_witness:
  "\<exists>c log stored n. BofWebClient_Download (recording sample_peer) (\<lambda>_. 0) sample_io (\<lambda>_. None) ''/down'' ''copy.bin''
      False False True 2 sample_client ([], 0) =
    Some (True, (\<lambda>_. None)(''copy.bin'' \<mapsto> stored), c, log, 3) \<and> length stored = 6 \<and>
    (\<forall>rq \<in> set (tl log). \<exists>lo hi. rq = download_request ''/down'' (S_GenerateSessionId (\<lambda>_. 0) 36) (lo, hi, n)) \<and>
    (unat n < 2 ^ 32 \<longrightarrow> unat n \<noteq> 6)"
proof -
  let ?stored = "[10, 20, 30, 40, 40, 50] :: byte list"
  obtain c a b d where r: "BofWebClient_Download (recording sample_peer) (\<lambda>_. 0) sample_io (\<lambda>_. None) ''/down'' ''copy.bin''
      False False True 2 sample_client ([], 0) = Some (True, (\<lambda>_. None)(''copy.bin'' \<mapsto> ?stored), c, [a, b, d], 3)"
    using sample_download_recorded by blast
  from larger_downloads_are_not_whole [OF sample_session sample_peer_sizes r] obtain n stored where
    n: "(\<lambda>_. None)(''copy.bin'' \<mapsto> ?stored) = (\<lambda>_. None)(''copy.bin'' \<mapsto> stored)"
    "\<forall>rq \<in> set (tl [a, b, d]). \<exists>lo hi. rq = download_request ''/down'' (S_GenerateSessionId (\<lambda>_. 0) 36) (lo, hi, n)"
    "unat n < 2 ^ 32 \<longrightarrow> length stored \<noteq> unat n" by auto
  have "stored = ?stored" using fun_cong [OF n(1), of "''copy.bin''"] by simp
  then have "unat n < 2 ^ 32 \<longrightarrow> unat n \<noteq> 6" using n(3) by auto
  with n(2) r show ?thesis
    by (intro exI [of _ c] exI [of _ "[a, b, d]"] exI [of _ ?stored] exI [of _ n]) simp
qed

text \<open>Nothing bounds the loop: against a server that keeps answering 206 with the last byte, the
  call does not return.\<close>

theorem download_may_not_return:
  assumes "mpuHttpClient c = Some h" "io_can_open io path" "\<And>old new. length new \<le> io_accepts io old new"
  shows "BofWebClient_Download (stuck_server b) rnd io fs uri path cr dr ka chunk c w = None"
proof -
  let ?E = "\<lparr>de_net = stuck_server b, de_uri = uri, de_compress = cr, de_decompress = dr,
    de_keep_alive = ka, de_accepts = io_accepts io, de_session = S_GenerateSessionId rnd 36\<rparr>"
  have "download_loop ?E (download_start chunk c w) = None"
    by (rule stuck_loop [where h = h]) (use assms in \<open>simp_all add: download_start_def\<close>)
  then show ?thesis using assms(1,2) by (simp add: BofWebClient_Download_def Let_def)
qed

lemma download_may_not_return_witness:
  "BofWebClient_Download (stuck_server 7) (\<lambda>_. 0) sample_io (\<lambda>_. None) ''/down'' ''copy.bin''
     False False True 2 sample_client () = None"
  by (rule download_may_not_return [OF sample_session sample_accepts])

end
