(* ===== verification/TransferServer.thy ===== *)
theory TransferServer
  imports Download
begin

text \<open>
  The two transfer handlers of the repository's server, \<^verbatim>\<open>GetDownload\<close> and \<^verbatim>\<open>PostUpload\<close> of
  \<^verbatim>\<open>UtWebServer\<close> (\<^verbatim>\<open>src/tests/src/ut_webapp.cpp\<close>), the only peers of \<^verbatim>\<open>BofWebClient::Upload\<close> and
  \<^verbatim>\<open>Download\<close> the sources have.  A transfer in progress is a task kept under its session identifier.
  The lemmas follow one session through its chunks and show what the other sessions cannot touch; the
  composition with the client is in the next theory.
\<close>

section \<open>Tasks and state\<close>

text \<open>An open file: its path and the position.  Buffering of the stream is not modelled: a write is seen at once.\<close>

record io_file =
  if_path :: string
  if_pos :: nat

text \<open>Of the transfer buffer the code only asks whether it is there.\<close>

record updown_task =
  ut_Start_U32 :: u32
  ut_RangeMin :: u64
  ut_RangeMax :: u64
  ut_DataSize :: u64
  ut_ChunkSize_U32 :: u32
  ut_pIo_X :: "io_file option"
  ut_pBuffer_U8 :: bool

definition UPDOWN_TASK_Reset :: "updown_task \<Rightarrow> updown_task" where
  [reset_defs]: "UPDOWN_TASK_Reset t =
     t\<lparr>ut_Start_U32 := 0, ut_RangeMin := 0, ut_RangeMax := 0, ut_DataSize := 0, ut_ChunkSize_U32 := 0,
       ut_pIo_X := None, ut_pBuffer_U8 := False\<rparr>"

text \<open>\<open>ud_root\<close> is \<^verbatim>\<open>mWebServerParam_X.RootDir_S\<close>, \<open>ud_tasks\<close> is \<^verbatim>\<open>mUpDownTaskCollection\<close>.\<close>

record updown_server =
  ud_root :: string
  ud_fs :: file_system
  ud_tasks :: "string \<Rightarrow> updown_task option"

text \<open>
  How a handler ends: with a response, by using the iterator \<open>It\<close> before any position was stored in it
  (undefined behaviour), or in a failed \<^verbatim>\<open>assert\<close>.
\<close>

datatype 'a handled = Answered 'a | SingularIterator | AssertFailed

text \<open>The iterator of a handler: not set yet, the end of the collection, or at a session.\<close>

datatype task_iter = NoIter | EndIter | IterAt string

text \<open>The outcome of one part of a handler: go on, or the end of the handler.\<close>

datatype 'a stage = Go 'a | Stop "(http_response \<times> updown_server) handled"

section \<open>The parts the handlers share\<close>

definition TerminateUpDownTask ::
    "nat \<Rightarrow> http_response \<Rightarrow> task_iter \<Rightarrow> updown_server \<Rightarrow> (http_response \<times> updown_server) handled" where
  "TerminateUpDownTask sts rs it S =
     (case it of
        NoIter \<Rightarrow> SingularIterator
      | EndIter \<Rightarrow> Answered (rs\<lparr>rs_status := sts\<rparr>, S)
      | IterAt session \<Rightarrow> Answered (rs\<lparr>rs_status := sts\<rparr>, S\<lparr>ud_tasks := (ud_tasks S)(session := None)\<rparr>))"

fun has_dotdot :: "string \<Rightarrow> bool" where
  "has_dotdot (a # b # r) \<longleftrightarrow> a = CHR ''.'' \<and> b = CHR ''.'' \<or> has_dotdot (b # r)"
| "has_dotdot _ \<longleftrightarrow> False"

definition request_path :: "updown_server \<Rightarrow> string \<Rightarrow> string \<Rightarrow> string" where
  "request_path S dir file = ud_root S @ ''/'' @ dir @ ''/'' @ file"

text \<open>
  The beginning of both handlers: path and range of the request.  \<open>params\<close> are its path parameters; a
  missing one throws, which is caught and leaves the response as it was.
\<close>

definition read_request ::
    "(string \<Rightarrow> string option) \<Rightarrow> http_request \<Rightarrow> http_response \<Rightarrow> updown_server \<Rightarrow>
     (string \<times> u64 \<times> u64 \<times> u64) stage" where
  "read_request params rq rs S =
     (case (params ''dir'', params ''file'') of
        (Some dir, Some file) \<Rightarrow>
          (let path = request_path S dir file
           in if \<not> has_dotdot path then
                (case S_ParseContentRangeRequest (rq_headers rq ''Content-Range'') 0 0 0 of
                   (ok, RangeMin, RangeMax, DataSize) \<Rightarrow>
                     if ok then Go (path, RangeMin, RangeMax, DataSize)
                     else Stop (TerminateUpDownTask 400 rs NoIter S))
              else Stop (TerminateUpDownTask 401 rs NoIter S))
      | _ \<Rightarrow> Stop (Answered (rs, S)))"

definition find_task :: "updown_server \<Rightarrow> string \<Rightarrow> task_iter" where
  "find_task S session = (if ud_tasks S session = None then EndIter else IterAt session)"

text \<open>The range expected next, after a chunk of \<open>sz\<close> bytes.\<close>

definition advance_task :: "u64 \<Rightarrow> updown_task \<Rightarrow> updown_task" where
  "advance_task sz t =
     (let RangeMin = ut_RangeMax t + 1; RangeMax = ut_RangeMax t + sz
      in t\<lparr>ut_RangeMin := RangeMin,
           ut_RangeMax := (if RangeMax \<ge> ut_DataSize t - 1 then ut_DataSize t - 1 else RangeMax)\<rparr>)"

text \<open>The size of a chunk after the first one: computed in 32 bits.\<close>

definition next_size :: "updown_task \<Rightarrow> u64" where
  "next_size t = ucast (min (ut_ChunkSize_U32 t) (ucast (ut_DataSize t - ut_RangeMin t)))"

definition range_expected :: "u64 \<times> u64 \<times> u64 \<Rightarrow> updown_task \<Rightarrow> bool" where
  "range_expected rg t \<longleftrightarrow>
     (case rg of (RangeMin, RangeMax, DataSize) \<Rightarrow>
        RangeMin = ut_RangeMin t \<and> RangeMax = ut_RangeMax t \<and> RangeMax \<le> ut_DataSize t \<and> DataSize = ut_DataSize t)"

text \<open>
  The end of both handlers after a chunk was moved: the \<^verbatim>\<open>Content-Range\<close> of the response, then the end
  of the task or the next range.
\<close>

definition finish_chunk ::
    "string \<Rightarrow> u64 \<Rightarrow> u64 \<Rightarrow> updown_task \<Rightarrow> http_response \<Rightarrow> task_iter \<Rightarrow> updown_server \<Rightarrow>
     (http_response \<times> updown_server) handled" where
  "finish_chunk session RangeMax sz t rs it S =
     (let rs1 = rs\<lparr>rs_headers := (rs_headers rs)(''Content-Range'' :=
             snprintf_buf 0x100 (content_range (ut_RangeMin t) (ut_RangeMax t) (ut_DataSize t)))\<rparr>
      in if RangeMax \<ge> ut_DataSize t - 1 then TerminateUpDownTask OK_200 rs1 it S
         else Answered (rs1\<lparr>rs_status := PartialContent_206\<rparr>,
                        S\<lparr>ud_tasks := (ud_tasks S)(session \<mapsto> advance_task sz t)\<rparr>))"

section \<open>Download\<close>

text \<open>What a file holds; an open file is never removed.\<close>

definition file_bytes :: "updown_server \<Rightarrow> string \<Rightarrow> byte list" where
  "file_bytes S path = (case ud_fs S path of Some bs \<Rightarrow> bs | None \<Rightarrow> [])"

text \<open>The first request of a session: the file is opened and the chunk size is the end of its range plus one.\<close>

definition download_first ::
    "io_device \<Rightarrow> u32 \<Rightarrow> string \<times> u64 \<times> u64 \<times> u64 \<Rightarrow> http_response \<Rightarrow> updown_server \<Rightarrow> (updown_task \<times> u64) stage" where
  "download_first io now rg rs S =
     (case rg of (path, RangeMin, RangeMax, DataSize) \<Rightarrow>
        if RangeMin = 0 \<and> RangeMax \<noteq> 0 \<and> DataSize = 0 then
          (case (if io_can_open io path then ud_fs S path else None) of
             None \<Rightarrow> Stop (TerminateUpDownTask 401 rs EndIter S)
           | Some bytes \<Rightarrow>
               (let sz = word_of_nat (length bytes);
                    t = \<lparr>ut_Start_U32 = now, ut_RangeMin = RangeMin, ut_RangeMax = RangeMax, ut_DataSize = sz,
                         ut_ChunkSize_U32 = ucast (RangeMax + 1), ut_pIo_X = Some \<lparr>if_path = path, if_pos = 0\<rparr>,
                         ut_pBuffer_U8 = True\<rparr>
                in if sz \<le> ucast (ut_ChunkSize_U32 t) then Go (t\<lparr>ut_RangeMax := sz - 1\<rparr>, sz)
                   else Go (t, ucast (ut_ChunkSize_U32 t))))
        else Stop (TerminateUpDownTask 406 rs EndIter S))"

definition download_next ::
    "string \<Rightarrow> updown_task \<Rightarrow> u64 \<times> u64 \<times> u64 \<Rightarrow> http_response \<Rightarrow> updown_server \<Rightarrow> (updown_task \<times> u64) stage" where
  "download_next session t rg rs S =
     (if ut_pIo_X t = None \<or> \<not> ut_pBuffer_U8 t then Stop AssertFailed
      else if range_expected rg t then Go (t, next_size t)
      else Stop (TerminateUpDownTask 406 rs (IterAt session) S))"

definition download_chunk ::
    "io_device \<Rightarrow> string \<Rightarrow> u64 \<Rightarrow> updown_task \<Rightarrow> u64 \<Rightarrow> http_response \<Rightarrow> task_iter \<Rightarrow> updown_server \<Rightarrow>
     (http_response \<times> updown_server) handled" where
  "download_chunk io session RangeMax t ReadSize rs it S =
     (case ut_pIo_X t of
        None \<Rightarrow> AssertFailed
      | Some f \<Rightarrow>
          (case fread1 (io_can_read io) (file_bytes S (if_path f)) (if_pos f) (unat ReadSize) of
             None \<Rightarrow> TerminateUpDownTask 500 rs it S
           | Some chunk \<Rightarrow>
               finish_chunk session RangeMax ReadSize (t\<lparr>ut_pIo_X := Some (f\<lparr>if_pos := if_pos f + unat ReadSize\<rparr>)\<rparr>)
                 (rs\<lparr>rs_body := chunk, rs_headers := (rs_headers rs)(''Content-Type'' := ''application/octet-stream'')\<rparr>) it S))"

definition GetDownload ::
    "io_device \<Rightarrow> u32 \<Rightarrow> (string \<Rightarrow> string option) \<Rightarrow> http_request \<Rightarrow> http_response \<Rightarrow> updown_server \<Rightarrow>
     (http_response \<times> updown_server) handled" where
  "GetDownload io now params rq rs S =
     (case read_request params rq rs S of
        Stop r \<Rightarrow> r
      | Go (path, RangeMin, RangeMax, DataSize) \<Rightarrow>
          (let session = rq_headers rq ''Session-Id''
           in case (case ud_tasks S session of
                      None \<Rightarrow> download_first io now (path, RangeMin, RangeMax, DataSize) rs S
                    | Some t \<Rightarrow> download_next session t (RangeMin, RangeMax, DataSize) rs S) of
                Stop r \<Rightarrow> r
              | Go (t, ReadSize) \<Rightarrow> download_chunk io session RangeMax t ReadSize rs (find_task S session) S))"

section \<open>Upload\<close>

text \<open>A write at a position of a file; behind the end the gap is filled with zeros.\<close>

definition write_at :: "nat \<Rightarrow> byte list \<Rightarrow> byte list \<Rightarrow> byte list" where
  "write_at pos old new = take pos old @ replicate (pos - length old) 0 @ new @ drop (pos + length new) old"

definition upload_first ::
    "io_device \<Rightarrow> u32 \<Rightarrow> string \<times> u64 \<times> u64 \<times> u64 \<Rightarrow> http_response \<Rightarrow> updown_server \<Rightarrow>
     (updown_task \<times> u64 \<times> updown_server) stage" where
  "upload_first io now rg rs S =
     (case rg of (path, RangeMin, RangeMax, DataSize) \<Rightarrow>
        if RangeMin = 0 \<and> RangeMax \<noteq> 0 \<and> DataSize \<noteq> 0 \<and> RangeMax < DataSize then
          (if io_can_open io path then
             (let t = \<lparr>ut_Start_U32 = now, ut_RangeMin = RangeMin, ut_RangeMax = RangeMax, ut_DataSize = DataSize,
                       ut_ChunkSize_U32 = ucast (RangeMax + 1), ut_pIo_X = Some \<lparr>if_path = path, if_pos = 0\<rparr>,
                       ut_pBuffer_U8 = False\<rparr>
              in Go (t, if DataSize \<le> ucast (ut_ChunkSize_U32 t) then DataSize else ucast (ut_ChunkSize_U32 t),
                     S\<lparr>ud_fs := (ud_fs S)(path \<mapsto> [])\<rparr>))
           else Stop (TerminateUpDownTask 401 rs EndIter S))
        else Stop (TerminateUpDownTask 406 rs EndIter S))"

definition upload_next ::
    "string \<Rightarrow> updown_task \<Rightarrow> u64 \<times> u64 \<times> u64 \<Rightarrow> http_response \<Rightarrow> updown_server \<Rightarrow>
     (updown_task \<times> u64 \<times> updown_server) stage" where
  "upload_next session t rg rs S =
     (if ut_pIo_X t = None \<or> ut_pBuffer_U8 t then Stop AssertFailed
      else if range_expected rg t then Go (t, next_size t, S)
      else Stop (TerminateUpDownTask 406 rs (IterAt session) S))"

definition upload_write ::
    "io_device \<Rightarrow> string \<Rightarrow> u64 \<Rightarrow> updown_task \<Rightarrow> u64 \<Rightarrow> byte list \<Rightarrow> http_response \<Rightarrow> task_iter \<Rightarrow> updown_server \<Rightarrow>
     (http_response \<times> updown_server) handled" where
  "upload_write io session RangeMax t WriteSize body rs it S =
     (if unat WriteSize = length body then
        (case ut_pIo_X t of
           None \<Rightarrow> AssertFailed
         | Some f \<Rightarrow>
             (let old = file_bytes S (if_path f);
                  k = min (io_accepts io old body) (length body);
                  S1 = S\<lparr>ud_fs := (ud_fs S)(if_path f \<mapsto> write_at (if_pos f) old (take k body))\<rparr>
              in if 0 < length body \<and> k = length body
                 then finish_chunk session RangeMax WriteSize (t\<lparr>ut_pIo_X := Some (f\<lparr>if_pos := if_pos f + k\<rparr>)\<rparr>) rs it S1
                 else TerminateUpDownTask 507 rs it S1))
      else TerminateUpDownTask 500 rs it S)"

definition PostUpload ::
    "io_device \<Rightarrow> u32 \<Rightarrow> (string \<Rightarrow> string option) \<Rightarrow> http_request \<Rightarrow> http_response \<Rightarrow> updown_server \<Rightarrow>
     (http_response \<times> updown_server) handled" where
  "PostUpload io now params rq rs S =
     (case read_request params rq rs S of
        Stop r \<Rightarrow> r
      | Go (path, RangeMin, RangeMax, DataSize) \<Rightarrow>
          (let session = rq_headers rq ''Session-Id''
           in case (case ud_tasks S session of
                      None \<Rightarrow> upload_first io now (path, RangeMin, RangeMax, DataSize) rs S
                    | Some t \<Rightarrow> upload_next session t (RangeMin, RangeMax, DataSize) rs S) of
                Stop r \<Rightarrow> r
              | Go (t, WriteSize, S1) \<Rightarrow>
                  upload_write io session RangeMax t WriteSize (rq_body rq) rs (find_task S session) S1))"

section \<open>Chunks of a session\<close>

text \<open>
  The task of a session after \<open>k\<close> chunks of \<open>c\<close> bytes of a file of \<open>n\<close> bytes, when there are more.
\<close>

definition task_at :: "bool \<Rightarrow> string \<Rightarrow> nat \<Rightarrow> nat \<Rightarrow> nat \<Rightarrow> updown_task \<Rightarrow> bool" where
  "task_at buffer path n c k t \<longleftrightarrow>
     ut_RangeMin t = word_of_nat (k * c) \<and> ut_RangeMax t = word_of_nat (min (Suc k * c) n) - 1 \<and>
     ut_DataSize t = word_of_nat n \<and> (c < n \<longrightarrow> ut_ChunkSize_U32 t = word_of_nat c) \<and>
     ut_pIo_X t = Some \<lparr>if_path = path, if_pos = k * c\<rparr> \<and> (ut_pBuffer_U8 t \<longleftrightarrow> buffer)"

text \<open>
  The sizes the handlers can count: chunks of at least two bytes, and after the first chunk a rest whose
  32 bit value gives the right size.  It does when the rest after the first chunk fits 32 bits.
\<close>

definition sized :: "nat \<Rightarrow> nat \<Rightarrow> nat \<Rightarrow> bool" where
  "sized n c k \<longleftrightarrow> 2 \<le> c \<and> c < 2 ^ 32 \<and> n < 2 ^ 63 \<and>
     (k = 0 \<or> min c (n - k * c) = min c ((n - k * c) mod 2 ^ 32))"

definition countable :: "nat \<Rightarrow> nat \<Rightarrow> bool" where
  "countable n c \<longleftrightarrow> 2 \<le> c \<and> c < 2 ^ 32 \<and> n < 2 ^ 32 + c"

lemma sized_bounds: "sized n c k \<Longrightarrow> n < 2 ^ 63" "sized n c k \<Longrightarrow> 0 < c" "sized n c k \<Longrightarrow> min c n < 2 ^ 32"
  by (auto simp: sized_def min_def)

lemma sized_0: "sized n c k \<Longrightarrow> sized n c 0"
  by (simp add: sized_def)

lemma countable_bounds: "countable n c \<Longrightarrow> n < 2 ^ 63" "countable n c \<Longrightarrow> 0 < c"
  by (auto simp: countable_def)

lemma countable_sized:
  assumes "countable n c"
  shows "sized n c k"
proof (cases "k = 0")
  case True
  then show ?thesis using assms by (auto simp: sized_def countable_def)
next
  case False
  then have "c \<le> k * c" by (cases k) simp_all
  with assms have "n - k * c < 2 ^ 32" unfolding countable_def by linarith
  then show ?thesis using assms by (auto simp: sized_def countable_def)
qed

lemma unat_u64_of_nat: "m < 2 ^ 63 \<Longrightarrow> unat (word_of_nat m :: u64) = m"
  by (rule unat_of_nat_lt) simp

lemma unat_u32_of_nat: "m < 2 ^ 32 \<Longrightarrow> unat (word_of_nat m :: u32) = m"
  by (rule unat_of_nat_lt) simp

lemma ucast_u64_of_nat: "(ucast (word_of_nat m :: u64) :: u32) = word_of_nat m"
  by (simp add: unsigned_of_nat word_of_nat_eq_iff)

lemma last_byte_reached:
  assumes "0 < q" "q \<le> n" "n < 2 ^ 63"
  shows "word_of_nat n - 1 \<le> (word_of_nat q - 1 :: u64) \<longleftrightarrow> q = n"
  using last_byte_le [where 'a = 64, of n q] assms by auto

lemma next_size_value:
  assumes t: "task_at b path n c k t" and c: "c < 2 ^ 32" and k: "0 < k" "k * c < n"
  shows "unat (next_size t) = min c ((n - k * c) mod 2 ^ 32)"
proof -
  have "c \<le> k * c" using k(1) by (cases k) simp_all
  with k(2) have cn: "c < n" by linarith
  have "ut_DataSize t - ut_RangeMin t = word_of_nat (n - k * c)"
    using t k(2) by (simp add: task_at_def of_nat_diff)
  then have "next_size t = ucast (min (word_of_nat c :: u32) (word_of_nat (n - k * c)))"
    using t cn by (simp add: next_size_def task_at_def ucast_u64_of_nat)
  moreover have "unat (word_of_nat (n - k * c) :: u32) = (n - k * c) mod 2 ^ 32"
    by (simp add: unsigned_of_nat take_bit_eq_mod)
  then have "unat (min (word_of_nat c :: u32) (word_of_nat (n - k * c))) = min c ((n - k * c) mod 2 ^ 32)"
    using c by (auto simp: min_def word_le_nat_alt unat_u32_of_nat)
  ultimately show ?thesis by simp
qed

lemma next_size_at:
  assumes t: "task_at b path n c k t" and nc: "sized n c k" and k: "0 < k" "k * c < n"
  shows "unat (next_size t) = min c (n - k * c)"
  using next_size_value [OF t _ k] nc k(1) by (simp add: sized_def)

lemma advance_task_fields:
  "ut_RangeMin (advance_task sz t) = ut_RangeMax t + 1"
  "ut_RangeMax (advance_task sz t) =
     (if ut_DataSize t - 1 \<le> ut_RangeMax t + sz then ut_DataSize t - 1 else ut_RangeMax t + sz)"
  "ut_DataSize (advance_task sz t) = ut_DataSize t" "ut_ChunkSize_U32 (advance_task sz t) = ut_ChunkSize_U32 t"
  "ut_pIo_X (advance_task sz t) = ut_pIo_X t" "ut_pBuffer_U8 (advance_task sz t) = ut_pBuffer_U8 t"
  by (simp_all add: advance_task_def Let_def)

lemma advance_task_at:
  assumes t: "task_at b path n c k t" and nc: "sized n c k" and k: "Suc k * c < n"
  shows "task_at b path n c (Suc k) (advance_task (word_of_nat c) (t\<lparr>ut_pIo_X := Some \<lparr>if_path = path, if_pos = Suc k * c\<rparr>\<rparr>))"
    (is "task_at b path n c (Suc k) (advance_task _ ?t)")
proof -
  define q where "q = Suc k * c"
  have "0 < c" using nc by (simp add: sized_def)
  then have a: "k * c < q" "q \<le> n" "q = min (k * c + c) n" using k by (auto simp: q_def)
  have mx: "ut_RangeMax ?t = word_of_nat q - 1" "ut_DataSize ?t = word_of_nat n"
    using t k by (simp_all add: task_at_def q_def)
  have nxt: "(if word_of_nat n - 1 \<le> (word_of_nat q + word_of_nat (q - k * c) - 1 :: u64) then word_of_nat n - 1
      else word_of_nat q + word_of_nat (q - k * c) - 1) = (word_of_nat (min (q + c) n) - 1 :: u64)"
    by (rule upload_next_max [where p = "k * c"]) (use a sized_bounds(1) [OF nc] in simp_all)
  have "q - k * c = c" by (simp add: q_def)
  then have e: "word_of_nat q + word_of_nat (q - k * c) - 1 = ut_RangeMax ?t + word_of_nat c"
    unfolding mx by (simp add: algebra_simps)
  have "(if ut_DataSize ?t - 1 \<le> ut_RangeMax ?t + word_of_nat c then ut_DataSize ?t - 1
      else ut_RangeMax ?t + word_of_nat c) = word_of_nat (min (q + c) n) - 1"
    using nxt unfolding e mx(2) .
  then have "ut_RangeMax (advance_task (word_of_nat c) ?t) = word_of_nat (min (q + c) n) - 1"
    unfolding advance_task_fields .
  moreover have "ut_RangeMin (advance_task (word_of_nat c) ?t) = word_of_nat q"
    unfolding advance_task_fields mx by simp
  moreover have "q + c = Suc (Suc k) * c" by (simp add: q_def)
  ultimately have "ut_RangeMin (advance_task (word_of_nat c) ?t) = word_of_nat (Suc k * c)"
      "ut_RangeMax (advance_task (word_of_nat c) ?t) = word_of_nat (min (Suc (Suc k) * c) n) - 1"
    by (simp_all only: q_def)
  then show ?thesis
    using t unfolding task_at_def advance_task_fields(3-6) by simp
qed

text \<open>The range of the next chunk is the one the task expects.\<close>

lemma range_expected_at:
  assumes t: "task_at b path n c k t" and nc: "sized n c 0" and k: "k * c < n"
  shows "range_expected (lo, hi, sz) t \<longleftrightarrow>
    lo = word_of_nat (k * c) \<and> hi = word_of_nat (min (Suc k * c) n) - 1 \<and> sz = word_of_nat n"
proof -
  let ?q = "min (Suc k * c) n"
  have q: "0 < ?q" "?q \<le> n" "n < 2 ^ 63" using k sized_bounds [OF nc] by auto
  have "word_of_nat ?q - 1 \<le> (word_of_nat n :: u64)"
    unfolding word_le_nat_alt using q by (simp add: unat_last_byte unat_u64_of_nat)
  then show ?thesis using t by (auto simp: range_expected_def task_at_def)
qed

section \<open>One request of a session\<close>

text \<open>The request is addressed to \<open>path\<close>, and names a session and a range.\<close>

definition addressed :: "(string \<Rightarrow> string option) \<Rightarrow> updown_server \<Rightarrow> string \<Rightarrow> bool" where
  "addressed params S path \<longleftrightarrow> (\<exists>dir file. params ''dir'' = Some dir \<and> params ''file'' = Some file \<and>
     path = request_path S dir file \<and> \<not> has_dotdot path)"

definition asks_range :: "http_request \<Rightarrow> string \<Rightarrow> u64 \<Rightarrow> u64 \<Rightarrow> u64 \<Rightarrow> bool" where
  "asks_range rq session lo hi sz \<longleftrightarrow>
     rq_headers rq ''Session-Id'' = session \<and> rq_headers rq ''Content-Range'' = content_range lo hi sz"

lemma read_request_addressed:
  "addressed params S path \<Longrightarrow> asks_range rq session lo hi sz \<Longrightarrow> read_request params rq rs S = Go (path, lo, hi, sz)"
  by (auto simp: addressed_def asks_range_def read_request_def Let_def)

text \<open>What a request of one session leaves alone: the other tasks and the other files.\<close>

definition touches_only :: "string \<Rightarrow> string \<Rightarrow> updown_server \<Rightarrow> updown_server \<Rightarrow> bool" where
  "touches_only session path S S' \<longleftrightarrow> ud_root S' = ud_root S \<and>
     (\<forall>s. s \<noteq> session \<longrightarrow> ud_tasks S' s = ud_tasks S s) \<and> (\<forall>p. p \<noteq> path \<longrightarrow> ud_fs S' p = ud_fs S p)"

lemma last_chunk:
  assumes "sized n c k" "k * c < n"
  shows "word_of_nat n - 1 \<le> (word_of_nat (min (Suc k * c) n) - 1 :: u64) \<longleftrightarrow> n \<le> Suc k * c"
  by (subst last_byte_reached [OF _ _ sized_bounds(1) [OF assms(1)]])
    (use assms sized_bounds(2) [OF assms(1)] in auto)

lemma finish_chunk_at:
  assumes t: "task_at b path n c k t" and nc: "sized n c k" and k: "k * c < n"
    and w: "unat w = min c (n - k * c)" and it: "it \<noteq> NoIter" "it = EndIter \<Longrightarrow> ud_tasks S session = None"
      "\<And>s. it = IterAt s \<Longrightarrow> s = session"
    and q: "word_of_nat n - 1 \<le> mx \<longleftrightarrow> n \<le> Suc k * c"
  shows "\<exists>resp S'. finish_chunk session mx w
        (t\<lparr>ut_pIo_X := Some \<lparr>if_path = path, if_pos = k * c + unat w\<rparr>\<rparr>) rs it S = Answered (resp, S') \<and>
    rs_status resp = (if n \<le> Suc k * c then OK_200 else PartialContent_206) \<and>
    rs_headers resp ''Content-Range'' =
      content_range (word_of_nat (k * c)) (word_of_nat (min (Suc k * c) n) - 1) (word_of_nat n) \<and>
    rs_body resp = rs_body rs \<and> ud_root S' = ud_root S \<and> ud_fs S' = ud_fs S \<and>
    (\<forall>s. s \<noteq> session \<longrightarrow> ud_tasks S' s = ud_tasks S s) \<and>
    (if n \<le> Suc k * c then ud_tasks S' session = None
     else \<exists>t'. ud_tasks S' session = Some t' \<and> task_at b path n c (Suc k) t')"
proof -
  let ?q = "min (Suc k * c) n"
  let ?t = "t\<lparr>ut_pIo_X := Some \<lparr>if_path = path, if_pos = k * c + unat w\<rparr>\<rparr>"
  have f: "ut_RangeMin ?t = word_of_nat (k * c)" "ut_RangeMax ?t = word_of_nat ?q - 1" "ut_DataSize ?t = word_of_nat n"
    using t by (simp_all add: task_at_def)
  show ?thesis
  proof (cases "n \<le> Suc k * c")
    case True
    then show ?thesis using it unfolding finish_chunk_def Let_def f q
      by (cases it) (auto simp: TerminateUpDownTask_def)
  next
    case False
    then have "min c (n - k * c) = c" by auto
    with w have "unat w = c" by simp
    then have "w = word_of_nat c" by (metis of_nat_unat ucast_id)
    moreover have "k * c + unat w = Suc k * c" using w \<open>min c (n - k * c) = c\<close> by simp
    ultimately have "task_at b path n c (Suc k) (advance_task w ?t)"
      using advance_task_at [OF t nc] False by (simp add: add.commute)
    then show ?thesis using False unfolding finish_chunk_def Let_def f q by simp
  qed
qed

section \<open>The upload of a session\<close>

text \<open>The server after \<open>k\<close> chunks of an upload; after the last one the task is gone and the file complete.\<close>

definition upload_at :: "string \<Rightarrow> string \<Rightarrow> byte list \<Rightarrow> nat \<Rightarrow> nat \<Rightarrow> updown_server \<Rightarrow> bool" where
  "upload_at session path file c k S \<longleftrightarrow>
     (if k = 0 then ud_tasks S session = None
      else if k * c < length file then
        (\<exists>t. ud_tasks S session = Some t \<and> task_at False path (length file) c k t) \<and>
        ud_fs S path = Some (take (k * c) file)
      else ud_tasks S session = None \<and> ud_fs S path = Some file)"

definition willing :: "io_device \<Rightarrow> string \<Rightarrow> bool" where
  "willing io path \<longleftrightarrow> io_can_open io path \<and> (\<forall>old new. length new \<le> io_accepts io old new)"

lemma write_at_end: "write_at (length old) old new = old @ new"
  by (simp add: write_at_def)

lemma upload_first_at:
  assumes nc: "sized n c 0" "2 \<le> n" and io: "io_can_open io path"
  shows "\<exists>t w. upload_first io now (path, word_of_nat 0, word_of_nat (min c n) - 1, word_of_nat n) rs S =
      Go (t, w, S\<lparr>ud_fs := (ud_fs S)(path \<mapsto> [])\<rparr>) \<and> task_at False path n c 0 t \<and> unat w = min c n"
proof -
  let ?q = "min c n"
  have q: "2 \<le> ?q" "?q \<le> n" "?q < 2 ^ 32" "n < 2 ^ 63"
    using nc sized_bounds [OF nc(1)] by (auto simp: sized_def)
  have u: "unat (word_of_nat ?q - 1 :: u64) = ?q - 1" using q by (subst unat_last_byte) simp_all
  have "(word_of_nat ?q - 1 :: u64) \<noteq> 0" using u q(1) by (metis One_nat_def diff_is_0_eq not_less_eq_eq numeral_2_eq_2 unat_0)
  moreover have "(word_of_nat n :: u64) \<noteq> 0"
    using nc(2) q(4) by (metis unat_0 unat_u64_of_nat not_numeral_le_zero)
  moreover have "word_of_nat ?q - 1 < (word_of_nat n :: u64)"
    unfolding word_less_nat_alt u unat_u64_of_nat [OF q(4)] using q(1,2) by linarith
  moreover have "(ucast (word_of_nat ?q - 1 + 1 :: u64) :: u32) = word_of_nat ?q" by (simp add: ucast_u64_of_nat)
  moreover have "word_of_nat n \<le> (ucast (word_of_nat ?q :: u32) :: u64) \<longleftrightarrow> n \<le> c"
    unfolding word_le_nat_alt using q by (auto simp: unat_u64_of_nat unat_u32_of_nat min_def)
  moreover have "unat (ucast (word_of_nat ?q :: u32) :: u64) = ?q" using q(3) by (simp add: unat_u32_of_nat)
  ultimately show ?thesis
    using io q(4) by (auto simp: upload_first_def Let_def task_at_def unat_u64_of_nat min_def)
qed

lemma upload_write_at:
  assumes t: "task_at False path (length file) c k t" and nc: "sized (length file) c k" and k: "k * c < length file"
    and w: "unat w = min c (length file - k * c)" and io: "willing io path"
    and fs: "ud_fs S path = Some (take (k * c) file)" and body: "body = take c (drop (k * c) file)"
    and it: "it \<noteq> NoIter" "it = EndIter \<Longrightarrow> ud_tasks S session = None" "\<And>s. it = IterAt s \<Longrightarrow> s = session"
  shows "\<exists>resp S'. upload_write io session (word_of_nat (min (Suc k * c) (length file)) - 1) t w body rs it S =
      Answered (resp, S') \<and>
    rs_status resp = (if length file \<le> Suc k * c then OK_200 else PartialContent_206) \<and>
    rs_headers resp ''Content-Range'' =
      content_range (word_of_nat (k * c)) (word_of_nat (min (Suc k * c) (length file)) - 1) (word_of_nat (length file)) \<and>
    touches_only session path S S' \<and> upload_at session path file c (Suc k) S'"
proof -
  let ?S1 = "S\<lparr>ud_fs := (ud_fs S)(path \<mapsto> take (Suc k * c) file)\<rparr>"
  have len: "length body = unat w" "0 < unat w" using k w body sized_bounds(2) [OF nc] by auto
  have pio: "ut_pIo_X t = Some \<lparr>if_path = path, if_pos = k * c\<rparr>" using t by (simp add: task_at_def)
  have old: "file_bytes S path = take (k * c) file" by (simp add: file_bytes_def fs)
  have "write_at (k * c) (take (k * c) file) body = take (k * c) file @ body"
    using write_at_end [of "take (k * c) file" body] k by simp
  then have new: "write_at (k * c) (take (k * c) file) body = take (Suc k * c) file"
    unfolding body by (simp add: take_append_slice add.commute)
  have acc: "min (io_accepts io old body) (unat w) = unat w" for old
    using io unfolding len(1) [symmetric] by (auto simp: willing_def min_def intro: antisym)
  obtain resp S' where r: "finish_chunk session (word_of_nat (min (Suc k * c) (length file)) - 1) w
        (t\<lparr>ut_pIo_X := Some \<lparr>if_path = path, if_pos = k * c + unat w\<rparr>\<rparr>) rs it ?S1 = Answered (resp, S')"
    "rs_status resp = (if length file \<le> Suc k * c then OK_200 else PartialContent_206)"
    "rs_headers resp ''Content-Range'' =
      content_range (word_of_nat (k * c)) (word_of_nat (min (Suc k * c) (length file)) - 1) (word_of_nat (length file))"
    "ud_root S' = ud_root S" "ud_fs S' = ud_fs ?S1" "\<forall>s. s \<noteq> session \<longrightarrow> ud_tasks S' s = ud_tasks S s"
    "if length file \<le> Suc k * c then ud_tasks S' session = None
     else \<exists>t'. ud_tasks S' session = Some t' \<and> task_at False path (length file) c (Suc k) t'"
    using finish_chunk_at [OF t nc k w it(1) _ _ last_chunk [OF nc k], of ?S1 session rs] it(2,3) by auto
  have "upload_write io session (word_of_nat (min (Suc k * c) (length file)) - 1) t w body rs it S = Answered (resp, S')"
    using r(1) len by (simp add: upload_write_def pio old acc new Let_def)
  moreover have "touches_only session path S S'" using r(4-6) by (simp add: touches_only_def)
  moreover have "upload_at session path file c (Suc k) S'"
    using r(5,7) by (auto simp: upload_at_def not_le split: if_splits)
  ultimately show ?thesis using r(2,3) by blast
qed

text \<open>One request of the plan: from \<open>k\<close> chunks to one more, answered 206 until the file is complete.\<close>

lemma PostUpload_chunk:
  assumes at: "upload_at session path file c k S" and nc: "sized (length file) c k" "2 \<le> length file"
    and k: "k * c < length file" and io: "willing io path" and ad: "addressed params S path"
    and rq: "asks_range rq session (word_of_nat (k * c)) (word_of_nat (min (Suc k * c) (length file)) - 1)
        (word_of_nat (length file))" "rq_body rq = take c (drop (k * c) file)"
  shows "\<exists>resp S'. PostUpload io now params rq rs S = Answered (resp, S') \<and>
    rs_status resp = (if length file \<le> Suc k * c then OK_200 else PartialContent_206) \<and>
    rs_headers resp ''Content-Range'' =
      content_range (word_of_nat (k * c)) (word_of_nat (min (Suc k * c) (length file)) - 1) (word_of_nat (length file)) \<and>
    touches_only session path S S' \<and> upload_at session path file c (Suc k) S'"
proof -
  let ?n = "length file"
  let ?wr = "\<lambda>t w S. upload_write io session (word_of_nat (min (Suc k * c) ?n) - 1) t w (rq_body rq) rs (find_task S session)"
  note rd = read_request_addressed [OF ad rq(1)]
  have sid: "rq_headers rq ''Session-Id'' = session" using rq(1) by (simp add: asks_range_def)
  show ?thesis
  proof (cases "k = 0")
    case True
    let ?S1 = "S\<lparr>ud_fs := (ud_fs S)(path \<mapsto> [])\<rparr>"
    have none: "ud_tasks S session = None" using at True by (simp add: upload_at_def)
    obtain t w where t: "upload_first io now (path, word_of_nat 0, word_of_nat (min c ?n) - 1, word_of_nat ?n) rs S = Go (t, w, ?S1)"
        "task_at False path ?n c 0 t" "unat w = min c ?n"
      using upload_first_at [OF sized_0 [OF nc(1)] nc(2), of io path now rs S] io by (auto simp: willing_def)
    have run: "PostUpload io now params rq rs S = ?wr t w S ?S1"
      using t(1) none sid True rd by (simp add: PostUpload_def Let_def)
    have "\<exists>resp S'. ?wr t w S ?S1 = Answered (resp, S') \<and>
        rs_status resp = (if ?n \<le> Suc k * c then OK_200 else PartialContent_206) \<and>
        rs_headers resp ''Content-Range'' =
          content_range (word_of_nat (k * c)) (word_of_nat (min (Suc k * c) ?n) - 1) (word_of_nat ?n) \<and>
        touches_only session path ?S1 S' \<and> upload_at session path file c (Suc k) S'"
      by (rule upload_write_at [OF _ nc(1) k _ io]) (use t none rq(2) True in \<open>auto simp: find_task_def\<close>)
    then show ?thesis unfolding run by (auto simp: touches_only_def)
  next
    case False
    then obtain t where t: "ud_tasks S session = Some t" "task_at False path ?n c k t" "ud_fs S path = Some (take (k * c) file)"
      using at k by (auto simp: upload_at_def)
    have ok: "upload_next session t (word_of_nat (k * c), word_of_nat (min (Suc k * c) ?n) - 1, word_of_nat ?n) rs S =
        Go (t, next_size t, S)"
      using t(2) range_expected_at [OF t(2) sized_0 [OF nc(1)] k] by (simp add: upload_next_def task_at_def)
    have run: "PostUpload io now params rq rs S = ?wr t (next_size t) S S"
      using ok t(1) sid rd by (simp add: PostUpload_def Let_def)
    show ?thesis unfolding run
      by (rule upload_write_at [OF t(2) nc(1) k _ io t(3) rq(2)])
        (use t(1) next_size_at [OF t(2) nc(1) _ k] False in \<open>auto simp: find_task_def\<close>)
  qed
qed

section \<open>The download of a session\<close>

definition download_at :: "string \<Rightarrow> string \<Rightarrow> byte list \<Rightarrow> nat \<Rightarrow> nat \<Rightarrow> updown_server \<Rightarrow> bool" where
  "download_at session path file c k S \<longleftrightarrow> ud_fs S path = Some file \<and>
     (if k = 0 \<or> length file \<le> k * c then ud_tasks S session = None
      else \<exists>t. ud_tasks S session = Some t \<and> task_at True path (length file) c k t)"

text \<open>The range a download asks for: the first request does not know the size of the file.\<close>

definition asks_chunk :: "http_request \<Rightarrow> string \<Rightarrow> nat \<Rightarrow> nat \<Rightarrow> nat \<Rightarrow> bool" where
  "asks_chunk rq session n c k \<longleftrightarrow>
     (if k = 0 then asks_range rq session 0 (word_of_nat c - 1) 0
      else asks_range rq session (word_of_nat (k * c)) (word_of_nat (min (Suc k * c) n) - 1) (word_of_nat n))"

definition readable :: "io_device \<Rightarrow> string \<Rightarrow> bool" where
  "readable io path \<longleftrightarrow> io_can_open io path \<and> (\<forall>pos n. io_can_read io pos n)"

lemma download_first_at:
  assumes nc: "sized n c 0" "0 < n" and io: "readable io path" and fs: "ud_fs S path = Some file" "length file = n"
  shows "\<exists>t w. download_first io now (path, 0, word_of_nat c - 1, 0) rs S = Go (t, w) \<and>
    task_at True path n c 0 t \<and> unat w = min c n"
proof -
  have c: "2 \<le> c" "c < 2 ^ 32" "n < 2 ^ 63" using nc sized_bounds [OF nc(1)] by (auto simp: sized_def)
  have "unat (word_of_nat c - 1 :: u64) = c - 1" using c by (subst unat_last_byte) simp_all
  then have "(word_of_nat c - 1 :: u64) \<noteq> 0"
    using c(1) by (metis One_nat_def diff_is_0_eq not_less_eq_eq numeral_2_eq_2 unat_0)
  moreover have "(ucast (word_of_nat c - 1 + 1 :: u64) :: u32) = word_of_nat c" by (simp add: ucast_u64_of_nat)
  moreover have "word_of_nat n \<le> (ucast (word_of_nat c :: u32) :: u64) \<longleftrightarrow> n \<le> c"
    unfolding word_le_nat_alt using c by (simp add: unat_u64_of_nat unat_u32_of_nat)
  moreover have "unat (ucast (word_of_nat c :: u32) :: u64) = c" using c(2) by (simp add: unat_u32_of_nat)
  ultimately show ?thesis
    using io fs c(3) by (auto simp: download_first_def readable_def Let_def task_at_def unat_u64_of_nat min_def)
qed

text \<open>One request of a download: the next chunk of the file, with 206 until it is the last.\<close>

lemma GetDownload_chunk:
  assumes at: "download_at session path file c k S" and nc: "sized (length file) c k"
    and k: "k * c < length file" and io: "readable io path" and ad: "addressed params S path"
    and rq: "asks_chunk rq session (length file) c k"
  shows "\<exists>resp S'. GetDownload io now params rq rs S = Answered (resp, S') \<and>
    rs_status resp = (if length file \<le> Suc k * c then OK_200 else PartialContent_206) \<and>
    rs_headers resp ''Content-Range'' =
      content_range (word_of_nat (k * c)) (word_of_nat (min (Suc k * c) (length file)) - 1) (word_of_nat (length file)) \<and>
    rs_body resp = take c (drop (k * c) file) \<and>
    touches_only session path S S' \<and> download_at session path file c (Suc k) S'"
proof -
  let ?n = "length file"
  define lo hi sz where "lo = (if k = 0 then 0 else word_of_nat (k * c) :: u64)"
    and "hi = (if k = 0 then word_of_nat c - 1 else word_of_nat (min (Suc k * c) ?n) - 1 :: u64)"
    and "sz = (if k = 0 then 0 else word_of_nat ?n :: u64)"
  have rg: "asks_range rq session lo hi sz" using rq by (auto simp: asks_chunk_def lo_def hi_def sz_def)
  note rd = read_request_addressed [OF ad rg]
  have sid: "rq_headers rq ''Session-Id'' = session" using rg by (simp add: asks_range_def)
  have fs: "ud_fs S path = Some file" using at by (simp add: download_at_def)
  have c: "0 < c" "c < 2 ^ 63" "?n < 2 ^ 63" using nc sized_bounds [OF nc] by (auto simp: sized_def)
  have "word_of_nat ?n - 1 \<le> (word_of_nat c - 1 :: u64) \<longleftrightarrow> ?n \<le> c"
    by (rule last_byte_le) (use c k in auto)
  then have mx: "word_of_nat ?n - 1 \<le> hi \<longleftrightarrow> ?n \<le> Suc k * c"
    using last_chunk [OF nc k] by (simp add: hi_def)
  obtain t w where go: "(case ud_tasks S session of None \<Rightarrow> download_first io now (path, lo, hi, sz) rs S
        | Some t \<Rightarrow> download_next session t (lo, hi, sz) rs S) = Go (t, w)"
      "task_at True path ?n c k t" "unat w = min c (?n - k * c)"
  proof (cases "k = 0")
    case True
    then show ?thesis
      using that download_first_at [OF sized_0 [OF nc] _ io fs, of now rs] at k
      by (auto simp: lo_def hi_def sz_def download_at_def)
  next
    case False
    then obtain t where t: "ud_tasks S session = Some t" "task_at True path ?n c k t"
      using at k by (auto simp: download_at_def)
    have "download_next session t (lo, hi, sz) rs S = Go (t, next_size t)"
      using t(2) False range_expected_at [OF t(2) sized_0 [OF nc] k]
      by (simp add: download_next_def task_at_def lo_def hi_def sz_def)
    then show ?thesis using that t next_size_at [OF t(2) nc _ k] False by simp
  qed
  have pio: "ut_pIo_X t = Some \<lparr>if_path = path, if_pos = k * c\<rparr>" using go(2) by (simp add: task_at_def)
  have chunk: "take (unat w) (drop (k * c) file) = take c (drop (k * c) file)" using go(3) by (simp add: min_def)
  have read: "fread1 (io_can_read io) (file_bytes S path) (k * c) (unat w) = Some (take c (drop (k * c) file))"
    using io fs go(3) k c(1) chunk by (auto simp: fread1_Some_iff readable_def file_bytes_def)
  let ?rs = "rs\<lparr>rs_body := take c (drop (k * c) file),
    rs_headers := (rs_headers rs)(''Content-Type'' := ''application/octet-stream'')\<rparr>"
  have run: "GetDownload io now params rq rs S = finish_chunk session hi w
      (t\<lparr>ut_pIo_X := Some \<lparr>if_path = path, if_pos = k * c + unat w\<rparr>\<rparr>) ?rs (find_task S session) S"
    using go(1) rd sid pio read by (simp add: GetDownload_def download_chunk_def Let_def)
  have it: "find_task S session \<noteq> NoIter" "find_task S session = EndIter \<Longrightarrow> ud_tasks S session = None"
    "\<And>s. find_task S session = IterAt s \<Longrightarrow> s = session"
    by (auto simp: find_task_def split: if_splits)
  from finish_chunk_at [OF go(2) nc k go(3) it mx, of ?rs] show ?thesis
    unfolding run using fs by (fastforce simp: touches_only_def download_at_def not_le)
qed

text \<open>A request for another range ends the task with 406.\<close>

lemma GetDownload_mismatch:
  assumes at: "download_at session path file c k S" and nc: "sized (length file) c k"
    and k: "0 < k" "k * c < length file" and ad: "addressed params S path"
    and rq: "asks_range rq session lo hi sz" "lo \<noteq> word_of_nat (k * c)"
  shows "\<exists>resp. GetDownload io now params rq rs S = Answered (resp, S\<lparr>ud_tasks := (ud_tasks S)(session := None)\<rparr>) \<and>
    rs_status resp = 406"
proof -
  obtain t where t: "ud_tasks S session = Some t" "task_at True path (length file) c k t"
    using at k by (auto simp: download_at_def)
  have "download_next session t (lo, hi, sz) rs S = Stop (TerminateUpDownTask 406 rs (IterAt session) S)"
    using t(2) range_expected_at [OF t(2) sized_0 [OF nc] k(2)] rq(2) by (simp add: download_next_def task_at_def)
  then show ?thesis
    using t(1) rq(1) read_request_addressed [OF ad rq(1)]
    by (simp add: GetDownload_def asks_range_def TerminateUpDownTask_def)
qed

end
