(* ===== verification/Transfers.thy ===== *)
theory Transfers
  imports TransferServer
begin

text \<open>
  The client of \<^verbatim>\<open>src/src/bofwebclient.cpp\<close> against the transfer handlers of \<^verbatim>\<open>src/tests/src/ut_webapp.cpp\<close>:
  what an upload stores, what a download brings back, and what the requests of other sessions can do to
  one in progress.
\<close>

section \<open>The server as the other side of an exchange\<close>

text \<open>
  The handlers behind their routes: a POST goes to \<open>PostUpload\<close>, a GET to \<open>GetDownload\<close>, and other methods
  have no route.  \<open>params uri\<close> are the path parameters cpp-httplib finds in \<open>uri\<close>, \<open>fresh\<close> the response it hands
  to a handler.  A handler that does not end with a response takes the server down: nothing answers from then
  on.  Requests are handled one at a time, whole: the pool of threads that runs the handlers, and the map of
  tasks they share without a lock, are not modelled.  Neither is the limit on the payload of a request here:
  \<open>TransferService\<close> has the whole server, with its constructor, its routes and that limit.
\<close>

definition serve_request ::
    "io_device \<Rightarrow> u32 \<Rightarrow> (string \<Rightarrow> string \<Rightarrow> string option) \<Rightarrow> http_response \<Rightarrow> http_request \<Rightarrow> updown_server \<Rightarrow>
     (http_response \<times> updown_server) handled" where
  "serve_request io now params fresh rq S =
     (if rq_method rq = HTTP_POST then PostUpload io now (params (rq_uri rq)) rq fresh S
      else if rq_method rq = HTTP_GET then GetDownload io now (params (rq_uri rq)) rq fresh S
      else Answered (fresh\<lparr>rs_status := 404\<rparr>, S))"

definition updown_net ::
    "io_device \<Rightarrow> u32 \<Rightarrow> (string \<Rightarrow> string \<Rightarrow> string option) \<Rightarrow> http_response \<Rightarrow> updown_server option net" where
  "updown_net io now params fresh h rq w =
     (case w of
        None \<Rightarrow> (None, None)
      | Some S \<Rightarrow> (case serve_request io now params fresh rq S of
                     Answered (rs, S') \<Rightarrow> (Some rs, Some S')
                   | _ \<Rightarrow> (None, None)))"

lemma touches_only_trans:
  "touches_only session path S T \<Longrightarrow> touches_only session path T U \<Longrightarrow> touches_only session path S U"
  by (simp add: touches_only_def)

lemma touches_only_refl [simp]: "touches_only session path S S"
  by (simp add: touches_only_def)

lemma addressed_frame: "touches_only session path S S' \<Longrightarrow> addressed params S' p \<longleftrightarrow> addressed params S p"
  by (simp add: touches_only_def addressed_def request_path_def)

section \<open>Uploading to the server\<close>

text \<open>One turn of the client's loop against the server.\<close>

lemma upload_turn:
  assumes inv: "upload_inv E c k s" and nc: "sized (length (ue_file E)) c k" "2 \<le> length (ue_file E)"
    and k: "k * c < length (ue_file E)" and can: "\<And>pos n. ue_can_read E pos n"
    and net: "ue_net E = updown_net io now params fresh" and cl: "mpuHttpClient (us_client s) \<noteq> None"
    and w: "us_world s = Some S" and at: "upload_at (ue_session E) path (ue_file E) c k S"
    and io: "willing io path" and ad: "addressed (params (ue_uri E)) S path"
  shows "\<exists>s' S'. upload_step E s =
      (if length (ue_file E) \<le> Suc k * c then Inl (Returned True, s') else Inr s') \<and>
    us_world s' = Some S' \<and> mpuHttpClient (us_client s') \<noteq> None \<and>
    upload_at (ue_session E) path (ue_file E) c (Suc k) S' \<and> touches_only (ue_session E) path S S'"
proof -
  let ?n = "length (ue_file E)" and ?file = "ue_file E"
  note len = sized_bounds(1) [OF nc(1)]
  note f = upload_inv_facts [OF inv len]
  have pos: "us_pos s = k * c" using f(6) k by simp
  have q: "min (us_pos s + c) ?n = min (Suc k * c) ?n" using pos by (simp add: add.commute)
  have mn: "us_min s = word_of_nat (k * c)" and mx: "us_max s = word_of_nat (min (Suc k * c) ?n) - 1"
    using f(1,2) pos unfolding q by simp_all
  have rs: "unat (us_max s - us_min s + 1) = min c (?n - k * c)"
    using upload_inv_read_size [OF inv len] pos k by auto
  have chunk: "take (min c (?n - k * c)) (drop (k * c) ?file) = take c (drop (k * c) ?file)" by (simp add: min_def)
  have read: "fread1 (ue_can_read E) ?file (us_pos s) (unat (us_max s - us_min s + 1)) = Some (take c (drop (k * c) ?file))"
    unfolding fread1_Some_iff rs pos using can chunk k sized_bounds(2) [OF nc(1)] by auto
  let ?hdr = "no_headers(''Session-Id'' := ue_session E, ''Content-Range'' := content_range (us_min s) (us_max s) (ue_data_size E))"
  let ?rq = "\<lparr>rq_method = HTTP_POST, rq_uri = ue_uri E, rq_headers = ?hdr, rq_body = take c (drop (k * c) ?file),
    rq_body_type = ''application/octet-stream''\<rparr>"
  have "asks_range ?rq (ue_session E) (word_of_nat (k * c)) (word_of_nat (min (Suc k * c) ?n) - 1) (word_of_nat ?n)"
    by (simp add: asks_range_def mn mx ue_data_size_def)
  from PostUpload_chunk [OF at nc k io ad this, of now fresh]
  obtain resp S' where r: "PostUpload io now (params (ue_uri E)) ?rq fresh S = Answered (resp, S')"
    "rs_status resp = (if ?n \<le> Suc k * c then OK_200 else PartialContent_206)"
    "rs_headers resp ''Content-Range'' = content_range (us_min s) (us_max s) (ue_data_size E)"
    "touches_only (ue_session E) path S S'" "upload_at (ue_session E) path ?file c (Suc k) S'"
    unfolding mn mx ue_data_size_def by auto
  obtain h where h: "mpuHttpClient (us_client s) = Some h" using cl by auto
  have post: "BofWebClient_Post (ue_net E) (ue_uri E) (ue_compress E) (ue_decompress E) (ue_keep_alive E) ?hdr
      (unat (us_max s - us_min s + 1)) (take c (drop (k * c) ?file)) ''application/octet-stream'' (us_client s) (us_world s) =
      (Some resp, (us_client s)\<lparr>mpuHttpClient := Some (prepare (ue_compress E) (ue_decompress E) (ue_keep_alive E) h)\<rparr>, Some S')"
    using r(1) h rs w chunk by (simp add: verb_defs exchange_client net updown_net_def serve_request_def)
  have full: "ue_data_size E - 1 \<le> us_max s \<longleftrightarrow> ?n \<le> Suc k * c"
    unfolding mx ue_data_size_def by (rule last_chunk [OF nc(1) k])
  show ?thesis
  proof (cases "?n \<le> Suc k * c")
    case True
    then show ?thesis using read post r full by (auto simp: upload_step_def Let_def)
  next
    case False
    then show ?thesis using read post r by (auto simp: upload_step_def Let_def)
  qed
qed

lemma upload_loop_Inl: "upload_step E s = Inl r \<Longrightarrow> upload_loop E s = r"
  by (simp add: upload_loop.simps)

lemma upload_loop_Inr: "upload_step E s = Inr s' \<Longrightarrow> upload_loop E s = upload_loop E s'"
  by (simp add: upload_loop.simps [of E s])

text \<open>From any chunk to the end.\<close>

lemma upload_to_end:
  assumes "countable (length (ue_file E)) c" "2 \<le> length (ue_file E)" "\<And>pos n. ue_can_read E pos n"
    and "ue_net E = updown_net io now params fresh" "willing io path"
  shows "upload_inv E c k s \<Longrightarrow> k * c < length (ue_file E) \<Longrightarrow> mpuHttpClient (us_client s) \<noteq> None \<Longrightarrow>
    us_world s = Some S \<Longrightarrow> upload_at (ue_session E) path (ue_file E) c k S \<Longrightarrow>
    addressed (params (ue_uri E)) S path \<Longrightarrow>
    \<exists>s' S'. upload_loop E s = (Returned True, s') \<and> us_world s' = Some S' \<and>
      ud_fs S' path = Some (ue_file E) \<and> ud_tasks S' (ue_session E) = None \<and> touches_only (ue_session E) path S S'"
proof (induction "length (ue_file E) - k * c" arbitrary: k s S rule: less_induct)
  case less
  let ?n = "length (ue_file E)"
  obtain t T where t: "upload_step E s = (if ?n \<le> Suc k * c then Inl (Returned True, t) else Inr t)"
      "us_world t = Some T" "mpuHttpClient (us_client t) \<noteq> None"
      "upload_at (ue_session E) path (ue_file E) c (Suc k) T" "touches_only (ue_session E) path S T"
    using upload_turn [OF less.prems(1) countable_sized [OF assms(1)] assms(2) less.prems(2) assms(3,4) less.prems(3-5) assms(5) less.prems(6)] by blast
  show ?case
  proof (cases "?n \<le> Suc k * c")
    case True
    then have "upload_loop E s = (Returned True, t)" using t(1) by (intro upload_loop_Inl) simp
    moreover have "ud_fs T path = Some (ue_file E) \<and> ud_tasks T (ue_session E) = None"
      using t(4) True by (simp add: upload_at_def)
    ultimately show ?thesis using t by blast
  next
    case False
    then have step: "upload_step E s = Inr t" using t(1) by simp
    have inv: "upload_inv E c (Suc k) t"
      using upload_step_inv [OF less.prems(1) countable_bounds(1) [OF assms(1)] step] by simp
    have "\<exists>s' S'. upload_loop E t = (Returned True, s') \<and> us_world s' = Some S' \<and>
        ud_fs S' path = Some (ue_file E) \<and> ud_tasks S' (ue_session E) = None \<and> touches_only (ue_session E) path T S'"
      by (rule less.hyps [OF _ inv])
        (use False less.prems(2,6) t addressed_frame [OF t(5)] countable_bounds(2) [OF assms(1)] in auto)
    then show ?thesis using upload_loop_Inr [OF step] touches_only_trans [OF t(5)] by metis
  qed
qed

section \<open>Downloading from the server\<close>

text \<open>The client before chunk \<open>k\<close>, while the chunk after it is not the last one.\<close>

definition client_at :: "'w download_state \<Rightarrow> byte list \<Rightarrow> nat \<Rightarrow> nat \<Rightarrow> bool" where
  "client_at s file c k \<longleftrightarrow> asks s (k * c) (Suc k * c) \<and> ds_file s = take (k * c) file \<and>
     (if k = 0 then ds_size s = 0 else ds_size s = word_of_nat (length file) \<and> Suc k * c < length file)"

lemma download_turn:
  assumes at: "client_at s file c k" and nc: "countable (length file) c" and k: "k * c < length file"
    and net: "de_net E = updown_net io now params fresh" and acc: "\<And>old new. length new \<le> de_accepts E old new"
    and w: "ds_world s = Some S" and srv: "download_at (de_session E) path file c k S"
    and io: "readable io path" and ad: "addressed (params (de_uri E)) S path"
  defines "q \<equiv> min (Suc k * c) (length file)"
  shows "\<exists>s' S'. download_step E s = (if q = length file then Inl (True, s') else Inr s') \<and>
    ds_file s' = take q file \<and> ds_size s' = word_of_nat (length file) \<and> ds_world s' = Some S' \<and>
    (if length file \<le> q + (q - k * c) then asks s' (q - 1) (length file) else asks s' q (q + (q - k * c))) \<and>
    download_at (de_session E) path file c (Suc k) S' \<and> touches_only (de_session E) path S S'"
proof -
  let ?n = "length file"
  let ?hdr = "no_headers(''Session-Id'' := de_session E,
    ''Content-Range'' := content_range (ds_min s) (ds_max s) (ds_size s))"
  let ?rq = "\<lparr>rq_method = HTTP_GET, rq_uri = de_uri E, rq_headers = ?hdr, rq_body = [], rq_body_type = []\<rparr>"
  have c: "0 < c" "c < 2 ^ 32" "?n < 2 ^ 63" using nc countable_bounds [OF nc] by (auto simp: countable_def)
  have a: "asks s (k * c) (Suc k * c)" using at by (simp add: client_at_def)
  have pq: "k * c < q" "q - k * c < 2 ^ 32" "q \<le> ?n" using k c by (auto simp: q_def)
  have "asks_chunk ?rq (de_session E) ?n c k"
    using at by (auto simp: client_at_def asks_def asks_chunk_def asks_range_def min_def)
  from GetDownload_chunk [OF srv countable_sized [OF nc] k io ad this, of now fresh]
  obtain resp S' where r: "GetDownload io now (params (de_uri E)) ?rq fresh S = Answered (resp, S')"
    "rs_status resp = (if ?n \<le> Suc k * c then OK_200 else PartialContent_206)"
    "rs_headers resp ''Content-Range'' = content_range (word_of_nat (k * c)) (word_of_nat q - 1) (word_of_nat ?n)"
    "rs_body resp = take c (drop (k * c) file)"
    "touches_only (de_session E) path S S'" "download_at (de_session E) path file c (Suc k) S'"
    unfolding q_def by auto
  obtain h where h: "mpuHttpClient (ds_client s) = Some h" using a by (auto simp: asks_def)
  have get: "BofWebClient_Get (de_net E) (de_uri E) (de_compress E) (de_decompress E) (de_keep_alive E) ?hdr
      (ds_client s) (ds_world s) = (Some resp,
      (ds_client s)\<lparr>mpuHttpClient := Some (prepare (de_compress E) (de_decompress E) (de_keep_alive E) h)\<rparr>, Some S')"
    using r(1) h w by (simp add: verb_defs exchange_client net updown_net_def serve_request_def)
  have last: "q = ?n \<longleftrightarrow> ?n \<le> Suc k * c" by (auto simp: q_def)
  have body: "rs_body resp = take (q - k * c) (drop (k * c) file)" unfolding r(4) q_def by (auto simp: min_def)
  have big: "Suc k * c < 2 ^ 64" using k c by auto
  have known: "ds_size s = word_of_nat ?n \<and> Suc k * c \<le> ?n \<or> ds_size s = 0"
    using at by (auto simp: client_at_def split: if_splits)
  have "\<exists>s'. download_step E s = (if q = ?n then Inl (True, s') else Inr s') \<and>
    ds_file s' = ds_file s @ take (q - k * c) (drop (k * c) file) \<and> ds_size s' = word_of_nat ?n \<and>
    ds_world s' = Some S' \<and>
    (if ?n \<le> q + (q - k * c) then asks s' (q - 1) ?n else asks s' q (q + (q - k * c)))"
    by (rule accepted_turn [OF get _ _ r(3) body acc a pq(1) _ pq(2) c(3) big known])
      (use r(2) last in \<open>simp_all add: q_def\<close>)
  moreover have "ds_file s @ take (q - k * c) (drop (k * c) file) = take q file"
    using at pq(1) by (simp add: client_at_def take_append_slice)
  ultimately show ?thesis using r(5,6) by auto
qed

text \<open>A request for a range the server does not expect: 406, and the download is over.\<close>

lemma download_turn_refused:
  assumes a: "asks s p r" and net: "de_net E = updown_net io now params fresh" and w: "ds_world s = Some S"
    and srv: "download_at (de_session E) path file c k S" "countable (length file) c" "0 < k" "k * c < length file"
    and ad: "addressed (params (de_uri E)) S path" and p: "(word_of_nat p :: u64) \<noteq> word_of_nat (k * c)"
  shows "\<exists>s' S'. download_step E s = Inl (False, s') \<and> ds_file s' = ds_file s \<and> ds_world s' = Some S' \<and>
    ud_tasks S' (de_session E) = None \<and> touches_only (de_session E) path S S' \<and> ud_fs S' path = ud_fs S path"
proof -
  let ?hdr = "no_headers(''Session-Id'' := de_session E,
    ''Content-Range'' := content_range (ds_min s) (ds_max s) (ds_size s))"
  let ?rq = "\<lparr>rq_method = HTTP_GET, rq_uri = de_uri E, rq_headers = ?hdr, rq_body = [], rq_body_type = []\<rparr>"
  have "asks_range ?rq (de_session E) (ds_min s) (ds_max s) (ds_size s)" "ds_min s \<noteq> word_of_nat (k * c)"
    using a p by (simp_all add: asks_range_def asks_def)
  from GetDownload_mismatch [OF srv(1) countable_sized [OF srv(2)] srv(3,4) ad this, of io now fresh]
  obtain resp where r: "GetDownload io now (params (de_uri E)) ?rq fresh S =
      Answered (resp, S\<lparr>ud_tasks := (ud_tasks S)(de_session E := None)\<rparr>)" "rs_status resp = 406" by blast
  obtain h where h: "mpuHttpClient (ds_client s) = Some h" using a by (auto simp: asks_def)
  have get: "BofWebClient_Get (de_net E) (de_uri E) (de_compress E) (de_decompress E) (de_keep_alive E) ?hdr
      (ds_client s) (ds_world s) = (Some resp,
      (ds_client s)\<lparr>mpuHttpClient := Some (prepare (de_compress E) (de_decompress E) (de_keep_alive E) h)\<rparr>,
      Some (S\<lparr>ud_tasks := (ud_tasks S)(de_session E := None)\<rparr>))"
    using r(1) h w by (simp add: verb_defs exchange_client net updown_net_def serve_request_def)
  then show ?thesis using r(2) by (auto simp: download_step_def Let_def touches_only_def)
qed

text \<open>From any chunk before the last: the run stops when the last chunk is asked for.\<close>

lemma download_to_refusal:
  assumes nc: "countable (length file) c" and net: "de_net E = updown_net io now params fresh"
    and acc: "\<And>old new. length new \<le> de_accepts E old new" and io: "readable io path"
  shows "client_at s file c k \<Longrightarrow> Suc k * c < length file \<Longrightarrow> ds_world s = Some S \<Longrightarrow>
    download_at (de_session E) path file c k S \<Longrightarrow> addressed (params (de_uri E)) S path \<Longrightarrow>
    \<exists>s' S'. download_loop E s = Some (False, s') \<and> ds_world s' = Some S' \<and>
      ds_file s' = take ((length file - 1) div c * c) file \<and>
      ud_tasks S' (de_session E) = None \<and> touches_only (de_session E) path S S' \<and> ud_fs S' path = Some file"
proof (induction "length file - k * c" arbitrary: k s S rule: less_induct)
  case less
  let ?n = "length file" and ?q = "Suc k * c"
  have c: "0 < c" using countable_bounds(2) [OF nc] .
  have k: "k * c < ?n" "min ?q ?n = ?q" "?q - k * c = c" "?q \<noteq> ?n" using less.prems(2) by auto
  obtain t T where t: "download_step E s = Inr t" "ds_file t = take ?q file" "ds_size t = word_of_nat ?n"
      "ds_world t = Some T" "if ?n \<le> ?q + c then asks t (?q - 1) ?n else asks t ?q (?q + c)"
      "download_at (de_session E) path file c (Suc k) T" "touches_only (de_session E) path S T"
    using download_turn [OF less.prems(1) nc k(1) net acc less.prems(3,4) io less.prems(5)] k(4) unfolding k(2,3) by auto
  have ad: "addressed (params (de_uri E)) T path" using less.prems(5) addressed_frame [OF t(7)] by simp
  show ?case
  proof (cases "?n \<le> ?q + c")
    case True
    have e: "(?n - 1) div c = Suc k"
      using True less.prems(2) by (intro div_nat_eqI) (auto simp: ac_simps)
    have "unat (word_of_nat (?q - 1) :: u64) = ?q - 1" "unat (word_of_nat ?q :: u64) = ?q"
      using less.prems(2) countable_bounds(1) [OF nc] by (intro unat_u64_of_nat; linarith)+
    then have "(word_of_nat (?q - 1) :: u64) \<noteq> word_of_nat ?q" using c
      by (metis add_gr_0 diff_less less_irrefl less_numeral_extra(1) mult_Suc)
    then obtain s' S' where s': "download_step E t = Inl (False, s')" "ds_file s' = ds_file t" "ds_world s' = Some S'"
        "ud_tasks S' (de_session E) = None" "touches_only (de_session E) path T S'" "ud_fs S' path = ud_fs T path"
      using download_turn_refused [OF _ net t(4,6) nc _ less.prems(2) ad, of "?q - 1" ?n] t(5) True by auto
    then show ?thesis
      using download_loop_Inr [OF t(1)] download_loop_Inl [OF s'(1)] t(2,6) s'(6) touches_only_trans [OF t(7) s'(5)]
      unfolding e by (auto simp: download_at_def)
  next
    case False
    have at: "client_at t file c (Suc k)" using t False by (simp add: client_at_def add.commute)
    have "\<exists>s' S'. download_loop E t = Some (False, s') \<and> ds_world s' = Some S' \<and>
        ds_file s' = take ((?n - 1) div c * c) file \<and>
        ud_tasks S' (de_session E) = None \<and> touches_only (de_session E) path T S' \<and> ud_fs S' path = Some file"
      by (rule less.hyps [OF _ at _ t(4,6) ad]) (use False less.prems(2) c in auto)
    then show ?thesis using download_loop_Inr [OF t(1)] touches_only_trans [OF t(7)] by metis
  qed
qed

section \<open>Requests of other sessions\<close>

text \<open>A file nobody else has open for writing: the tasks of other sessions that write are on other files.\<close>

definition alone_on :: "string \<Rightarrow> string \<Rightarrow> updown_server \<Rightarrow> bool" where
  "alone_on session path S \<longleftrightarrow>
     (\<forall>s t f. s \<noteq> session \<longrightarrow> ud_tasks S s = Some t \<longrightarrow> ut_pIo_X t = Some f \<longrightarrow> \<not> ut_pBuffer_U8 t \<longrightarrow> if_path f \<noteq> path)"

text \<open>What a request of another session keeps for \<open>session\<close>, writing to \<open>path\<close>.\<close>

definition keeps_for :: "string \<Rightarrow> string \<Rightarrow> updown_server \<Rightarrow> updown_server \<Rightarrow> bool" where
  "keeps_for session path S S' \<longleftrightarrow> ud_root S' = ud_root S \<and> ud_tasks S' session = ud_tasks S session \<and>
     ud_fs S' path = ud_fs S path \<and> (alone_on session path S \<longrightarrow> alone_on session path S')"

lemma keeps_for_refl [simp]: "keeps_for session path S S"
  by (simp add: keeps_for_def)

lemma alone_on_clear: "alone_on session path S \<Longrightarrow> alone_on session path (S\<lparr>ud_tasks := (ud_tasks S)(s := None)\<rparr>)"
  by (simp add: alone_on_def)

lemma TerminateUpDownTask_keeps:
  assumes "TerminateUpDownTask sts rs it S = Answered (r, S')" "it \<noteq> IterAt session"
  shows "keeps_for session path S S'"
  using assms alone_on_clear by (cases it) (auto simp: TerminateUpDownTask_def keeps_for_def)

lemma finish_chunk_keeps:
  assumes "finish_chunk s mx w t rs it S = Answered (r, S')" "it \<noteq> IterAt session" "s \<noteq> session"
    and t: "ut_pIo_X t = Some f" "\<not> ut_pBuffer_U8 t \<longrightarrow> if_path f \<noteq> path"
  shows "keeps_for session path S S'"
proof (cases "ut_DataSize t - 1 \<le> mx")
  case True
  then show ?thesis using assms(1,2) by (auto simp: finish_chunk_def Let_def intro: TerminateUpDownTask_keeps)
next
  case False
  then have S': "S' = S\<lparr>ud_tasks := (ud_tasks S)(s \<mapsto> advance_task w t)\<rparr>"
    using assms(1) by (simp add: finish_chunk_def Let_def)
  show ?thesis unfolding S' using assms(3) t
    by (auto simp: keeps_for_def alone_on_def advance_task_fields)
qed

lemma keeps_for_write:
  assumes "keeps_for session path (S\<lparr>ud_fs := (ud_fs S)(p \<mapsto> bs)\<rparr>) S'" "p \<noteq> path"
  shows "keeps_for session path S S'"
  using assms by (simp add: keeps_for_def alone_on_def)

lemma find_task_other [simp]: "s \<noteq> session \<Longrightarrow> find_task S s \<noteq> IterAt session"
  by (simp add: find_task_def)

lemma GetDownload_keeps:
  assumes run: "GetDownload io now params rq rs S = Answered (r, S')"
    and other: "rq_headers rq ''Session-Id'' \<noteq> session"
  shows "keeps_for session path S S'"
proof -
  let ?s = "rq_headers rq ''Session-Id''"
  show ?thesis
  proof (cases "read_request params rq rs S")
    case (Stop x)
    then have "x = Answered (r, S')" using run by (simp add: GetDownload_def)
    then have "S' = S" using Stop by (auto simp: read_request_def TerminateUpDownTask_def Let_def split: option.splits if_splits prod.splits)
    then show ?thesis by simp
  next
    case (Go g)
    obtain p mn mx n where g: "g = (p, mn, mx, n)" by (metis prod_cases4)
    let ?stage = "case ud_tasks S ?s of None \<Rightarrow> download_first io now (p, mn, mx, n) rs S
      | Some t \<Rightarrow> download_next ?s t (mn, mx, n) rs S"
    show ?thesis
    proof (cases ?stage)
      case (Stop x)
      then have "x = Answered (r, S')" using run Go g by (simp add: GetDownload_def Let_def)
      then show ?thesis using Stop other
        by (auto simp: download_first_def download_next_def Let_def split: option.splits if_splits
            intro: TerminateUpDownTask_keeps)
    next
      case (Go tw)
      obtain t w where tw: "tw = (t, w)" by fastforce
      have buf: "ut_pBuffer_U8 t" "ut_pIo_X t \<noteq> None" using Go tw
        by (auto simp: download_first_def download_next_def Let_def split: option.splits if_splits)
      have "download_chunk io ?s mx t w rs (find_task S ?s) S = Answered (r, S')"
        using run Go tw \<open>read_request params rq rs S = Go g\<close> g by (simp add: GetDownload_def Let_def)
      then show ?thesis using buf other
        by (auto simp: download_chunk_def split: option.splits intro: TerminateUpDownTask_keeps finish_chunk_keeps)
    qed
  qed
qed

lemma upload_write_keeps:
  assumes run: "upload_write io s mx t w body rs it S = Answered (r, S')"
    and it: "it \<noteq> IterAt session" "s \<noteq> session"
    and t: "\<not> ut_pBuffer_U8 t \<and> (\<exists>f. ut_pIo_X t = Some f \<and> if_path f \<noteq> path)"
  shows "keeps_for session path S S'"
proof (cases "unat w = length body")
  case False
  then show ?thesis using run it by (auto simp: upload_write_def intro: TerminateUpDownTask_keeps)
next
  case True
  obtain f where f: "ut_pIo_X t = Some f" "if_path f \<noteq> path" using t by blast
  let ?old = "file_bytes S (if_path f)"
  let ?k = "min (io_accepts io ?old body) (length body)"
  let ?S2 = "S\<lparr>ud_fs := (ud_fs S)(if_path f \<mapsto> write_at (if_pos f) ?old (take ?k body))\<rparr>"
  let ?t = "t\<lparr>ut_pIo_X := Some (f\<lparr>if_pos := if_pos f + ?k\<rparr>)\<rparr>"
  have "(if 0 < length body \<and> ?k = length body then finish_chunk s mx w ?t rs it ?S2
      else TerminateUpDownTask 507 rs it ?S2) = Answered (r, S')"
    using run True f(1) by (simp only: upload_write_def Let_def option.case if_True simp_thms)
  then have "keeps_for session path ?S2 S'"
    using finish_chunk_keeps [of s mx w ?t rs it ?S2 r S', OF _ it] TerminateUpDownTask_keeps [OF _ it(1)] f(2)
    by (auto split: if_splits)
  then show ?thesis by (rule keeps_for_write [OF _ f(2)])
qed

lemma PostUpload_keeps:
  assumes run: "PostUpload io now params rq rs S = Answered (r, S')"
    and other: "rq_headers rq ''Session-Id'' \<noteq> session"
    and alone: "alone_on session path S" and ad: "\<not> addressed params S path"
  shows "keeps_for session path S S'"
proof -
  let ?s = "rq_headers rq ''Session-Id''"
  show ?thesis
  proof (cases "read_request params rq rs S")
    case (Stop x)
    then have "x = Answered (r, S')" using run by (simp add: PostUpload_def)
    then have "S' = S" using Stop by (auto simp: read_request_def TerminateUpDownTask_def Let_def split: option.splits if_splits prod.splits)
    then show ?thesis by simp
  next
    case (Go g)
    obtain p mn mx n where g: "g = (p, mn, mx, n)" by (metis prod_cases4)
    have p: "p \<noteq> path" using Go g ad
      by (auto simp: read_request_def addressed_def Let_def split: option.splits if_splits prod.splits)
    let ?stage = "case ud_tasks S ?s of None \<Rightarrow> upload_first io now (p, mn, mx, n) rs S
      | Some t \<Rightarrow> upload_next ?s t (mn, mx, n) rs S"
    show ?thesis
    proof (cases ?stage)
      case (Stop x)
      then have "x = Answered (r, S')" using run Go g by (simp add: PostUpload_def Let_def)
      then show ?thesis using Stop other
        by (auto simp: upload_first_def upload_next_def Let_def split: option.splits if_splits
            intro: TerminateUpDownTask_keeps)
    next
      case (Go tw)
      obtain t w S1 where tw: "tw = (t, w, S1)" by (metis prod_cases3)
      have S1: "S1 = S \<or> S1 = S\<lparr>ud_fs := (ud_fs S)(p \<mapsto> [])\<rparr>" and
        buf: "\<not> ut_pBuffer_U8 t \<and> (\<exists>f. ut_pIo_X t = Some f \<and> if_path f \<noteq> path)"
        using Go tw p alone other
        by (auto simp: upload_first_def upload_next_def alone_on_def Let_def split: option.splits if_splits)
      have "upload_write io ?s mx t w (rq_body rq) rs (find_task S ?s) S1 = Answered (r, S')"
        using run Go tw \<open>read_request params rq rs S = Go g\<close> g by (simp add: PostUpload_def Let_def)
      then have "keeps_for session path S1 S'" using buf other by (intro upload_write_keeps) auto
      then show ?thesis using S1 keeps_for_write [OF _ p] by metis
    qed
  qed
qed

section \<open>Bad requests\<close>

text \<open>A request to one of the two routes whose path climbs or whose range cannot be read.\<close>

definition bad_request :: "(string \<Rightarrow> string \<Rightarrow> string option) \<Rightarrow> updown_server \<Rightarrow> http_request \<Rightarrow> bool" where
  "bad_request params S rq \<longleftrightarrow> (rq_method rq = HTTP_POST \<or> rq_method rq = HTTP_GET) \<and> (\<exists>dir file. params (rq_uri rq) ''dir'' = Some dir \<and> params (rq_uri rq) ''file'' = Some file \<and>
     (has_dotdot (request_path S dir file) \<or> \<not> fst (S_ParseContentRangeRequest (rq_headers rq ''Content-Range'') 0 0 0)))"

lemma bad_request_stops: "bad_request params S rq \<Longrightarrow> read_request (params (rq_uri rq)) rq rs S = Stop SingularIterator"
  by (auto simp: bad_request_def read_request_def TerminateUpDownTask_def Let_def split: prod.split)

section \<open>Any sequence of requests\<close>

fun serve_all ::
    "io_device \<Rightarrow> u32 \<Rightarrow> (string \<Rightarrow> string \<Rightarrow> string option) \<Rightarrow> http_response \<Rightarrow> http_request list \<Rightarrow> updown_server \<Rightarrow>
     (http_response list \<times> updown_server) option" where
  "serve_all io now params fresh [] S = Some ([], S)"
| "serve_all io now params fresh (rq # rqs) S =
     (case serve_request io now params fresh rq S of
        Answered (r, S1) \<Rightarrow>
          (case serve_all io now params fresh rqs S1 of None \<Rightarrow> None | Some (rs, S2) \<Rightarrow> Some (r # rs, S2))
      | _ \<Rightarrow> None)"

definition of_session :: "string \<Rightarrow> http_request \<Rightarrow> bool" where
  "of_session session rq \<longleftrightarrow> rq_headers rq ''Session-Id'' = session"

text \<open>Requests of other sessions that upload to other files, or download.\<close>

definition stays_away :: "(string \<Rightarrow> string \<Rightarrow> string option) \<Rightarrow> updown_server \<Rightarrow> string \<Rightarrow> http_request \<Rightarrow> bool" where
  "stays_away params S path rq \<longleftrightarrow> \<not> (rq_method rq = HTTP_POST \<and> addressed (params (rq_uri rq)) S path)"

text \<open>The requests of one upload, from chunk \<open>k\<close> on.\<close>

definition upload_requests :: "string \<Rightarrow> string \<Rightarrow> byte list \<Rightarrow> nat \<Rightarrow> nat \<Rightarrow> nat \<Rightarrow> http_request list" where
  "upload_requests uri session file c k K =
     map (upload_request uri session (word_of_nat (length file))) (drop k (upload_plan file c K))"

lemma upload_requests_Cons:
  assumes "k < K"
  shows "upload_requests uri session file c k K =
    upload_request uri session (word_of_nat (length file))
      (word_of_nat (k * c), word_of_nat (min (Suc k * c) (length file)) - 1, take c (drop (k * c) file)) #
    upload_requests uri session file c (Suc k) K"
proof -
  have "drop k (upload_plan file c K) = upload_plan file c K ! k # drop (Suc k) (upload_plan file c K)"
    using assms by (simp add: Cons_nth_drop_Suc)
  moreover have "upload_plan file c K ! k =
      (word_of_nat (k * c), word_of_nat (min (Suc k * c) (length file)) - 1, take c (drop (k * c) file))"
    using assms unfolding upload_plan_def by (subst nth_map) simp_all
  ultimately show ?thesis by (simp add: upload_requests_def)
qed

lemma upload_requests_Nil: "K \<le> k \<Longrightarrow> upload_requests uri session file c k K = []"
  by (simp add: upload_requests_def)

lemma upload_at_frame: "keeps_for session path S S' \<Longrightarrow> upload_at session path file c k S \<Longrightarrow> upload_at session path file c k S'"
  by (simp add: keeps_for_def upload_at_def)

lemma serve_request_keeps:
  assumes "serve_request io now params fresh rq S = Answered (r, S')" "\<not> of_session session rq"
    and "alone_on session path S" "stays_away params S path rq"
  shows "keeps_for session path S S'"
  using assms GetDownload_keeps PostUpload_keeps
  by (fastforce simp: serve_request_def of_session_def stays_away_def split: if_splits)

lemma stays_away_frame: "ud_root S' = ud_root S \<Longrightarrow> stays_away params S' path rq \<longleftrightarrow> stays_away params S path rq"
  by (simp add: stays_away_def addressed_def request_path_def)

text \<open>
  What keeps the server up: no bad request, and no session that both uploads and downloads.  \<open>m\<close> tells the
  sessions that download.
\<close>

definition tasks_fit :: "(string \<Rightarrow> bool) \<Rightarrow> updown_server \<Rightarrow> bool" where
  "tasks_fit m S \<longleftrightarrow> (\<forall>s t. ud_tasks S s = Some t \<longrightarrow> ut_pIo_X t \<noteq> None \<and> (ut_pBuffer_U8 t \<longleftrightarrow> m s))"

definition uses_one_method :: "(string \<Rightarrow> bool) \<Rightarrow> http_request \<Rightarrow> bool" where
  "uses_one_method m rq \<longleftrightarrow> (rq_method rq = HTTP_POST \<longrightarrow> \<not> m (rq_headers rq ''Session-Id'')) \<and>
     (rq_method rq = HTTP_GET \<longrightarrow> m (rq_headers rq ''Session-Id''))"

text \<open>A handler that answers and leaves such tasks.\<close>

definition answers_fit :: "(string \<Rightarrow> bool) \<Rightarrow> (http_response \<times> updown_server) handled \<Rightarrow> bool" where
  "answers_fit m out \<longleftrightarrow> (\<exists>r S. out = Answered (r, S) \<and> tasks_fit m S)"

lemma TerminateUpDownTask_fits: "tasks_fit m S \<Longrightarrow> it \<noteq> NoIter \<Longrightarrow> answers_fit m (TerminateUpDownTask sts rs it S)"
  by (cases it) (auto simp: TerminateUpDownTask_def answers_fit_def tasks_fit_def)

lemma finish_chunk_fits:
  assumes "tasks_fit m S" "it \<noteq> NoIter" "ut_pIo_X t \<noteq> None" "ut_pBuffer_U8 t \<longleftrightarrow> m s"
  shows "answers_fit m (finish_chunk s mx w t rs it S)"
proof (cases "ut_DataSize t - 1 \<le> mx")
  case True
  then show ?thesis using TerminateUpDownTask_fits [OF assms(1,2)] by (simp add: finish_chunk_def Let_def)
next
  case False
  then show ?thesis using assms by (auto simp: finish_chunk_def answers_fit_def tasks_fit_def advance_task_fields Let_def)
qed

lemma find_task_set [simp]: "find_task S s \<noteq> NoIter"
  by (simp add: find_task_def)

lemma read_request_answers:
  assumes "\<not> bad_request params S rq" "rq_method rq = HTTP_POST \<or> rq_method rq = HTTP_GET" "read_request (params (rq_uri rq)) rq rs S = Stop out"
  shows "out = Answered (rs, S)"
  using assms by (auto simp: bad_request_def read_request_def Let_def split: option.splits if_splits prod.splits)

lemma GetDownload_fits:
  assumes fit: "tasks_fit m S" and m: "m (rq_headers rq ''Session-Id'')"
    and ok: "\<not> bad_request params S rq" "rq_method rq = HTTP_POST \<or> rq_method rq = HTTP_GET"
  shows "answers_fit m (GetDownload io now (params (rq_uri rq)) rq rs S)"
proof (cases "read_request (params (rq_uri rq)) rq rs S")
  case (Stop out)
  then show ?thesis using read_request_answers [OF ok(1,2) Stop] fit by (simp add: GetDownload_def answers_fit_def)
next
  case (Go g)
  obtain p mn mx n where g: "g = (p, mn, mx, n)" by (metis prod_cases4)
  let ?s = "rq_headers rq ''Session-Id''"
  let ?stage = "case ud_tasks S ?s of None \<Rightarrow> download_first io now (p, mn, mx, n) rs S
    | Some t \<Rightarrow> download_next ?s t (mn, mx, n) rs S"
  have "GetDownload io now (params (rq_uri rq)) rq rs S =
      (case ?stage of Stop r \<Rightarrow> r | Go (t, w) \<Rightarrow> download_chunk io ?s mx t w rs (find_task S ?s) S)"
    using Go g by (simp add: GetDownload_def Let_def)
  moreover have "answers_fit m out" if "?stage = Stop out" for out
  proof (cases "ud_tasks S ?s")
    case None
    then show ?thesis using that TerminateUpDownTask_fits [OF fit]
      by (auto simp: download_first_def Let_def split: option.splits if_splits)
  next
    case (Some t)
    then have "ut_pIo_X t \<noteq> None" "ut_pBuffer_U8 t \<longleftrightarrow> m ?s" using fit unfolding tasks_fit_def by blast+
    then show ?thesis using that Some m TerminateUpDownTask_fits [OF fit]
      by (auto simp: download_next_def split: if_splits)
  qed
  moreover have "answers_fit m (download_chunk io ?s mx t w rs (find_task S ?s) S)" if "?stage = Go (t, w)" for t w
  proof -
    have t: "ut_pIo_X t \<noteq> None" "ut_pBuffer_U8 t"
      using that by (auto simp: download_first_def download_next_def Let_def split: option.splits if_splits)
    then obtain f where f: "ut_pIo_X t = Some f" by auto
    show ?thesis
      using t m TerminateUpDownTask_fits [OF fit] finish_chunk_fits [OF fit]
      by (auto simp: download_chunk_def f split: option.split)
  qed
  ultimately show ?thesis by (cases ?stage) auto
qed

lemma PostUpload_fits:
  assumes fit: "tasks_fit m S" and m: "\<not> m (rq_headers rq ''Session-Id'')"
    and ok: "\<not> bad_request params S rq" "rq_method rq = HTTP_POST \<or> rq_method rq = HTTP_GET"
  shows "answers_fit m (PostUpload io now (params (rq_uri rq)) rq rs S)"
proof (cases "read_request (params (rq_uri rq)) rq rs S")
  case (Stop out)
  then show ?thesis using read_request_answers [OF ok(1,2) Stop] fit by (simp add: PostUpload_def answers_fit_def)
next
  case (Go g)
  obtain p mn mx n where g: "g = (p, mn, mx, n)" by (metis prod_cases4)
  let ?s = "rq_headers rq ''Session-Id''"
  let ?stage = "case ud_tasks S ?s of None \<Rightarrow> upload_first io now (p, mn, mx, n) rs S
    | Some t \<Rightarrow> upload_next ?s t (mn, mx, n) rs S"
  have "PostUpload io now (params (rq_uri rq)) rq rs S =
      (case ?stage of Stop r \<Rightarrow> r | Go (t, w, S1) \<Rightarrow> upload_write io ?s mx t w (rq_body rq) rs (find_task S ?s) S1)"
    using Go g by (simp add: PostUpload_def Let_def)
  moreover have "answers_fit m out" if "?stage = Stop out" for out
  proof (cases "ud_tasks S ?s")
    case None
    then show ?thesis using that TerminateUpDownTask_fits [OF fit]
      by (auto simp: upload_first_def Let_def split: option.splits if_splits)
  next
    case (Some t)
    then have "ut_pIo_X t \<noteq> None" "ut_pBuffer_U8 t \<longleftrightarrow> m ?s" using fit unfolding tasks_fit_def by blast+
    then show ?thesis using that Some m TerminateUpDownTask_fits [OF fit]
      by (auto simp: upload_next_def split: if_splits)
  qed
  moreover have "answers_fit m (upload_write io ?s mx t w (rq_body rq) rs (find_task S ?s) S1)"
    if "?stage = Go (t, w, S1)" for t w S1
  proof -
    have t: "ut_pIo_X t \<noteq> None" "\<not> ut_pBuffer_U8 t" and S1: "ud_tasks S1 = ud_tasks S"
      using that by (auto simp: upload_first_def upload_next_def Let_def split: option.splits if_splits)
    obtain f where f: "ut_pIo_X t = Some f" using t by auto
    have "tasks_fit m (S1\<lparr>ud_fs := fs\<rparr>)" "tasks_fit m S1" for fs using fit S1 by (simp_all add: tasks_fit_def)
    then show ?thesis using t m TerminateUpDownTask_fits finish_chunk_fits
      by (simp add: upload_write_def f Let_def)
  qed
  ultimately show ?thesis by (cases ?stage) auto
qed

lemma serve_request_fits:
  assumes "tasks_fit m S" "uses_one_method m rq" "\<not> bad_request params S rq"
  shows "\<exists>r S1. serve_request io now params fresh rq S = Answered (r, S1) \<and> tasks_fit m S1"
proof -
  have "answers_fit m (serve_request io now params fresh rq S)"
    using assms(1,2) GetDownload_fits [OF assms(1) _ assms(3)] PostUpload_fits [OF assms(1) _ assms(3)]
    by (cases "rq_method rq = HTTP_POST"; cases "rq_method rq = HTTP_GET")
      (simp_all add: serve_request_def uses_one_method_def, simp add: answers_fit_def)
  then show ?thesis by (simp add: answers_fit_def)
qed

lemma bad_request_frame: "ud_root S' = ud_root S \<Longrightarrow> bad_request params S' rq \<longleftrightarrow> bad_request params S rq"
  by (simp add: bad_request_def request_path_def)

text \<open>The requests that leave an upload of \<open>session\<close> to \<open>path\<close> alone.\<close>

definition harmless ::
    "(string \<Rightarrow> bool) \<Rightarrow> (string \<Rightarrow> string \<Rightarrow> string option) \<Rightarrow> updown_server \<Rightarrow> string \<Rightarrow> http_request \<Rightarrow> bool" where
  "harmless m params S path rq \<longleftrightarrow> uses_one_method m rq \<and> \<not> bad_request params S rq \<and> stays_away params S path rq"

lemma harmless_frame:
  assumes "ud_root S' = ud_root S"
  shows "harmless m params S' path rq \<longleftrightarrow> harmless m params S path rq"
  by (simp add: harmless_def bad_request_frame [OF assms] stays_away_frame [OF assms])

lemma interleaved_run:
  assumes nc: "countable (length file) c" "2 \<le> length file" and io: "willing io path" and K: "(K - 1) * c < length file"
  shows "upload_at session path file c k S \<Longrightarrow> alone_on session path S \<Longrightarrow> addressed (params uri) S path \<Longrightarrow>
    tasks_fit m S \<Longrightarrow> \<not> m session \<Longrightarrow> (\<forall>rq \<in> set rqs. \<not> of_session session rq \<longrightarrow> harmless m params S path rq) \<Longrightarrow>
    filter (of_session session) rqs = upload_requests uri session file c k K \<Longrightarrow> k \<le> K \<Longrightarrow>
    \<exists>rs S'. serve_all io now params fresh rqs S = Some (rs, S') \<and> upload_at session path file c K S'"
proof (induction rqs arbitrary: S k)
  case Nil
  then have "K \<le> k" by (metis filter.simps(1) list.distinct(1) not_le upload_requests_Cons)
  with Nil show ?case by simp
next
  case (Cons rq rqs)
  have "\<exists>r S1 k1. serve_request io now params fresh rq S = Answered (r, S1) \<and> upload_at session path file c k1 S1 \<and>
    alone_on session path S1 \<and> ud_root S1 = ud_root S \<and> tasks_fit m S1 \<and>
    filter (of_session session) rqs = upload_requests uri session file c k1 K \<and> k1 \<le> K"
  proof (cases "of_session session rq")
    case False
    then have safe: "harmless m params S path rq" using Cons.prems(6) by simp
    then obtain r S1 where s: "serve_request io now params fresh rq S = Answered (r, S1)" "tasks_fit m S1"
      using serve_request_fits [OF Cons.prems(4)] unfolding harmless_def by blast
    have "keeps_for session path S S1"
      by (rule serve_request_keeps [OF s(1) False Cons.prems(2)]) (use safe in \<open>simp add: harmless_def\<close>)
    then show ?thesis
      using s Cons.prems(1,2,7,8) False upload_at_frame [of session path S S1]
      by (intro exI [of _ r] exI [of _ S1] exI [of _ k]) (simp add: keeps_for_def)
  next
    case True
    then have "upload_requests uri session file c k K \<noteq> []" using Cons.prems(7) by auto
    then have kK: "k < K" using upload_requests_Nil not_le by blast
    let ?body = "take c (drop (k * c) file)"
    have rq: "rq = upload_request uri session (word_of_nat (length file))
        (word_of_nat (k * c), word_of_nat (min (Suc k * c) (length file)) - 1, ?body)"
      and rest: "filter (of_session session) rqs = upload_requests uri session file c (Suc k) K"
      using Cons.prems(7) True unfolding upload_requests_Cons [OF kK] by auto
    have "k * c \<le> (K - 1) * c" using kK by (intro mult_le_mono1) simp
    then have k: "k * c < length file" by (rule le_less_trans) (rule K)
    have r: "asks_range rq session (word_of_nat (k * c)) (word_of_nat (min (Suc k * c) (length file)) - 1)
        (word_of_nat (length file))" "rq_body rq = ?body" "rq_method rq = HTTP_POST" "rq_uri rq = uri"
      unfolding rq by (simp_all add: asks_range_def upload_request_def)
    obtain resp S1 where s: "PostUpload io now (params uri) rq fresh S = Answered (resp, S1)"
        "touches_only session path S S1" "upload_at session path file c (Suc k) S1"
      using PostUpload_chunk [OF Cons.prems(1) countable_sized [OF nc(1)] nc(2) k io Cons.prems(3) r(1,2), of now fresh] by blast
    have one: "serve_request io now params fresh rq S = Answered (resp, S1)" using s(1) r(3,4) by (simp add: serve_request_def)
    have "\<not> bad_request params S rq" using s(1) bad_request_stops [of params S rq fresh] r(4) by (auto simp: PostUpload_def)
    moreover have "uses_one_method m rq" using r(1,3) Cons.prems(5) by (simp add: uses_one_method_def asks_range_def)
    ultimately have "tasks_fit m S1" using serve_request_fits [OF Cons.prems(4), of rq params io now fresh] one by auto
    then show ?thesis using one s(2,3) Cons.prems(2) rest kK
      by (intro exI [of _ resp] exI [of _ S1] exI [of _ "Suc k"]) (auto simp: touches_only_def alone_on_def)
  qed
  then obtain r S1 k1 where s: "serve_request io now params fresh rq S = Answered (r, S1)" "upload_at session path file c k1 S1"
    "alone_on session path S1" "ud_root S1 = ud_root S" "tasks_fit m S1"
    "filter (of_session session) rqs = upload_requests uri session file c k1 K" "k1 \<le> K" by blast
  have "\<exists>rs S'. serve_all io now params fresh rqs S1 = Some (rs, S') \<and> upload_at session path file c K S'"
    by (rule Cons.IH [OF s(2,3) _ s(5) Cons.prems(5) _ s(6,7)])
      (use Cons.prems(3,6) s(4) in \<open>auto simp: harmless_frame [OF s(4)] addressed_def request_path_def\<close>)
  then show ?case using s(1) by auto
qed

section \<open>A server that is down\<close>

lemma bad_request_net:
  assumes "bad_request params S rq"
  shows "updown_net io now params fresh h rq (Some S) = (None, None)"
proof -
  have "rq_method rq = HTTP_POST \<or> rq_method rq = HTTP_GET" using assms by (simp add: bad_request_def)
  then show ?thesis using bad_request_stops [OF assms]
    by (auto simp: updown_net_def serve_request_def PostUpload_def GetDownload_def)
qed

lemma upload_turn_down:
  assumes "ue_net E = updown_net io now params fresh" "us_world s = None"
    and "us_pos s = 0" "fread1 (ue_can_read E) (ue_file E) 0 (unat (us_max s - us_min s + 1)) = Some chunk"
  shows "\<exists>s'. upload_step E s = Inl (Returned False, s') \<and> us_world s' = None"
proof (cases "mpuHttpClient (us_client s)")
  case None
  then show ?thesis using assms by (auto simp: upload_step_def verb_defs Let_def)
next
  case (Some h)
  then show ?thesis using assms by (auto simp: upload_step_def verb_defs exchange_client updown_net_def Let_def)
qed

section \<open>Files the server cannot take\<close>

text \<open>A turn whose request is answered with another status ends the upload.\<close>

lemma upload_turn_status:
  assumes inv: "upload_inv E c k s" and n: "length (ue_file E) < 2 ^ 63" "k * c < length (ue_file E)" "0 < c"
    and can: "\<And>pos n. ue_can_read E pos n" and cl: "mpuHttpClient (us_client s) \<noteq> None"
    and ans: "\<And>h rq. rq_method rq = HTTP_POST \<Longrightarrow> rq_uri rq = ue_uri E \<Longrightarrow> hc_compress h = Some (ue_compress E) \<Longrightarrow>
        asks_range rq (ue_session E) (word_of_nat (k * c))
          (word_of_nat (min (Suc k * c) (length (ue_file E))) - 1) (word_of_nat (length (ue_file E))) \<Longrightarrow>
        length (rq_body rq) = min c (length (ue_file E) - k * c) \<Longrightarrow>
        \<exists>resp. ue_net E h rq (us_world s) = (Some resp, w') \<and> rs_status resp \<noteq> OK_200 \<and> rs_status resp \<noteq> PartialContent_206"
  shows "\<exists>s'. upload_step E s = Inl (Returned False, s') \<and> us_world s' = w'"
proof -
  let ?n = "length (ue_file E)" and ?file = "ue_file E"
  note f = upload_inv_facts [OF inv n(1)]
  have pos: "us_pos s = k * c" using f(6) n(2) by simp
  have q: "min (us_pos s + c) ?n = min (Suc k * c) ?n" using pos by (simp add: add.commute)
  have mn: "us_min s = word_of_nat (k * c)" and mx: "us_max s = word_of_nat (min (Suc k * c) ?n) - 1"
    using f(1,2) pos unfolding q by simp_all
  have rs: "unat (us_max s - us_min s + 1) = min c (?n - k * c)"
    using upload_inv_read_size [OF inv n(1)] pos n(2) by auto
  let ?chunk = "take (min c (?n - k * c)) (drop (k * c) ?file)"
  have read: "fread1 (ue_can_read E) ?file (us_pos s) (unat (us_max s - us_min s + 1)) = Some ?chunk"
    unfolding fread1_Some_iff rs pos using can n(2,3) by auto
  let ?hdr = "no_headers(''Session-Id'' := ue_session E, ''Content-Range'' := content_range (us_min s) (us_max s) (ue_data_size E))"
  let ?rq = "\<lparr>rq_method = HTTP_POST, rq_uri = ue_uri E, rq_headers = ?hdr, rq_body = ?chunk,
    rq_body_type = ''application/octet-stream''\<rparr>"
  obtain h where h: "mpuHttpClient (us_client s) = Some h" using cl by auto
  let ?h = "prepare (ue_compress E) (ue_decompress E) (ue_keep_alive E) h"
  obtain resp where r: "ue_net E ?h ?rq (us_world s) = (Some resp, w')"
      "rs_status resp \<noteq> OK_200" "rs_status resp \<noteq> PartialContent_206"
    using ans [of ?rq ?h] by (auto simp: asks_range_def mn mx ue_data_size_def prepare_def)
  have "BofWebClient_Post (ue_net E) (ue_uri E) (ue_compress E) (ue_decompress E) (ue_keep_alive E) ?hdr
      (unat (us_max s - us_min s + 1)) ?chunk ''application/octet-stream'' (us_client s) (us_world s) =
      (Some resp, (us_client s)\<lparr>mpuHttpClient := Some ?h\<rparr>, w')"
    using r(1) h rs by (simp add: verb_defs exchange_client)
  then show ?thesis using read r by (auto simp: upload_step_def Let_def)
qed

lemma upload_turn_refused:
  assumes "upload_inv E c k s" "length (ue_file E) < 2 ^ 63" "k * c < length (ue_file E)" "0 < c"
    and "\<And>pos n. ue_can_read E pos n" and net: "ue_net E = updown_net io now params fresh"
    and "mpuHttpClient (us_client s) \<noteq> None" and w: "us_world s = Some S"
    and ans: "\<And>rq. asks_range rq (ue_session E) (word_of_nat (k * c))
          (word_of_nat (min (Suc k * c) (length (ue_file E))) - 1) (word_of_nat (length (ue_file E))) \<Longrightarrow>
        length (rq_body rq) = min c (length (ue_file E) - k * c) \<Longrightarrow>
        \<exists>resp. PostUpload io now (params (ue_uri E)) rq fresh S = Answered (resp, S') \<and>
          rs_status resp \<noteq> OK_200 \<and> rs_status resp \<noteq> PartialContent_206"
  shows "\<exists>s'. upload_step E s = Inl (Returned False, s') \<and> us_world s' = Some S'"
proof (rule upload_turn_status [OF assms(1-5,7)])
  fix h rq
  assume rq: "rq_method rq = HTTP_POST" "rq_uri rq = ue_uri E"
    and a: "asks_range rq (ue_session E) (word_of_nat (k * c))
        (word_of_nat (min (Suc k * c) (length (ue_file E))) - 1) (word_of_nat (length (ue_file E)))"
      "length (rq_body rq) = min c (length (ue_file E) - k * c)"
  show "\<exists>resp. ue_net E h rq (us_world s) = (Some resp, Some S') \<and> rs_status resp \<noteq> OK_200 \<and> rs_status resp \<noteq> PartialContent_206"
    using ans [OF a] rq by (auto simp: net w updown_net_def serve_request_def)
qed

text \<open>A range of one byte is a first request the server does not accept.\<close>

lemma PostUpload_one_byte:
  assumes "ud_tasks S session = None" "addressed params S path" "asks_range rq session 0 0 sz"
  shows "PostUpload io now params rq fresh S = Answered (fresh\<lparr>rs_status := 406\<rparr>, S)"
  using assms read_request_addressed [OF assms(2,3)]
  by (simp add: PostUpload_def asks_range_def upload_first_def TerminateUpDownTask_def)

text \<open>
  Four gigabytes or more after a chunk: the first size that is not the low half of what is left is
  answered 500.
\<close>

lemma PostUpload_miscounted:
  assumes at: "ud_tasks S session = Some t" "task_at False path n c k t" and big: "sized n c 0" "\<not> sized n c k" "k * c < n"
    and ad: "addressed params S path"
    and rq: "asks_range rq session (word_of_nat (k * c)) (word_of_nat (min (Suc k * c) n) - 1) (word_of_nat n)"
      "length (rq_body rq) = min c (n - k * c)"
  shows "\<exists>resp. PostUpload io now params rq rs S = Answered (resp, S\<lparr>ud_tasks := (ud_tasks S)(session := None)\<rparr>) \<and>
    rs_status resp = 500"
proof -
  have k: "0 < k" "min c (n - k * c) \<noteq> min c ((n - k * c) mod 2 ^ 32)" and c: "c < 2 ^ 32"
    using big by (auto simp: sized_def)
  have size: "unat (next_size t) \<noteq> length (rq_body rq)"
    using next_size_value [OF at(2) c k(1) big(3)] rq(2) k(2) by metis
  have "range_expected (word_of_nat (k * c), word_of_nat (min (Suc k * c) n) - 1, word_of_nat n) t"
    using range_expected_at [OF at(2) big(1,3)] by simp
  then show ?thesis
    using at read_request_addressed [OF ad rq(1)] rq(1) size
    by (auto simp: PostUpload_def upload_next_def upload_write_def task_at_def asks_range_def find_task_def
        TerminateUpDownTask_def touches_only_def)
qed

lemma big_upload_refused:
  assumes n: "sized (length (ue_file E)) c 0" and can: "\<And>pos n. ue_can_read E pos n"
    and net: "ue_net E = updown_net io now params fresh" and io: "willing io path"
  shows "upload_inv E c k s \<Longrightarrow> 2 ^ 32 + (if k = 0 then c else 0) \<le> length (ue_file E) - k * c \<Longrightarrow>
    mpuHttpClient (us_client s) \<noteq> None \<Longrightarrow> us_world s = Some S \<Longrightarrow>
    upload_at (ue_session E) path (ue_file E) c k S \<Longrightarrow> addressed (params (ue_uri E)) S path \<Longrightarrow>
    \<exists>s' S'. upload_loop E s = (Returned False, s') \<and> us_world s' = Some S'"
proof (induction "length (ue_file E) - k * c" arbitrary: k s S rule: less_induct)
  case less
  let ?n = "length (ue_file E)"
  have c: "2 \<le> c" "c < 2 ^ 32" "?n < 2 ^ 63" using n by (auto simp: sized_def)
  have rest: "2 ^ 32 \<le> ?n - k * c" using less.prems(2) by (simp split: if_splits)
  then have k: "k * c < ?n" "\<not> ?n \<le> Suc k * c" and two: "2 \<le> ?n" using c by auto
  show ?case
  proof (cases "sized ?n c k")
    case True
    obtain t T where t: "upload_step E s = Inr t" "us_world t = Some T" "mpuHttpClient (us_client t) \<noteq> None"
        "upload_at (ue_session E) path (ue_file E) c (Suc k) T" "touches_only (ue_session E) path S T"
      using upload_turn [OF less.prems(1) True two k(1) can net less.prems(3-5) io less.prems(6)] k(2) by auto
    have inv: "upload_inv E c (Suc k) t" using upload_step_inv [OF less.prems(1) c(3) t(1)] by simp
    have more: "2 ^ 32 \<le> ?n - Suc k * c"
    proof (cases "k = 0")
      case False
      let ?r = "?n - k * c"
      have "c \<le> ?r mod 2 ^ 32" using True False rest c(2) by (auto simp: sized_def min_def split: if_splits)
      moreover have "?r = 2 ^ 32 * (?r div 2 ^ 32) + ?r mod 2 ^ 32" by simp
      moreover have "1 \<le> ?r div 2 ^ 32" using rest by (simp add: less_eq_div_iff_mult_less_eq)
      ultimately have "2 ^ 32 * 1 + c \<le> ?r" by (metis add_mono mult_le_mono2)
      then show ?thesis by simp
    qed (use less.prems(2) in simp)
    have "\<exists>s' S'. upload_loop E t = (Returned False, s') \<and> us_world s' = Some S'"
      by (rule less.hyps [OF _ inv _ t(3,2,4)])
        (use more k c less.prems(6) addressed_frame [OF t(5)] in auto)
    then show ?thesis using upload_loop_Inr [OF t(1)] by metis
  next
    case False
    then have "k \<noteq> 0" using n by metis
    then obtain u where u: "ud_tasks S (ue_session E) = Some u" "task_at False path ?n c k u"
      using less.prems(5) k(1) by (auto simp: upload_at_def)
    have ans: "\<exists>resp. PostUpload io now (params (ue_uri E)) rq fresh S =
          Answered (resp, S\<lparr>ud_tasks := (ud_tasks S)(ue_session E := None)\<rparr>) \<and>
          rs_status resp \<noteq> OK_200 \<and> rs_status resp \<noteq> PartialContent_206"
      if "asks_range rq (ue_session E) (word_of_nat (k * c)) (word_of_nat (min (Suc k * c) ?n) - 1) (word_of_nat ?n)"
        "length (rq_body rq) = min c (?n - k * c)" for rq
      using PostUpload_miscounted [OF u n False k(1) less.prems(6) that, of io now fresh] by auto
    have "0 < c" using c(1) by simp
    from upload_turn_refused [OF less.prems(1) c(3) k(1) this can net less.prems(3,4) ans]
    show ?thesis using upload_loop_Inl by blast
  qed
qed

section \<open>Properties\<close>

lemma upload_client_run:
  assumes "mpuHttpClient c = Some h" "readable cio src" "fs src = Some file"
    and "E = \<lparr>ue_net = net, ue_log_args = log_args, ue_uri = uri, ue_compress = cr, ue_decompress = dr,
        ue_keep_alive = ka, ue_can_read = io_can_read cio, ue_file = file, ue_session = S_GenerateSessionId rnd 36\<rparr>"
    and "upload_loop E (upload_start E chunk c w) = (out, s)"
  shows "BofWebClient_Upload net log_args rnd cio fs src uri cr dr ka chunk c w = (out, us_client s, us_world s)"
  using assms by (simp add: BofWebClient_Upload_def readable_def Let_def)

lemma touches_only_eq:
  assumes "touches_only session path S S'" "ud_tasks S' session = ud_tasks S session" "ud_fs S' path = Some file"
  shows "S' = S\<lparr>ud_fs := (ud_fs S)(path \<mapsto> file)\<rparr>"
proof (rule updown_server.equality)
  show "ud_fs S' = ud_fs (S\<lparr>ud_fs := (ud_fs S)(path \<mapsto> file)\<rparr>)"
    using assms by (auto simp: touches_only_def)
  show "ud_tasks S' = ud_tasks (S\<lparr>ud_fs := (ud_fs S)(path \<mapsto> file)\<rparr>)"
  proof
    fix s show "ud_tasks S' s = ud_tasks (S\<lparr>ud_fs := (ud_fs S)(path \<mapsto> file)\<rparr>) s"
      using assms by (cases "s = session") (simp_all add: touches_only_def)
  qed
qed (use assms in \<open>simp_all add: touches_only_def\<close>)

text \<open>From the first chunk to the end, the world the client leaves.\<close>

lemma upload_loop_stored:
  assumes "countable (length (ue_file E)) (unat (upload_chunk chunk))" "2 \<le> length (ue_file E)"
    and "\<And>pos n. ue_can_read E pos n" "ue_net E = updown_net io now params fresh" "willing io path"
    and "mpuHttpClient c \<noteq> None" "addressed (params (ue_uri E)) S path" "ud_tasks S (ue_session E) = None"
  shows "\<exists>s. upload_loop E (upload_start E chunk c (Some S)) = (Returned True, s) \<and>
    us_world s = Some (S\<lparr>ud_fs := (ud_fs S)(path \<mapsto> ue_file E)\<rparr>)"
proof -
  let ?s = "upload_start E chunk c (Some S)"
  have inv: "upload_inv E (unat (upload_chunk chunk)) 0 ?s"
    by (rule upload_start_inv [OF countable_bounds(1) [OF assms(1)]])
  have "\<exists>s' S'. upload_loop E ?s = (Returned True, s') \<and> us_world s' = Some S' \<and>
      ud_fs S' path = Some (ue_file E) \<and> ud_tasks S' (ue_session E) = None \<and> touches_only (ue_session E) path S S'"
    by (rule upload_to_end [OF assms(1-5) inv])
      (use assms in \<open>auto simp: upload_start_def upload_at_def\<close>)
  then obtain s S' where r: "upload_loop E ?s = (Returned True, s)" "us_world s = Some S'"
      "ud_fs S' path = Some (ue_file E)" "ud_tasks S' (ue_session E) = None" "touches_only (ue_session E) path S S'" by blast
  have "S' = S\<lparr>ud_fs := (ud_fs S)(path \<mapsto> ue_file E)\<rparr>"
    by (rule touches_only_eq [OF r(5) _ r(3)]) (simp add: r(4) assms(8))
  with r(1,2) show ?thesis by blast
qed


text \<open>C10. What a download brings back from the server: a file that fits one chunk, exactly.  Any larger
  file is refused: before the last chunk the client asks again for a byte it has, which is not the range the
  server expects, so the call returns false and the local file lacks the last chunk.  The server is left as
  it was.\<close>

theorem download_from_the_server:
  assumes "mpuHttpClient c = Some h" "io_can_open cio dst" "\<And>old new. length new \<le> io_accepts cio old new"
    and "countable (length file) (unat chunk)" "0 < length file"
    and "readable sio path" "addressed (params uri) S path" "ud_fs S path = Some file"
    and "ud_tasks S (S_GenerateSessionId rnd 36) = None"
  defines "stored \<equiv> if length file \<le> unat chunk then file else take ((length file - 1) div unat chunk * unat chunk) file"
  shows "\<exists>c'. BofWebClient_Download (updown_net sio now params fresh) rnd cio fs uri dst cr dr ka chunk c (Some S) =
    Some (length file \<le> unat chunk, fs(dst \<mapsto> stored), c', Some S)"
proof -
  let ?E = "\<lparr>de_net = updown_net sio now params fresh, de_uri = uri, de_compress = cr, de_decompress = dr,
    de_keep_alive = ka, de_accepts = io_accepts cio, de_session = S_GenerateSessionId rnd 36\<rparr>"
  let ?s = "download_start chunk c (Some S)" and ?c = "unat chunk"
  have c: "0 < ?c" using countable_bounds(2) [OF assms(4)] .
  have at: "client_at ?s file ?c 0"
    using assms(1) c by (simp add: client_at_def asks_def download_start_def ucast_last_byte)
  have srv: "download_at (de_session ?E) path file ?c 0 S" using assms(8,9) by (simp add: download_at_def)
  have w: "ds_world ?s = Some S" by (simp add: download_start_def)
  have acc: "\<And>old new. length new \<le> de_accepts ?E old new" using assms(3) by simp
  have ad: "addressed (params (de_uri ?E)) S path" using assms(7) by simp
  have net: "de_net ?E = updown_net sio now params fresh" by simp
  have "\<exists>s' S'. download_loop ?E ?s = Some (length file \<le> ?c, s') \<and> ds_file s' = stored \<and> ds_world s' = Some S' \<and>
    ud_tasks S' (de_session ?E) = None \<and> touches_only (de_session ?E) path S S' \<and> ud_fs S' path = Some file"
  proof (cases "length file \<le> ?c")
    case True
    have q: "min (Suc 0 * ?c) (length file) = length file" using True by simp
    from download_turn [OF at assms(4) _ net acc w srv assms(6) ad] assms(5) obtain s' S' where
      "download_step ?E ?s = Inl (True, s')" "ds_file s' = file" "ds_world s' = Some S'"
      "download_at (de_session ?E) path file ?c (Suc 0) S'" "touches_only (de_session ?E) path S S'"
      unfolding q by auto
    then show ?thesis
      using True download_loop_Inl [of ?E ?s "(True, s')"] by (auto simp: stored_def download_at_def)
  next
    case False
    from download_to_refusal [OF assms(4) net acc assms(6) at _ w srv ad] False show ?thesis
      by (auto simp: stored_def)
  qed
  then obtain s' S' where r: "download_loop ?E ?s = Some (length file \<le> ?c, s')" "ds_file s' = stored" "ds_world s' = Some S'"
      "ud_tasks S' (S_GenerateSessionId rnd 36) = None" "touches_only (S_GenerateSessionId rnd 36) path S S'"
      "ud_fs S' path = Some file" by auto
  have "S' = S\<lparr>ud_fs := (ud_fs S)(path \<mapsto> file)\<rparr>"
    by (rule touches_only_eq [OF r(5) _ r(6)]) (simp add: r(4) assms(9))
  also have "(ud_fs S)(path \<mapsto> file) = ud_fs S" using assms(8) by auto
  finally have "S' = S" by simp
  then show ?thesis using r(1-3) assms(1,2) by (simp add: BofWebClient_Download_def Let_def)
qed

text \<open>C9. Uploads do not interfere.  The requests of an upload, in order, with any requests of other sessions between
  them, all handled one after the other: when no other session posts to the same path, no request is a bad
  one and no session both uploads and downloads, the server answers all of them, the file ends up complete
  and the session is closed.  (Handlers that overlap in time are not covered.)\<close>

theorem uploads_do_not_interfere:
  assumes "countable (length file) c" "2 \<le> length file" "willing io path"
    and "length file \<le> K * c" "(K - 1) * c < length file"
    and "addressed (params uri) S path" "ud_tasks S session = None" "alone_on session path S"
    and "filter (of_session session) rqs =
      map (upload_request uri session (word_of_nat (length file))) (upload_plan file c K)"
    and "\<forall>rq \<in> set rqs. \<not> of_session session rq \<longrightarrow> harmless m params S path rq"
    and "tasks_fit m S" "\<not> m session"
  shows "\<exists>rs S'. serve_all io now params fresh rqs S = Some (rs, S') \<and>
    ud_fs S' path = Some file \<and> ud_tasks S' session = None"
proof -
  have "\<exists>rs S'. serve_all io now params fresh rqs S = Some (rs, S') \<and> upload_at session path file c K S'"
    by (rule interleaved_run [OF assms(1-3,5) _ assms(8,6,11,12,10), of 0])
      (use assms(7,9) in \<open>simp_all add: upload_at_def upload_requests_def\<close>)
  moreover have "0 < K" using assms(2,4) by (cases K) simp_all
  ultimately show ?thesis using assms(4) by (auto simp: upload_at_def)
qed

text \<open>C33. One request with a climbing path or an unreadable range takes the server down, because the refusal
  itself uses an iterator that was never set: nothing answers it, and every later upload returns false.\<close>

theorem bad_request_takes_the_server_down:
  assumes "bad_request params S rq" and "mpuHttpClient c = Some hc" "readable cio src" "fs src = Some file"
    and "0 < length file" "length file < 2 ^ 63"
  shows "\<exists>w c'. updown_net sio now params fresh h rq (Some S) = (None, w) \<and>
    BofWebClient_Upload (updown_net sio now params fresh) log_args rnd cio fs src uri cr dr ka chunk c w =
      (Returned False, c', w)"
proof -
  let ?E = "\<lparr>ue_net = updown_net sio now params fresh, ue_log_args = log_args, ue_uri = uri, ue_compress = cr, ue_decompress = dr,
        ue_keep_alive = ka, ue_can_read = io_can_read cio, ue_file = file, ue_session = S_GenerateSessionId rnd 36\<rparr>"
  let ?s = "upload_start ?E chunk c None" and ?c = "unat (upload_chunk chunk)"
  have len: "length (ue_file ?E) < 2 ^ 63" using assms(6) by simp
  have inv: "upload_inv ?E ?c 0 ?s" by (rule upload_start_inv [OF len])
  have pos: "us_pos ?s = 0" "us_world ?s = None" by (simp_all add: upload_start_def)
  have net: "ue_net ?E = updown_net sio now params fresh" by simp
  have "unat (us_max ?s - us_min ?s + 1) = min ?c (length file)"
    using upload_inv_read_size [OF inv len] pos by simp
  then have "fread1 (ue_can_read ?E) (ue_file ?E) 0 (unat (us_max ?s - us_min ?s + 1)) = Some (take ?c file)"
    using assms(3,5) upload_chunk_bounds(1) [of chunk] by (simp add: fread1_def readable_def min_def)
  from upload_turn_down [OF net pos(2,1) this]
  obtain s' where "upload_step ?E ?s = Inl (Returned False, s')" "us_world s' = None" by auto
  then have "upload_loop ?E ?s = (Returned False, s')" "us_world s' = None" by (simp_all add: upload_loop_Inl)
  then show ?thesis
    using upload_client_run [where fs = fs and src = src, OF assms(2-4) refl] bad_request_net [OF assms(1)] by metis
qed

section \<open>Samples\<close>

text \<open>The server of the witnesses: two routes, one file, no task.\<close>

definition sample_params :: "string \<Rightarrow> string \<Rightarrow> string option" where
  "sample_params uri = (if uri = ''/up'' then [''dir'' \<mapsto> ''update'', ''file'' \<mapsto> ''data.bin'']
     else [''dir'' \<mapsto> ''log'', ''file'' \<mapsto> ''data.log''])"

definition sample_server :: updown_server where
  "sample_server = \<lparr>ud_root = ''/srv'', ud_fs = [''/srv/log/data.log'' \<mapsto> sample_file], ud_tasks = (\<lambda>_. None)\<rparr>"

definition sample_fresh :: http_response where
  "sample_fresh = \<lparr>rs_status = 0, rs_headers = no_headers, rs_body = []\<rparr>"

lemma sample_addressed:
  "addressed (sample_params ''/up'') sample_server ''/srv/update/data.bin''"
  "addressed (sample_params ''/down'') sample_server ''/srv/log/data.log''"
  by (simp_all add: addressed_def sample_params_def sample_server_def request_path_def)

lemma sample_devices: "readable sample_io p" "willing sample_io p"
  by (simp_all add: readable_def willing_def sample_io_def)


lemma download_from_the_server_witness:
  "\<exists>c'. BofWebClient_Download (updown_net sample_io 0 sample_params sample_fresh) (\<lambda>_. 0) sample_io (\<lambda>_. None) ''/down''
      ''copy.bin'' False False True 2 sample_client (Some sample_server) =
    Some (False, (\<lambda>_. None)(''copy.bin'' \<mapsto> [10, 20, 30, 40]), c', Some sample_server)"
proof -
  have "\<exists>c'. BofWebClient_Download (updown_net sample_io 0 sample_params sample_fresh) (\<lambda>_. 0) sample_io (\<lambda>_. None) ''/down''
      ''copy.bin'' False False True 2 sample_client (Some sample_server) =
    Some (length sample_file \<le> unat (2 :: u32), (\<lambda>_. None)(''copy.bin'' \<mapsto>
      (if length sample_file \<le> unat (2 :: u32) then sample_file
       else take ((length sample_file - 1) div unat (2 :: u32) * unat (2 :: u32)) sample_file)), c', Some sample_server)"
    by (rule download_from_the_server)
      (rule sample_session sample_accepts sample_devices sample_addressed(2) |
        simp add: countable_def sample_file_def sample_server_def)+
  then show ?thesis by (simp add: sample_file_def)
qed

text \<open>An upload of three chunks with two requests of another session in between.\<close>

definition sample_other :: http_request where
  "sample_other = \<lparr>rq_method = HTTP_GET, rq_uri = ''/down'',
     rq_headers = no_headers(''Session-Id'' := ''B'', ''Content-Range'' := content_range 0 1 0), rq_body = [], rq_body_type = []\<rparr>"

definition sample_requests :: "http_request list" where
  "sample_requests = (case map (upload_request ''/up'' ''A'' 5) (upload_plan sample_file 2 3) of
     [a, b, c] \<Rightarrow> [a, sample_other, b, sample_other, c] | _ \<Rightarrow> [])"

lemma sample_plan:
  "upload_plan sample_file 2 3 = [(0, 1, [10, 20]), (2, 3, [30, 40]), (4, 4, [50])]"
  by (simp add: upload_plan_def sample_file_def upt_rec)

lemma sample_requests_eq:
  "sample_requests = [upload_request ''/up'' ''A'' 5 (0, 1, [10, 20]), sample_other,
     upload_request ''/up'' ''A'' 5 (2, 3, [30, 40]), sample_other, upload_request ''/up'' ''A'' 5 (4, 4, [50])]"
  by (simp add: sample_requests_def sample_plan)

lemma uploads_do_not_interfere_witness:
  "\<exists>rs S'. serve_all sample_io 0 sample_params sample_fresh sample_requests sample_server = Some (rs, S') \<and>
     ud_fs S' ''/srv/update/data.bin'' = Some sample_file \<and> ud_tasks S' ''A'' = None"
  by (rule uploads_do_not_interfere [where c = 2 and K = 3 and m = "\<lambda>s. s = ''B''" and uri = "''/up''" and params = sample_params and
      session = "''A''" and io = sample_io and path = "''/srv/update/data.bin''" and S = sample_server, OF _ _ sample_devices(2) _ _ sample_addressed(1)])
    (simp_all add: countable_def sample_file_def sample_server_def alone_on_def sample_requests_eq of_session_def
      upload_request_def sample_other_def harmless_def uses_one_method_def bad_request_def sample_params_def request_path_def
      tasks_fit_def stays_away_def sample_plan [unfolded sample_file_def])

lemma bad_request_takes_the_server_down_witness:
  "\<exists>w c'. updown_net sample_io 0 (\<lambda>_. [''dir'' \<mapsto> ''..'', ''file'' \<mapsto> ''passwd'']) sample_fresh
      (new_http_client ''localhost'' None) sample_other (Some sample_server) = (None, w) \<and>
    BofWebClient_Upload (updown_net sample_io 0 (\<lambda>_. [''dir'' \<mapsto> ''..'', ''file'' \<mapsto> ''passwd'']) sample_fresh) True (\<lambda>_. 0)
      sample_io sample_fs ''data.bin'' ''/up'' False False True 2 sample_client w = (Returned False, c', w)"
  by (rule bad_request_takes_the_server_down)
    (rule sample_setting(1) sample_devices sample_setting(3) |
      simp add: bad_request_def sample_other_def sample_server_def request_path_def sample_file_def)+

end
