(* ===== verification/WebServer.thy ===== *)
theory WebServer
  imports WebClient
begin

text \<open>
  The HTTP server object (\<^verbatim>\<open>src/src/bofwebserver.cpp\<close>, \<^verbatim>\<open>include/bofwebrpc/bofwebserver.h\<close>): its
  parameters and how the constructor corrects them, the registration of routes and mount points,
  the hooks, and the polling loops of \<^verbatim>\<open>Start\<close> and \<^verbatim>\<open>Stop\<close>.  The cpp-httplib server is a record of
  what the code stores in it; what its listening thread does is an input: the value of
  \<^verbatim>\<open>is_running()\<close> and of the elapsed time at each reading, and whether a join returns.
\<close>

section \<open>Parameters\<close>

record web_server_param =
  DiscoverTimeoutInMs_U32 :: u32
  ServerStartStopTimeoutInMs_U32 :: u32
  CertificatePath_S :: string
  PrivateKeyPath_S :: string
  LogRequestAndResponse_B :: bool
  KeepAliveMaxCount_U32 :: u32
  KeepAliveTimeoutInMs_U32 :: u32
  srvReadTimeoutInMs_U32 :: u32
  srvWriteTimeoutInMs_U32 :: u32
  IdleIntervalInMs_U32 :: u32
  PayloadMaxLengthInByte_U32 :: u32
  ThreadPoolSize_U32 :: u32
  RootDir_S :: string
  DisableCors_B :: bool
  srvWebAppParam_X :: web_app_param

definition BOF_WEB_SERVER_PARAM_Reset :: "web_server_param \<Rightarrow> web_server_param" where
  [reset_defs]: "BOF_WEB_SERVER_PARAM_Reset p =
     p\<lparr>DiscoverTimeoutInMs_U32 := 0, ServerStartStopTimeoutInMs_U32 := 0, CertificatePath_S := [],
       PrivateKeyPath_S := [], LogRequestAndResponse_B := False, KeepAliveMaxCount_U32 := 0,
       KeepAliveTimeoutInMs_U32 := 0, srvReadTimeoutInMs_U32 := 0, srvWriteTimeoutInMs_U32 := 0,
       IdleIntervalInMs_U32 := 0, PayloadMaxLengthInByte_U32 := 0, ThreadPoolSize_U32 := 0,
       RootDir_S := [], DisableCors_B := False,
       srvWebAppParam_X := BOF_WEB_APP_PARAM_Reset (srvWebAppParam_X p)\<rparr>"

section \<open>The server object\<close>

text \<open>The hooks the constructor installs and the handlers the application registers (type \<open>'h\<close>).\<close>

datatype hook =
    FileRequestHook | ErrorHook | ExceptionHook | PreRoutingHook | PostRoutingHook
  | Expect100Hook | SocketOptionHook | LoggerHook

datatype 'h handler = CorsHandler | AppHandler 'h | AppReaderHandler 'h

record 'h http_server =
  hs_secure :: bool
  hs_pool_size :: u32
  hs_default_headers :: "(string \<times> string) list"
  hs_routes :: "(http_method \<times> string \<times> 'h handler) list"
  hs_mime :: "(string \<times> string) list"
  hs_hooks :: "hook list"
  hs_keep_alive_max_count :: u32
  hs_keep_alive_timeout_s :: u32
  hs_read_timeout_ms :: u32
  hs_write_timeout_ms :: u32
  hs_idle_interval_ms :: u32
  hs_payload_max :: u32
  hs_mounts :: "(string \<times> string) list"

datatype server_event = EvListen string u16 | EvStop | EvJoin

record 'h web_server =
  mWebServerParam_X :: web_server_param
  mHost_X :: web_app_host
  mpHttpsServer :: bool
  mpHttpServer :: "'h http_server option"
  mStopServerThread :: bool
  mServerThread_joinable :: bool
  srv_reads :: nat
  srv_events :: "server_event list"

text \<open>The thread pool parameters of \<^verbatim>\<open>BofWebServerTaskQueue\<close>, and its queue as the pool sees it.\<close>

record thread_pool_param =
  tp_PoolSize_U32 :: u32
  tp_MaxQueuedRequests_U32 :: u32
  tp_BaseName_S :: string
  tp_PriorityInversionAware_B :: bool
  tp_ThreadCpuCoreAffinityMask_U64 :: u64
  tp_StackSize_U32 :: u32

record 'p task_queue =
  mpuThreadPool :: "'p option"
  mpBofWebServer :: bool

definition task_queue_param :: "u64 \<Rightarrow> thread_pool_param" where
  "task_queue_param PoolSize =
     \<lparr>tp_PoolSize_U32 = ucast PoolSize, tp_MaxQueuedRequests_U32 = ucast (PoolSize div 2),
      tp_BaseName_S = ''BofWebServer'', tp_PriorityInversionAware_B = False,
      tp_ThreadCpuCoreAffinityMask_U64 = 0, tp_StackSize_U32 = 0\<rparr>"

definition BofWebServerTaskQueue :: "(thread_pool_param \<Rightarrow> 'p) \<Rightarrow> bool \<Rightarrow> u64 \<Rightarrow> 'p task_queue" where
  "BofWebServerTaskQueue make_pool server PoolSize =
     \<lparr>mpuThreadPool = Some (make_pool (task_queue_param PoolSize)), mpBofWebServer = server\<rparr>"

text \<open>\<open>pool_enqueue\<close> is \<^verbatim>\<open>BofThreadPool::Enqueue\<close>; after \<open>shutdown\<close> there is no pool to call it on.\<close>

definition task_queue_enqueue :: "('p \<Rightarrow> 'f \<Rightarrow> bool \<times> 'p) \<Rightarrow> 'f \<Rightarrow> 'p task_queue \<Rightarrow> (bool \<times> 'p task_queue) outcome" where
  "task_queue_enqueue pool_enqueue fn q =
     (case mpuThreadPool q of
        None \<Rightarrow> NullDeref
      | Some p \<Rightarrow> (case pool_enqueue p fn of (ok, p') \<Rightarrow> Returned (ok, q\<lparr>mpuThreadPool := Some p'\<rparr>)))"

definition task_queue_shutdown :: "'p task_queue \<Rightarrow> 'p task_queue" where
  "task_queue_shutdown q = q\<lparr>mpuThreadPool := None\<rparr>"

definition task_queue_on_idle :: "('s \<Rightarrow> 's) \<Rightarrow> 'p task_queue \<Rightarrow> 's \<Rightarrow> 's" where
  "task_queue_on_idle V_OnIdle q s = (if mpBofWebServer q then V_OnIdle s else s)"

section \<open>Construction\<close>

definition new_http_server :: "bool \<Rightarrow> 'h http_server" where
  "new_http_server secure =
     \<lparr>hs_secure = secure, hs_pool_size = 0, hs_default_headers = [], hs_routes = [], hs_mime = [],
      hs_hooks = [], hs_keep_alive_max_count = 0, hs_keep_alive_timeout_s = 0, hs_read_timeout_ms = 0,
      hs_write_timeout_ms = 0, hs_idle_interval_ms = 0, hs_payload_max = 0, hs_mounts = []\<rparr>"

text \<open>How the constructor corrects the parameters it was given.\<close>

definition corrected_param :: "web_server_param \<Rightarrow> web_server_param" where
  "corrected_param p =
     p\<lparr>ThreadPoolSize_U32 := (if ThreadPoolSize_U32 p = 0 then 4 else ThreadPoolSize_U32 p),
       KeepAliveMaxCount_U32 := (if KeepAliveMaxCount_U32 p = 0 then 1 else KeepAliveMaxCount_U32 p),
       KeepAliveTimeoutInMs_U32 := (if KeepAliveTimeoutInMs_U32 p < 1000 then 1000 else KeepAliveTimeoutInMs_U32 p),
       PayloadMaxLengthInByte_U32 := (if PayloadMaxLengthInByte_U32 p = 0 then 0x1000 else PayloadMaxLengthInByte_U32 p)\<rparr>"

text \<open>
  \<open>root_is_dir\<close> is the answer of \<^verbatim>\<open>Bof_IsPathExist\<close> on the root directory: it exists and is a
  directory.  \<^verbatim>\<open>new\<close> never yields a null pointer, so the server is always there.
\<close>

definition configured_server :: "web_server_param \<Rightarrow> bool \<Rightarrow> bool \<Rightarrow> 'h http_server" where
  "configured_server p secure root_is_dir =
     (new_http_server secure)
       \<lparr>hs_pool_size := ThreadPoolSize_U32 p,
        hs_default_headers := (''User-Agent'', ''BofWebRpcAgent/1.0.0'') #
          (if DisableCors_B p then [(''Access-Control-Allow-Origin'', ''*'')] else []),
        hs_routes := (if DisableCors_B p then [(HTTP_OPTIONS, ''/.*'', CorsHandler)] else []),
        hs_mime := [(''.tar.gz'', ''application/octet-stream''), (''.json'', ''application/json'')],
        hs_hooks := [FileRequestHook, ErrorHook, ExceptionHook, PreRoutingHook, PostRoutingHook,
          Expect100Hook, SocketOptionHook] @ (if LogRequestAndResponse_B p then [LoggerHook] else []),
        hs_keep_alive_max_count := KeepAliveMaxCount_U32 p,
        hs_keep_alive_timeout_s := KeepAliveTimeoutInMs_U32 p div 1000,
        hs_read_timeout_ms := srvReadTimeoutInMs_U32 p,
        hs_write_timeout_ms := srvWriteTimeoutInMs_U32 p,
        hs_idle_interval_ms := IdleIntervalInMs_U32 p,
        hs_payload_max := PayloadMaxLengthInByte_U32 p,
        hs_mounts := (if root_is_dir then [(''/'', RootDir_S p)] else [])\<rparr>"

definition BofWebServer :: "web_server_param \<Rightarrow> (string \<Rightarrow> bool) \<Rightarrow> 'h web_server" where
  "BofWebServer param is_dir =
     (let secure = CertificatePath_S param \<noteq> [] \<and> PrivateKeyPath_S param \<noteq> [];
          p = corrected_param param
      in \<lparr>mWebServerParam_X = p, mHost_X = \<lparr>IpAddress_S = [], Port_U16 = 0, BannedIpAddressCollection = {}\<rparr>, mpHttpsServer = secure,
          mpHttpServer = Some (configured_server p secure (is_dir (RootDir_S p))),
          mStopServerThread = False, mServerThread_joinable = False, srv_reads = 0, srv_events = []\<rparr>)"

definition GetWebServerParam :: "'h web_server \<Rightarrow> web_server_param" where
  "GetWebServerParam s = mWebServerParam_X s"

text \<open>What the CORS route of the constructor answers: status and headers.\<close>

definition cors_reply :: "nat \<times> (string \<times> string) list" where
  "cors_reply = (OK_200, [(''Allow'', ''*''), (''Access-Control-Allow-Headers'', ''*''),
     (''Access-Control-Allow-Methods'', ''*'')])"

section \<open>Routes and mount points\<close>

text \<open>Every registration guards the server pointer; the routes are kept in the order they came.\<close>

definition add_route :: "http_method \<Rightarrow> string \<Rightarrow> 'h handler \<Rightarrow> 'h web_server \<Rightarrow> bool \<times> 'h web_server" where
  "add_route m uri h s =
     (case mpHttpServer s of
        None \<Rightarrow> (False, s)
      | Some hs \<Rightarrow> (True, s\<lparr>mpHttpServer := Some (hs\<lparr>hs_routes := hs_routes hs @ [(m, uri, h)]\<rparr>)\<rparr>))"

definition BofWebServer_Get :: "string \<Rightarrow> 'h \<Rightarrow> 'h web_server \<Rightarrow> bool \<times> 'h web_server" where
  "BofWebServer_Get uri h = add_route HTTP_GET uri (AppHandler h)"

definition BofWebServer_Post :: "string \<Rightarrow> 'h \<Rightarrow> 'h web_server \<Rightarrow> bool \<times> 'h web_server" where
  "BofWebServer_Post uri h = add_route HTTP_POST uri (AppHandler h)"

definition BofWebServer_Post_reader :: "string \<Rightarrow> 'h \<Rightarrow> 'h web_server \<Rightarrow> bool \<times> 'h web_server" where
  "BofWebServer_Post_reader uri h = add_route HTTP_POST uri (AppReaderHandler h)"

definition BofWebServer_Put :: "string \<Rightarrow> 'h \<Rightarrow> 'h web_server \<Rightarrow> bool \<times> 'h web_server" where
  "BofWebServer_Put uri h = add_route HTTP_PUT uri (AppHandler h)"

definition BofWebServer_Put_reader :: "string \<Rightarrow> 'h \<Rightarrow> 'h web_server \<Rightarrow> bool \<times> 'h web_server" where
  "BofWebServer_Put_reader uri h = add_route HTTP_PUT uri (AppReaderHandler h)"

definition BofWebServer_Patch :: "string \<Rightarrow> 'h \<Rightarrow> 'h web_server \<Rightarrow> bool \<times> 'h web_server" where
  "BofWebServer_Patch uri h = add_route HTTP_PATCH uri (AppHandler h)"

definition BofWebServer_Delete :: "string \<Rightarrow> 'h \<Rightarrow> 'h web_server \<Rightarrow> bool \<times> 'h web_server" where
  "BofWebServer_Delete uri h = add_route HTTP_DELETE uri (AppHandler h)"

definition BofWebServer_Options :: "string \<Rightarrow> 'h \<Rightarrow> 'h web_server \<Rightarrow> bool \<times> 'h web_server" where
  "BofWebServer_Options uri h = add_route HTTP_OPTIONS uri (AppHandler h)"

lemmas route_defs =
  BofWebServer_Get_def BofWebServer_Post_def BofWebServer_Post_reader_def BofWebServer_Put_def
  BofWebServer_Put_reader_def BofWebServer_Patch_def BofWebServer_Delete_def BofWebServer_Options_def

text \<open>\<open>set_mount\<close> and \<open>remove_mount\<close> are the library's two calls: whether they succeed, and the new list.
  The headers given to \<open>SetMountPoint\<close> are not passed on.\<close>

definition SetMountPoint ::
    "(string \<Rightarrow> string \<Rightarrow> (string \<times> string) list \<Rightarrow> bool \<times> (string \<times> string) list) \<Rightarrow>
     string \<Rightarrow> string \<Rightarrow> (string \<times> string) list \<Rightarrow> 'h web_server \<Rightarrow> bool \<times> 'h web_server" where
  "SetMountPoint set_mount mount dir headers s =
     (case mpHttpServer s of
        None \<Rightarrow> (False, s)
      | Some hs \<Rightarrow> (case set_mount mount dir (hs_mounts hs) of
                      (ok, ms) \<Rightarrow> (ok, s\<lparr>mpHttpServer := Some (hs\<lparr>hs_mounts := ms\<rparr>)\<rparr>)))"

definition RemoveMountPoint ::
    "(string \<Rightarrow> (string \<times> string) list \<Rightarrow> bool \<times> (string \<times> string) list) \<Rightarrow>
     string \<Rightarrow> 'h web_server \<Rightarrow> bool \<times> 'h web_server" where
  "RemoveMountPoint remove_mount mount s =
     (case mpHttpServer s of
        None \<Rightarrow> (False, s)
      | Some hs \<Rightarrow> (case remove_mount mount (hs_mounts hs) of
                      (ok, ms) \<Rightarrow> (ok, s\<lparr>mpHttpServer := Some (hs\<lparr>hs_mounts := ms\<rparr>)\<rparr>)))"

definition SetFileExtensionAndMimetypeMapping :: "string \<Rightarrow> string \<Rightarrow> 'h web_server \<Rightarrow> bool \<times> 'h web_server" where
  "SetFileExtensionAndMimetypeMapping ext mime s =
     (case mpHttpServer s of
        None \<Rightarrow> (False, s)
      | Some hs \<Rightarrow> (True, s\<lparr>mpHttpServer := Some (hs\<lparr>hs_mime := hs_mime hs @ [(ext, mime)]\<rparr>)\<rparr>))"

section \<open>Hooks\<close>

text \<open>\<open>what\<close> is the text of a \<^verbatim>\<open>std::exception\<close>, or \<open>None\<close> for any other exception.\<close>

definition V_OnException :: "string option \<Rightarrow> nat \<times> string \<times> string" where
  "V_OnException what =
     (let text = (case what of Some w \<Rightarrow> c_str w | None \<Rightarrow> ''Unknown Exception'')
      in (500, ''text/html'', snprintf_buf 0x100 (''<h1>Error 500</h1><p>'' @ text @ ''</p>'')))"

datatype handler_response = Handled | Unhandled

definition OnPreRouting :: "('q \<Rightarrow> 'r \<Rightarrow> bool \<times> 'r) \<Rightarrow> 'q \<Rightarrow> 'r \<Rightarrow> handler_response \<times> 'r" where
  "OnPreRouting V_OnPreRouting req res =
     (case V_OnPreRouting req res of (b, res') \<Rightarrow> (if b then Handled else Unhandled, res'))"

section \<open>Start and Stop\<close>

text \<open>
  The world of one server: \<open>running n\<close> is the \<open>n\<close>-th answer of \<^verbatim>\<open>is_running()\<close>, \<open>elapsed n\<close> the elapsed
  time read after it, \<open>joins n\<close> whether a join started then returns.
\<close>

record server_world =
  sw_running :: "nat \<Rightarrow> bool"
  sw_elapsed :: "nat \<Rightarrow> u32"
  sw_joins :: "nat \<Rightarrow> bool"

definition IsRunning :: "server_world \<Rightarrow> 'h web_server \<Rightarrow> bool \<times> 'h web_server" where
  "IsRunning W s =
     (case mpHttpServer s of
        None \<Rightarrow> (False, s)
      | Some _ \<Rightarrow> (sw_running W (srv_reads s), s\<lparr>srv_reads := Suc (srv_reads s)\<rparr>))"

text \<open>The polling loop both operations have, until \<open>IsRunning\<close> gives \<open>target\<close> or the time is over.\<close>

partial_function (option) wait_running ::
    "server_world \<Rightarrow> bool \<Rightarrow> 'h web_server \<Rightarrow> 'h web_server option" where
  "wait_running W target s =
     (let n = srv_reads s; (r, s1) = IsRunning W s
      in if r = target then Some s1
         else if sw_elapsed W n < ServerStartStopTimeoutInMs_U32 (mWebServerParam_X s1) then wait_running W target s1
         else Some s1)"

datatype 'a srv_call = Ret 'a | NullCall | Throws | Hangs

definition BofWebServer_Stop :: "server_world \<Rightarrow> 'h web_server \<Rightarrow> (bool \<times> 'h web_server) srv_call" where
  "BofWebServer_Stop W s =
     (case mpHttpServer s of
        None \<Rightarrow> NullCall
      | Some _ \<Rightarrow>
          (let s1 = s\<lparr>srv_events := srv_events s @ [EvStop]\<rparr>
           in case wait_running W False s1 of
                None \<Rightarrow> Hangs
              | Some s2 \<Rightarrow>
                  (let (r, s3) = IsRunning W s2;
                       s4 = s3\<lparr>mStopServerThread := True\<rparr>
                   in if mServerThread_joinable s4 then
                        (if sw_joins W (srv_reads s4) then
                           Ret (\<not> r, s4\<lparr>mServerThread_joinable := False, srv_events := srv_events s4 @ [EvJoin]\<rparr>)
                         else Hangs)
                      else Ret (\<not> r, s4))))"

text \<open>\<open>cfg_host\<close> is the host of the configuration, \<open>None\<close> when reading it throws.\<close>

definition BofWebServer_Start ::
    "server_world \<Rightarrow> web_app_host option \<Rightarrow> string \<Rightarrow> u16 \<Rightarrow> 'h web_server \<Rightarrow> (bool \<times> 'h web_server) srv_call" where
  "BofWebServer_Start W cfg_host ip port s =
     (case (if ip = [] then cfg_host else Some ((mHost_X s)\<lparr>IpAddress_S := ip, Port_U16 := port\<rparr>)) of
        None \<Rightarrow> Throws
      | Some host \<Rightarrow>
          (let s1 = s\<lparr>mHost_X := host, mStopServerThread := False\<rparr>
           in case (if mServerThread_joinable s1 then BofWebServer_Stop W s1 else Ret (True, s1)) of
                Ret (_, s2) \<Rightarrow>
                  (if mpHttpServer s2 = None then NullCall
                   else let s3 = s2\<lparr>mServerThread_joinable := True,
                          srv_events := srv_events s2 @ [EvListen (c_str (IpAddress_S host)) (Port_U16 host)]\<rparr>
                   in case wait_running W True s3 of
                        None \<Rightarrow> Hangs
                      | Some s4 \<Rightarrow> Ret (IsRunning W s4))
              | NullCall \<Rightarrow> NullCall | Throws \<Rightarrow> Throws | Hangs \<Rightarrow> Hangs))"

definition BofWebServer_destroy :: "server_world \<Rightarrow> 'h web_server \<Rightarrow> 'h web_server srv_call" where
  "BofWebServer_destroy W s =
     (case BofWebServer_Stop W s of
        Ret (_, s') \<Rightarrow> Ret (s'\<lparr>mpHttpServer := None\<rparr>)
      | NullCall \<Rightarrow> NullCall | Throws \<Rightarrow> Throws | Hangs \<Rightarrow> Hangs)"

section \<open>Lemmas\<close>

lemma IsRunning_reads:
  "IsRunning W s = (r, s') \<Longrightarrow> \<exists>k. s' = s\<lparr>srv_reads := k\<rparr>"
  by (auto simp: IsRunning_def split: option.splits intro: exI [of _ "srv_reads s"])

lemma IsRunning_Some:
  "mpHttpServer s = Some hs \<Longrightarrow>
     IsRunning W s = (sw_running W (srv_reads s), s\<lparr>srv_reads := Suc (srv_reads s)\<rparr>)"
  by (simp add: IsRunning_def)

text \<open>The polling loop changes nothing but the number of readings.\<close>

lemma wait_running_frame:
  assumes "wait_running W target s = Some s'"
  shows "\<exists>k. s' = s\<lparr>srv_reads := k\<rparr>"
proof (rule wait_running.raw_induct [OF _ assms])
  fix loop W' target' s and s' :: "'a web_server"
  assume IH: "\<And>W' target' s s'. loop W' target' s = Some s' \<Longrightarrow> \<exists>k. s' = s\<lparr>srv_reads := k\<rparr>"
    and run: "(let n = srv_reads s; (r, s1) = IsRunning W' s
      in if r = target' then Some s1
         else if sw_elapsed W' n < ServerStartStopTimeoutInMs_U32 (mWebServerParam_X s1) then loop W' target' s1
         else Some s1) = Some s'"
  obtain r s1 where r: "IsRunning W' s = (r, s1)" by fastforce
  obtain k where k: "s1 = s\<lparr>srv_reads := k\<rparr>" using IsRunning_reads [OF r] by blast
  show "\<exists>k. s' = s\<lparr>srv_reads := k\<rparr>"
    using run r k IH [of W' target' s1 s'] by (auto simp: Let_def split: if_splits)
qed

text \<open>It ends at the latest at the first reading after the time is over.\<close>

lemma wait_running_returns:
  assumes "mpHttpServer s = Some hs"
    and "ServerStartStopTimeoutInMs_U32 (mWebServerParam_X s) \<le> sw_elapsed W (srv_reads s + d)"
  shows "\<exists>k. wait_running W target s = Some (s\<lparr>srv_reads := k\<rparr>) \<and> srv_reads s < k \<and> k \<le> Suc (srv_reads s + d)"
  using assms
proof (induction d arbitrary: s)
  case 0
  then show ?case by (auto simp: wait_running.simps [of W target s] IsRunning_Some Let_def not_less [symmetric])
next
  case (Suc d)
  let ?s1 = "s\<lparr>srv_reads := Suc (srv_reads s)\<rparr>"
  from Suc.IH [of ?s1] Suc.prems obtain k where
    k: "wait_running W target ?s1 = Some (?s1\<lparr>srv_reads := k\<rparr>)" "srv_reads ?s1 < k" "k \<le> Suc (srv_reads ?s1 + d)"
    by auto
  show ?case
    using k Suc.prems(1)
    by (auto simp: wait_running.simps [of W target s] IsRunning_Some Let_def)
qed

text \<open>
  The listeners a run has started and joined: one \<open>EvListen\<close> more than \<open>EvJoin\<close> exactly while the thread
  is joinable.
\<close>

definition one_listener :: "'h web_server \<Rightarrow> bool" where
  "one_listener s \<longleftrightarrow>
     (let listen = length (filter (\<lambda>e. case e of EvListen _ _ \<Rightarrow> True | _ \<Rightarrow> False) (srv_events s));
          join = length (filter (\<lambda>e. e = EvJoin) (srv_events s))
      in listen = join + (if mServerThread_joinable s then 1 else 0))"

lemma one_listener_reads [simp]: "one_listener (s\<lparr>srv_reads := k\<rparr>) = one_listener s"
  by (simp add: one_listener_def)

lemma Stop_cases:
  assumes "BofWebServer_Stop W s = Ret (b, s')"
  obtains k where "s' = s\<lparr>srv_reads := k, mStopServerThread := True, mServerThread_joinable := False,
      srv_events := srv_events s @ EvStop # (if mServerThread_joinable s then [EvJoin] else [])\<rparr>"
    "mpHttpServer s \<noteq> None" "b = (\<not> sw_running W (k - 1))"
proof -
  obtain hs where hs: "mpHttpServer s = Some hs"
    using assms by (auto simp: BofWebServer_Stop_def split: option.splits)
  let ?s1 = "s\<lparr>srv_events := srv_events s @ [EvStop]\<rparr>"
  obtain s2 where s2: "wait_running W False ?s1 = Some s2"
    using assms hs by (auto simp: BofWebServer_Stop_def Let_def split: option.splits)
  then obtain k where k: "s2 = ?s1\<lparr>srv_reads := k\<rparr>" using wait_running_frame by blast
  have "b = (\<not> sw_running W k) \<and> s' = s\<lparr>srv_reads := Suc k, mStopServerThread := True,
      mServerThread_joinable := False,
      srv_events := srv_events s @ EvStop # (if mServerThread_joinable s then [EvJoin] else [])\<rparr>"
    using assms hs s2 k
    by (cases "mServerThread_joinable s")
      (auto simp: BofWebServer_Stop_def Let_def IsRunning_Some split: if_splits)
  then show thesis using that [of "Suc k"] hs by simp
qed

lemma Stop_one_listener:
  "BofWebServer_Stop W s = Ret (b, s') \<Longrightarrow> one_listener s \<Longrightarrow> one_listener s' \<and> \<not> mServerThread_joinable s'"
  by (erule Stop_cases) (auto simp: one_listener_def Let_def)

lemma Start_cases:
  assumes "BofWebServer_Start W cfg ip port s = Ret (b, s')"
  obtains s2 host k where
    "(if ip = [] then cfg else Some ((mHost_X s)\<lparr>IpAddress_S := ip, Port_U16 := port\<rparr>)) = Some host"
    "if mServerThread_joinable s
     then \<exists>b. BofWebServer_Stop W (s\<lparr>mHost_X := host, mStopServerThread := False\<rparr>) = Ret (b, s2)
     else s2 = s\<lparr>mHost_X := host, mStopServerThread := False\<rparr>"
    "s' = s2\<lparr>mServerThread_joinable := True, srv_reads := Suc k,
       srv_events := srv_events s2 @ [EvListen (c_str (IpAddress_S host)) (Port_U16 host)]\<rparr>"
    "b = sw_running W k"
proof -
  obtain host where h: "(if ip = [] then cfg else Some ((mHost_X s)\<lparr>IpAddress_S := ip, Port_U16 := port\<rparr>)) = Some host"
    using assms by (cases "if ip = [] then cfg else Some ((mHost_X s)\<lparr>IpAddress_S := ip, Port_U16 := port\<rparr>)")
      (simp_all add: BofWebServer_Start_def)
  let ?s1 = "s\<lparr>mHost_X := host, mStopServerThread := False\<rparr>"
  obtain b2 s2 where s2: "(if mServerThread_joinable ?s1 then BofWebServer_Stop W ?s1 else Ret (True, ?s1)) = Ret (b2, s2)"
    using assms h by (auto simp: BofWebServer_Start_def Let_def split: srv_call.splits)
  let ?s3 = "s2\<lparr>mServerThread_joinable := True,
    srv_events := srv_events s2 @ [EvListen (c_str (IpAddress_S host)) (Port_U16 host)]\<rparr>"
  have srv: "mpHttpServer s2 \<noteq> None"
    using assms h s2 unfolding BofWebServer_Start_def by (cases "mpHttpServer s2") (simp_all add: Let_def)
  obtain s4 where s4: "wait_running W True ?s3 = Some s4" "IsRunning W s4 = (b, s')"
    using assms h s2 srv unfolding BofWebServer_Start_def by (auto simp: Let_def split: option.splits)
  then obtain k where k: "s4 = ?s3\<lparr>srv_reads := k\<rparr>" using wait_running_frame by blast
  show thesis
    using that [OF h _ _, of s2 k] s2 s4(2) k srv
    by (cases "mServerThread_joinable s") (auto simp: IsRunning_def)
qed

lemma Start_one_listener:
  "BofWebServer_Start W cfg ip port s = Ret (b, s') \<Longrightarrow> one_listener s \<Longrightarrow> one_listener s' \<and> mServerThread_joinable s'"
proof (erule Start_cases)
  fix s2 host k
  let ?s1 = "s\<lparr>mHost_X := host, mStopServerThread := False\<rparr>"
  assume one: "one_listener s"
    and s2: "if mServerThread_joinable s then \<exists>b. BofWebServer_Stop W ?s1 = Ret (b, s2) else s2 = ?s1"
    and s': "s' = s2\<lparr>mServerThread_joinable := True, srv_reads := Suc k,
       srv_events := srv_events s2 @ [EvListen (c_str (IpAddress_S host)) (Port_U16 host)]\<rparr>"
  have "one_listener ?s1" using one by (simp add: one_listener_def)
  then have "one_listener s2 \<and> \<not> mServerThread_joinable s2"
    using s2 Stop_one_listener by (auto split: if_splits)
  then show "one_listener s' \<and> mServerThread_joinable s'" by (simp add: s' one_listener_def Let_def)
qed

section \<open>Runs of operations\<close>

text \<open>A client program of the server: a sequence of starts, stops and route registrations.\<close>

datatype 'h server_op =
    OpStart server_world "web_app_host option" string u16
  | OpStop server_world
  | OpRoute http_method string "'h handler"

fun run_server :: "'h server_op list \<Rightarrow> 'h web_server \<Rightarrow> (bool list \<times> 'h web_server) srv_call" where
  "run_server [] s = Ret ([], s)"
| "run_server (op # ops) s =
     (case (case op of
              OpStart W cfg ip port \<Rightarrow> BofWebServer_Start W cfg ip port s
            | OpStop W \<Rightarrow> BofWebServer_Stop W s
            | OpRoute m uri h \<Rightarrow> Ret (add_route m uri h s)) of
        Ret (b, s') \<Rightarrow> (case run_server ops s' of Ret (bs, s'') \<Rightarrow> Ret (b # bs, s'') | r \<Rightarrow> r)
      | NullCall \<Rightarrow> NullCall | Throws \<Rightarrow> Throws | Hangs \<Rightarrow> Hangs)"

lemma add_route_one_listener: "add_route m uri h s = (b, s') \<Longrightarrow> one_listener s' = one_listener s"
  by (auto simp: add_route_def one_listener_def split: option.splits)

lemma run_server_one_listener:
  "run_server ops s = Ret (bs, s') \<Longrightarrow> one_listener s \<Longrightarrow> one_listener s'"
proof (induction ops arbitrary: s bs)
  case Nil
  then show ?case by simp
next
  case (Cons op ops)
  then obtain b t bs' where t: "(case op of
              OpStart W cfg ip port \<Rightarrow> BofWebServer_Start W cfg ip port s
            | OpStop W \<Rightarrow> BofWebServer_Stop W s
            | OpRoute m uri h \<Rightarrow> Ret (add_route m uri h s)) = Ret (b, t)" "run_server ops t = Ret (bs', s')"
    by (auto split: srv_call.splits)
  have "one_listener t"
    using t(1) Cons.prems(2)
    by (cases op) (auto dest: Start_one_listener Stop_one_listener add_route_one_listener)
  with t(2) Cons.IH show ?case by blast
qed

section \<open>Properties\<close>

text \<open>Whatever parameters it is given, the constructor leaves a server whose thread pool, keep-alive
  count, keep-alive timeout in seconds and payload limit are not zero, whose values in range are the
  given ones, that is secure exactly when both key paths are there, and that answers CORS preflight
  requests first when CORS is disabled.\<close>

theorem server_settings_in_range:
  "\<exists>hs. mpHttpServer (BofWebServer p is_dir :: 'h web_server) = Some hs \<and>
     0 < hs_pool_size hs \<and> 0 < hs_keep_alive_max_count hs \<and> 0 < hs_keep_alive_timeout_s hs \<and>
     0 < hs_payload_max hs \<and>
     hs_keep_alive_timeout_s hs = (if KeepAliveTimeoutInMs_U32 p < 1000 then 1 else KeepAliveTimeoutInMs_U32 p div 1000) \<and>
     hs_pool_size hs = (if ThreadPoolSize_U32 p = 0 then 4 else ThreadPoolSize_U32 p) \<and>
     (hs_secure hs \<longleftrightarrow> CertificatePath_S p \<noteq> [] \<and> PrivateKeyPath_S p \<noteq> []) \<and>
     hs_routes hs = (if DisableCors_B p then [(HTTP_OPTIONS, ''/.*'', CorsHandler)] else []) \<and>
     hs_mounts hs = (if is_dir (RootDir_S p) then [(''/'', RootDir_S p)] else [])"
proof -
  have pos: "0 < w div 1000" if "1000 \<le> w" for w :: u32
  proof -
    have "1000 \<le> unat w" using that by (simp add: word_le_nat_alt)
    then have "0 < unat w div 1000" by simp
    then show ?thesis by (simp add: word_less_nat_alt unat_div)
  qed
  show ?thesis
    using pos [of "KeepAliveTimeoutInMs_U32 p"]
    by (auto simp: BofWebServer_def Let_def configured_server_def corrected_param_def new_http_server_def
        word_gt_0 not_less)
qed

text \<open>Start on a stopped server returns as soon as the listening thread runs or the time is over:
  when the elapsed time reaches the timeout at some reading, the call returns, with the host stored,
  one listener started on it, at most one more reading, and the value of the last reading.\<close>

theorem start_returns:
  assumes "mpHttpServer s = Some hs" "\<not> mServerThread_joinable s" "ip \<noteq> []"
    and "ServerStartStopTimeoutInMs_U32 (mWebServerParam_X s) \<le> sw_elapsed W (srv_reads s + d)"
  shows "\<exists>k. srv_reads s < k \<and> k \<le> srv_reads s + d + 1 \<and>
    BofWebServer_Start W cfg ip port s = Ret (sw_running W k,
      s\<lparr>mHost_X := (mHost_X s)\<lparr>IpAddress_S := ip, Port_U16 := port\<rparr>, mStopServerThread := False,
        mServerThread_joinable := True, srv_reads := Suc k,
        srv_events := srv_events s @ [EvListen (c_str ip) port]\<rparr>)"
proof -
  let ?s3 = "s\<lparr>mHost_X := (mHost_X s)\<lparr>IpAddress_S := ip, Port_U16 := port\<rparr>, mStopServerThread := False,
    mServerThread_joinable := True, srv_events := srv_events s @ [EvListen (c_str ip) port]\<rparr>"
  obtain k where "wait_running W True ?s3 = Some (?s3\<lparr>srv_reads := k\<rparr>)" "srv_reads s < k" "k \<le> Suc (srv_reads s + d)"
    using wait_running_returns [of ?s3 hs W d True] assms(1,4) by auto
  then show ?thesis
    using assms(1-3) by (intro exI [of _ k]) (auto simp: BofWebServer_Start_def Let_def IsRunning_def)
qed

text \<open>The setting of the witnesses: a server with a timeout of 100 ms whose listener runs from the third
  reading on.\<close>

definition sample_server :: "nat web_server" where
  "sample_server = BofWebServer
     \<lparr>DiscoverTimeoutInMs_U32 = 0, ServerStartStopTimeoutInMs_U32 = 100, CertificatePath_S = [],
      PrivateKeyPath_S = [], LogRequestAndResponse_B = False, KeepAliveMaxCount_U32 = 0,
      KeepAliveTimeoutInMs_U32 = 0, srvReadTimeoutInMs_U32 = 0, srvWriteTimeoutInMs_U32 = 0,
      IdleIntervalInMs_U32 = 0, PayloadMaxLengthInByte_U32 = 0, ThreadPoolSize_U32 = 0,
      RootDir_S = ''/www'', DisableCors_B = True, srvWebAppParam_X = \<lparr>AppName_S = ''app''\<rparr>\<rparr> (\<lambda>_. True)"

definition sample_world :: server_world where
  "sample_world = \<lparr>sw_running = (\<lambda>n. 2 \<le> n \<and> n < 5), sw_elapsed = (\<lambda>n. word_of_nat (20 * n)), sw_joins = (\<lambda>_. True)\<rparr>"

lemma start_returns_witness:
  "\<exists>k. 0 < k \<and> k \<le> 6 \<and>
    BofWebServer_Start sample_world None ''127.0.0.1'' 8090 sample_server = Ret (2 \<le> k \<and> k < 5,
      sample_server\<lparr>mHost_X := \<lparr>IpAddress_S = ''127.0.0.1'', Port_U16 = 8090, BannedIpAddressCollection = {}\<rparr>,
        mServerThread_joinable := True, srv_reads := Suc k,
        srv_events := [EvListen (c_str ''127.0.0.1'') 8090]\<rparr>)"
  using start_returns [of sample_server "the (mpHttpServer sample_server)" "''127.0.0.1''" sample_world 5 None 8090]
  by (simp add: sample_server_def sample_world_def BofWebServer_def corrected_param_def Let_def)

text \<open>C26. At most one listening thread: after any sequence of starts, stops and registrations on a new
  server, the listeners started are the listeners joined, and one more exactly while the thread is
  joinable.\<close>

theorem at_most_one_listener:
  assumes "run_server ops (BofWebServer p is_dir) = Ret (bs, s)"
  shows "length (filter (\<lambda>e. case e of EvListen _ _ \<Rightarrow> True | _ \<Rightarrow> False) (srv_events s)) =
    length (filter (\<lambda>e. e = EvJoin) (srv_events s)) + (if mServerThread_joinable s then 1 else 0)"
proof -
  have "one_listener (BofWebServer p is_dir :: 'a web_server)"
    by (simp add: one_listener_def BofWebServer_def Let_def)
  from run_server_one_listener [OF assms this] show ?thesis by (simp add: one_listener_def Let_def)
qed

lemma sample_run:
  "\<exists>bs s. run_server [OpStart sample_world None ''127.0.0.1'' 8090, OpStop sample_world] sample_server = Ret (bs, s)"
  by (simp add: BofWebServer_Start_def BofWebServer_Stop_def wait_running.simps IsRunning_def Let_def
      sample_world_def sample_server_def BofWebServer_def corrected_param_def)

lemma at_most_one_listener_witness:
  "\<exists>bs s. run_server [OpStart sample_world None ''127.0.0.1'' 8090, OpStop sample_world] sample_server = Ret (bs, s) \<and>
    length (filter (\<lambda>e. case e of EvListen _ _ \<Rightarrow> True | _ \<Rightarrow> False) (srv_events s)) =
    length (filter (\<lambda>e. e = EvJoin) (srv_events s)) + (if mServerThread_joinable s then 1 else 0)"
  using sample_run at_most_one_listener unfolding sample_server_def by blast

text \<open>The page sent for an exception never overflows its buffer, and is complete exactly when the
  text of the exception is at most 230 characters; a longer one loses the end of the page.\<close>

theorem exception_page:
  "(case V_OnException what of (status, type, page) \<Rightarrow>
      status = 500 \<and> length page \<le> 255 \<and>
      (page = ''<h1>Error 500</h1><p>'' @
         (case what of Some w \<Rightarrow> c_str w | None \<Rightarrow> ''Unknown Exception'') @ ''</p>'' \<longleftrightarrow>
       length (case what of Some w \<Rightarrow> c_str w | None \<Rightarrow> ''Unknown Exception'') \<le> 230))"
proof -
  let ?text = "case what of Some w \<Rightarrow> c_str w | None \<Rightarrow> ''Unknown Exception''"
  let ?page = "''<h1>Error 500</h1><p>'' @ ?text @ ''</p>''"
  have V: "V_OnException what = (500, ''text/html'', snprintf_buf 0x100 ?page)"
    by (simp only: V_OnException_def Let_def)
  have "length ?page < 0x100 \<longleftrightarrow> length ?text \<le> 230" by auto
  moreover have "length (snprintf_buf 0x100 ?page) \<le> 255"
    using length_snprintf_buf_le [of "0x100" ?page] by (simp only: rel_simps arith_simps)
  ultimately show ?thesis
    unfolding V by (simp only: prod.case snprintf_buf_complete rel_simps simp_thms)
qed

end
