(* ===== verification/TransferService.thy ===== *)
theory TransferService
  imports Transfers WebServer
begin

text \<open>
  The server of \<^verbatim>\<open>src/tests/src/ut_webapp.cpp\<close> as one object: what the constructor of \<^verbatim>\<open>BofWebServer\<close> puts in
  the cpp-httplib server, the routes \<^verbatim>\<open>UtWebServer\<close> registers on it, and an upload of the client through
  both.  What cpp-httplib does with a request is outside the sources: its documented behaviour (a body
  larger than the payload limit is refused, else the first matching route answers) is a hypothesis on the
  exchange.
\<close>

section \<open>The server object\<close>

text \<open>The handlers the constructor registers; two of them are the transfer handlers.\<close>

datatype ut_handler = GetRoot | GetHi | GetNumber | GetUser | TakeDownload | TakeUpload

text \<open>
  The constructor of \<^verbatim>\<open>UtWebServer\<close>, in its order.  \<open>set_mount\<close> and \<open>remove_mount\<close> are the library's two
  calls; the results of the registrations are only compared by the test macros.
\<close>

definition UtWebServer ::
    "(string \<Rightarrow> string \<Rightarrow> (string \<times> string) list \<Rightarrow> bool \<times> (string \<times> string) list) \<Rightarrow>
     (string \<Rightarrow> (string \<times> string) list \<Rightarrow> bool \<times> (string \<times> string) list) \<Rightarrow>
     web_server_param \<Rightarrow> (string \<Rightarrow> bool) \<Rightarrow> ut_handler web_server" where
  "UtWebServer set_mount remove_mount param is_dir =
     (let s = BofWebServer param is_dir;
          s = snd (BofWebServer_Get ''/'' GetRoot s);
          s = snd (BofWebServer_Get ''/hi'' GetHi s);
          s = snd (BofWebServer_Get (''/numbers/('' @ [CHR 0x5C] @ ''d+)'') GetNumber s);
          s = snd (BofWebServer_Get ''/users/:id'' GetUser s);
          s = snd (BofWebServer_Get ''/download/:dir/:file'' TakeDownload s);
          s = snd (BofWebServer_Post ''/upload/:dir/:file'' TakeUpload s);
          s = snd (SetMountPoint set_mount ''/www'' ''/tmp/dontexist'' [] s);
          s = snd (SetMountPoint set_mount ''/www'' (RootDir_S (mWebServerParam_X s)) [] s);
          s = snd (SetMountPoint set_mount ''/abc'' (RootDir_S (mWebServerParam_X s)) [] s);
          s = snd (RemoveMountPoint remove_mount ''/abc'' s)
      in snd (SetFileExtensionAndMimetypeMapping ''bha'' ''mime/bha'' s))"

text \<open>What a registration leaves alone.\<close>

lemma add_route_server:
  "mpHttpServer s = Some hs \<Longrightarrow>
     mpHttpServer (snd (add_route m uri h s)) = Some (hs\<lparr>hs_routes := hs_routes hs @ [(m, uri, h)]\<rparr>)"
  by (simp add: add_route_def)

lemma mount_server:
  "mpHttpServer s = Some hs \<Longrightarrow>
     mpHttpServer (snd (SetMountPoint f mount dir hdrs s)) = Some (hs\<lparr>hs_mounts := snd (f mount dir (hs_mounts hs))\<rparr>)"
  "mpHttpServer s = Some hs \<Longrightarrow>
     mpHttpServer (snd (RemoveMountPoint g mount s)) = Some (hs\<lparr>hs_mounts := snd (g mount (hs_mounts hs))\<rparr>)"
  "mpHttpServer s = Some hs \<Longrightarrow>
     mpHttpServer (snd (SetFileExtensionAndMimetypeMapping ext mime s)) = Some (hs\<lparr>hs_mime := hs_mime hs @ [(ext, mime)]\<rparr>)"
  by (simp_all add: SetMountPoint_def RemoveMountPoint_def SetFileExtensionAndMimetypeMapping_def split: prod.split)

lemma UtWebServer_server:
  "\<exists>hs. mpHttpServer (UtWebServer set_mount remove_mount p is_dir) = Some hs \<and>
     hs_payload_max hs = PayloadMaxLengthInByte_U32 (corrected_param p) \<and>
     hs_routes hs = (if DisableCors_B p then [(HTTP_OPTIONS, ''/.*'', CorsHandler)] else []) @
       [(HTTP_GET, ''/'', AppHandler GetRoot), (HTTP_GET, ''/hi'', AppHandler GetHi),
        (HTTP_GET, ''/numbers/('' @ [CHR 0x5C] @ ''d+)'', AppHandler GetNumber),
        (HTTP_GET, ''/users/:id'', AppHandler GetUser),
        (HTTP_GET, ''/download/:dir/:file'', AppHandler TakeDownload),
        (HTTP_POST, ''/upload/:dir/:file'', AppHandler TakeUpload)]"
proof -
  have "mpHttpServer (BofWebServer p is_dir :: ut_handler web_server) =
      Some (configured_server (corrected_param p) (CertificatePath_S p \<noteq> [] \<and> PrivateKeyPath_S p \<noteq> []) (is_dir (RootDir_S p)))"
    by (simp add: BofWebServer_def Let_def corrected_param_def)
  then show ?thesis
    unfolding UtWebServer_def Let_def route_defs
    by (simp add: add_route_server mount_server configured_server_def corrected_param_def)
qed

section \<open>A listening cpp-httplib server\<close>

text \<open>
  The route of a request: the first registered for its method whose pattern matches.  \<open>matches\<close> is the
  library's matcher, the path parameters it finds.
\<close>

primrec first_route ::
    "(string \<Rightarrow> string \<Rightarrow> (string \<Rightarrow> string option) option) \<Rightarrow> http_method \<Rightarrow> string \<Rightarrow>
     (http_method \<times> string \<times> 'h handler) list \<Rightarrow> ('h handler \<times> (string \<Rightarrow> string option)) option" where
  "first_route matches m uri [] = None"
| "first_route matches m uri (r # rs) =
     (case (if fst r = m then matches (fst (snd r)) uri else None) of
        None \<Rightarrow> first_route matches m uri rs
      | Some ps \<Rightarrow> Some (snd (snd r), ps))"

lemma first_route_other_method:
  "\<forall>r \<in> set rs. fst r \<noteq> m \<Longrightarrow> first_route matches m uri (rs @ rs') = first_route matches m uri rs'"
  by (induction rs) simp_all

text \<open>
  What the documentation of cpp-httplib says of an uncompressed POST: a body over the limit is answered 413
  and no handler runs; else the handler of the route answers.  A handler that does not end with a response
  takes the process down, and then nothing answers.
\<close>

definition listens_as_documented ::
    "(string \<Rightarrow> string \<Rightarrow> (string \<Rightarrow> string option) option) \<Rightarrow>
     ('h handler \<Rightarrow> (string \<Rightarrow> string option) \<Rightarrow> http_request \<Rightarrow> 's \<Rightarrow> (http_response \<times> 's) handled) \<Rightarrow>
     'h http_server \<Rightarrow> 's option net \<Rightarrow> bool" where
  "listens_as_documented matches run hs net \<longleftrightarrow>
     (\<forall>h rq S. rq_method rq = HTTP_POST \<longrightarrow> hc_compress h = Some False \<longrightarrow>
        (if unat (hs_payload_max hs) < length (rq_body rq)
         then \<exists>rs. rs_status rs = 413 \<and> net h rq (Some S) = (Some rs, Some S)
         else \<forall>f ps. first_route matches HTTP_POST (rq_uri rq) (hs_routes hs) = Some (f, ps) \<longrightarrow>
           net h rq (Some S) =
             (case run f ps rq S of Answered (rs, S') \<Rightarrow> (Some rs, Some S') | _ \<Rightarrow> (None, None)))) \<and>
     (\<forall>h rq. net h rq None = (None, None))"

text \<open>The handlers of the test server; \<open>other\<close> stands for those that are not part of a transfer.\<close>

fun run_ut_handler ::
    "io_device \<Rightarrow> u32 \<Rightarrow> http_response \<Rightarrow>
     (ut_handler handler \<Rightarrow> (string \<Rightarrow> string option) \<Rightarrow> http_request \<Rightarrow> updown_server \<Rightarrow> (http_response \<times> updown_server) handled) \<Rightarrow>
     ut_handler handler \<Rightarrow> (string \<Rightarrow> string option) \<Rightarrow> http_request \<Rightarrow> updown_server \<Rightarrow>
     (http_response \<times> updown_server) handled" where
  "run_ut_handler io now fresh other (AppHandler TakeUpload) ps rq S = PostUpload io now ps rq fresh S"
| "run_ut_handler io now fresh other (AppHandler TakeDownload) ps rq S = GetDownload io now ps rq fresh S"
| "run_ut_handler io now fresh other f ps rq S = other f ps rq S"

lemma listening_refuses:
  assumes "listens_as_documented matches run hs net" "unat (hs_payload_max hs) < length (rq_body rq)"
    and "rq_method rq = HTTP_POST" "hc_compress h = Some False"
  shows "\<exists>rs. net h rq (Some S) = (Some rs, Some S) \<and> rs_status rs \<noteq> OK_200 \<and> rs_status rs \<noteq> PartialContent_206"
proof -
  obtain rs where "rs_status rs = 413" "net h rq (Some S) = (Some rs, Some S)"
    using assms(1) [unfolded listens_as_documented_def, THEN conjunct1, rule_format, OF assms(3,4), of S] assms(2)
    by auto
  then show ?thesis by auto
qed

lemma upload_route:
  assumes "mpHttpServer (UtWebServer set_mount remove_mount p is_dir) = Some hs"
    and "matches ''/upload/:dir/:file'' uri = Some ps"
  shows "first_route matches HTTP_POST uri (hs_routes hs) = Some (AppHandler TakeUpload, ps)"
  using UtWebServer_server [of set_mount remove_mount p is_dir] assms
  by (auto simp: first_route_other_method split: if_splits)

lemma limit_of_UtWebServer:
  "mpHttpServer (UtWebServer set_mount remove_mount p is_dir) = Some hs \<Longrightarrow>
    unat (hs_payload_max hs) = (if PayloadMaxLengthInByte_U32 p = 0 then 4096 else unat (PayloadMaxLengthInByte_U32 p))"
  using UtWebServer_server [of set_mount remove_mount p is_dir] by (auto simp: corrected_param_def)

section \<open>Uploads over nets that agree\<close>

text \<open>Two nets that agree on the posts of an upload give the same upload.\<close>

definition agree_on_posts :: "string \<Rightarrow> nat \<Rightarrow> 'w net \<Rightarrow> 'w net \<Rightarrow> bool" where
  "agree_on_posts uri n N M \<longleftrightarrow> (\<forall>h rq w. rq_method rq = HTTP_POST \<longrightarrow> rq_uri rq = uri \<longrightarrow>
     length (rq_body rq) \<le> n \<longrightarrow> hc_compress h = Some False \<longrightarrow> N h rq w = M h rq w)"

lemma post_agrees:
  assumes "agree_on_posts uri n N M" "k \<le> n"
  shows "BofWebClient_Post N uri False dr ka hdr k body ty c w = BofWebClient_Post M uri False dr ka hdr k body ty c w"
proof (cases "mpuHttpClient c")
  case None
  then show ?thesis by (simp add: verb_defs)
next
  case (Some h)
  then show ?thesis using assms
    by (simp add: verb_defs exchange_client agree_on_posts_def prepare_def)
qed

lemma upload_step_agrees:
  assumes inv: "upload_inv E c k s" and len: "length (ue_file E) < 2 ^ 63" and "\<not> ue_compress E"
    and "agree_on_posts (ue_uri E) (min c (length (ue_file E))) (ue_net E) M"
  shows "upload_step (E\<lparr>ue_net := M\<rparr>) s = upload_step E s"
proof -
  have "unat (us_max s - us_min s + 1) \<le> min c (length (ue_file E))"
    using upload_inv_read_size [OF inv len] by auto
  from post_agrees [OF assms(4) this] show ?thesis
    using assms(3) by (simp add: upload_step_def Let_def ue_data_size_def split: option.split)
qed

lemma upload_loop_agrees:
  assumes len: "length (ue_file E) < 2 ^ 63" and "\<not> ue_compress E"
    and "agree_on_posts (ue_uri E) (min c (length (ue_file E))) (ue_net E) M"
  shows "upload_inv E c k s \<Longrightarrow> upload_loop (E\<lparr>ue_net := M\<rparr>) s = upload_loop E s"
  using assms
proof (induction E s arbitrary: k rule: upload_loop.induct)
  case (1 E s)
  have eq: "upload_step (E\<lparr>ue_net := M\<rparr>) s = upload_step E s"
    by (rule upload_step_agrees) (use 1 in blast)+
  show ?case
  proof (cases "upload_step E s")
    case (Inl r)
    then show ?thesis using eq by (simp add: upload_loop_Inl)
  next
    case (Inr t)
    have "upload_inv E c (Suc k) t" using upload_step_inv [OF 1(2,3) Inr] by blast
    then have "upload_loop (E\<lparr>ue_net := M\<rparr>) t = upload_loop E t" using 1 Inr by blast
    then show ?thesis using eq Inr by (simp add: upload_loop_Inr)
  qed
qed

section \<open>Properties\<close>

text \<open>On posts within the limit the listening server is the transfer server.\<close>

lemma listening_agrees:
  assumes server: "mpHttpServer (UtWebServer set_mount remove_mount p is_dir) = Some hs"
    and listens: "listens_as_documented matches (run_ut_handler io now fresh other) hs net"
    and route: "matches ''/upload/:dir/:file'' uri = Some ps" and n: "n \<le> unat (hs_payload_max hs)"
  shows "agree_on_posts uri n (updown_net io now (\<lambda>_. ps) fresh) net"
proof -
  note r = upload_route [where matches = matches, OF server route]
  have "net h rq w = updown_net io now (\<lambda>_. ps) fresh h rq w"
    if "rq_method rq = HTTP_POST" "rq_uri rq = uri" "length (rq_body rq) \<le> n" "hc_compress h = Some False" for h rq w
  proof (cases w)
    case None
    then show ?thesis using listens by (simp add: listens_as_documented_def updown_net_def)
  next
    case (Some S)
    have "\<not> unat (hs_payload_max hs) < length (rq_body rq)" using that(3) n by simp
    then show ?thesis
      using listens that(1,2,4) r Some
      by (simp add: listens_as_documented_def updown_net_def serve_request_def)
  qed
  then show ?thesis by (simp add: agree_on_posts_def)
qed

text \<open>C3. An upload through the server object.  A file of a size the handlers can count is stored and the call
  returns true when its chunks, or the whole file if it is smaller, fit the payload limit the constructor
  has set, 4096 bytes unless the parameters say otherwise; else the first chunk is refused, the call returns
  false and the server is as it was.  The chunks of the client are 64 kB unless the caller says otherwise.\<close>

theorem upload_through_the_server_object:
  assumes "mpuHttpClient c = Some h" "readable cio src" "fs src = Some file"
    and "countable (length file) (unat (upload_chunk chunk))" "2 \<le> length file"
    and "mpHttpServer (UtWebServer set_mount remove_mount p is_dir) = Some hs"
    and "listens_as_documented matches (run_ut_handler sio now fresh other) hs net"
    and "matches ''/upload/:dir/:file'' uri = Some ps"
    and "willing sio path" "addressed ps S path" "ud_tasks S (S_GenerateSessionId rnd 36) = None"
  defines "limit \<equiv> if PayloadMaxLengthInByte_U32 p = 0 then 4096 else unat (PayloadMaxLengthInByte_U32 p)"
    and "body \<equiv> min (if chunk = 0 then 65536 else unat chunk) (length file)"
  shows "\<exists>c'. BofWebClient_Upload net log_args rnd cio fs src uri False dr ka chunk c (Some S) =
    (Returned (body \<le> limit), c', Some (if body \<le> limit then S\<lparr>ud_fs := (ud_fs S)(path \<mapsto> file)\<rparr> else S))"
proof -
  let ?E = "\<lparr>ue_net = net, ue_log_args = log_args, ue_uri = uri, ue_compress = False, ue_decompress = dr,
        ue_keep_alive = ka, ue_can_read = io_can_read cio, ue_file = file, ue_session = S_GenerateSessionId rnd 36\<rparr>"
  let ?M = "updown_net sio now (\<lambda>_. ps) fresh" and ?s = "upload_start ?E chunk c (Some S)" and ?c = "unat (upload_chunk chunk)"
  have limit: "unat (hs_payload_max hs) = limit" using limit_of_UtWebServer [OF assms(6)] by (simp add: limit_def)
  have body: "body = min ?c (length file)" by (simp add: body_def upload_chunk_def)
  have len: "length file < 2 ^ 63" using countable_bounds(1) [OF assms(4)] .
  have inv: "upload_inv ?E ?c 0 ?s" by (rule upload_start_inv) (use len in simp)
  have "\<exists>s. upload_loop ?E ?s = (Returned (body \<le> limit), s) \<and>
      us_world s = Some (if body \<le> limit then S\<lparr>ud_fs := (ud_fs S)(path \<mapsto> file)\<rparr> else S)"
  proof (cases "body \<le> limit")
    case True
    have inv': "upload_inv (?E\<lparr>ue_net := ?M\<rparr>) ?c 0 ?s" using inv by (simp add: upload_inv_def)
    have "agree_on_posts uri body ?M net"
      by (rule listening_agrees [OF assms(6-8)]) (use True limit in simp)
    then have "upload_loop ?E ?s = upload_loop (?E\<lparr>ue_net := ?M\<rparr>) ?s"
      using upload_loop_agrees [OF _ _ _ inv', of net] len body by simp
    moreover have "?s = upload_start (?E\<lparr>ue_net := ?M\<rparr>) chunk c (Some S)" by (simp add: upload_start_def ue_data_size_def)
    moreover have "\<exists>s. upload_loop (?E\<lparr>ue_net := ?M\<rparr>) (upload_start (?E\<lparr>ue_net := ?M\<rparr>) chunk c (Some S)) = (Returned True, s) \<and>
        us_world s = Some (S\<lparr>ud_fs := (ud_fs S)(path \<mapsto> ue_file (?E\<lparr>ue_net := ?M\<rparr>))\<rparr>)"
      by (rule upload_loop_stored [OF _ _ _ _ assms(9)]) (use assms in \<open>simp_all add: readable_def\<close>)
    ultimately show ?thesis using True by simp
  next
    case False
    have "\<exists>s'. upload_step ?E ?s = Inl (Returned False, s') \<and> us_world s' = Some S"
    proof (rule upload_turn_status [OF inv])
      show "\<exists>resp. ue_net ?E h rq (us_world ?s) = (Some resp, Some S) \<and>
          rs_status resp \<noteq> OK_200 \<and> rs_status resp \<noteq> PartialContent_206"
        if "rq_method rq = HTTP_POST" "hc_compress h = Some (ue_compress ?E)"
          "length (rq_body rq) = min ?c (length (ue_file ?E) - 0 * ?c)" for h rq
      proof -
        have "unat (hs_payload_max hs) < length (rq_body rq)" using that(3) False limit body by (auto simp: not_le)
        from listening_refuses [OF assms(7) this] show ?thesis using that(1,2) by (simp add: upload_start_def)
      qed
    qed (use assms(1,2,5) len upload_chunk_bounds in \<open>auto simp: upload_start_def readable_def\<close>)
    then obtain s where s: "upload_step ?E ?s = Inl (Returned False, s)" "us_world s = Some S" by blast
    show ?thesis using upload_loop_Inl [OF s(1)] s(2) False by simp
  qed
  then obtain s where r: "upload_loop ?E ?s = (Returned (body \<le> limit), s)"
      "us_world s = Some (if body \<le> limit then S\<lparr>ud_fs := (ud_fs S)(path \<mapsto> file)\<rparr> else S)" by blast
  show ?thesis using upload_client_run [where fs = fs and src = src, OF assms(1-3) refl r(1)] r(2) by simp
qed

section \<open>A concrete listener\<close>

text \<open>A server that behaves as documented, the parameters of the constructor left at their defaults.\<close>

definition sample_listener ::
    "(string \<Rightarrow> string \<Rightarrow> (string \<Rightarrow> string option) option) \<Rightarrow>
     ('h handler \<Rightarrow> (string \<Rightarrow> string option) \<Rightarrow> http_request \<Rightarrow> 's \<Rightarrow> (http_response \<times> 's) handled) \<Rightarrow>
     'h http_server \<Rightarrow> 's option net" where
  "sample_listener matches run hs h rq w =
     (case w of
        None \<Rightarrow> (None, None)
      | Some S \<Rightarrow>
          if unat (hs_payload_max hs) < length (rq_body rq) then (Some (sample_fresh\<lparr>rs_status := 413\<rparr>), Some S)
          else (case first_route matches (rq_method rq) (rq_uri rq) (hs_routes hs) of
                  None \<Rightarrow> (Some (sample_fresh\<lparr>rs_status := 404\<rparr>), Some S)
                | Some (f, ps) \<Rightarrow>
                    (case run f ps rq S of Answered (rs, S') \<Rightarrow> (Some rs, Some S') | _ \<Rightarrow> (None, None))))"

lemma sample_listener_documented: "listens_as_documented matches run hs (sample_listener matches run hs)"
  by (auto simp: listens_as_documented_def sample_listener_def)

definition sample_matches :: "string \<Rightarrow> string \<Rightarrow> (string \<Rightarrow> string option) option" where
  "sample_matches pattern uri =
     (if pattern = ''/upload/:dir/:file'' \<and> uri = ''/upload/update/data.bin''
      then Some [''dir'' \<mapsto> ''update'', ''file'' \<mapsto> ''data.bin''] else None)"

definition sample_ut_server :: "ut_handler web_server" where
  "sample_ut_server = UtWebServer (\<lambda>_ _ ms. (False, ms)) (\<lambda>_ ms. (False, ms)) (BOF_WEB_SERVER_PARAM_Reset undefined) (\<lambda>_. False)"

definition sample_ut_net :: "updown_server option net" where
  "sample_ut_net = sample_listener sample_matches (run_ut_handler sample_io 0 sample_fresh (\<lambda>_ _ _ S. Answered (sample_fresh, S)))
     (the (mpHttpServer sample_ut_server))"

lemma sample_ut_setting:
  "mpHttpServer (UtWebServer (\<lambda>_ _ ms. (False, ms)) (\<lambda>_ ms. (False, ms)) (BOF_WEB_SERVER_PARAM_Reset undefined) (\<lambda>_. False)) =
     Some (the (mpHttpServer sample_ut_server))"
  "listens_as_documented sample_matches (run_ut_handler sample_io 0 sample_fresh (\<lambda>_ _ _ S. Answered (sample_fresh, S)))
     (the (mpHttpServer sample_ut_server)) sample_ut_net"
  "sample_matches ''/upload/:dir/:file'' ''/upload/update/data.bin'' = Some [''dir'' \<mapsto> ''update'', ''file'' \<mapsto> ''data.bin'']"
  using UtWebServer_server unfolding sample_ut_server_def
  by (metis option.sel) (simp_all add: sample_ut_net_def sample_ut_server_def sample_listener_documented sample_matches_def)

lemma upload_through_the_server_object_witness:
  "(\<exists>c'. BofWebClient_Upload sample_ut_net True (\<lambda>_. 0) sample_io sample_fs ''data.bin'' ''/upload/update/data.bin''
       False False True 2 sample_client (Some Transfers.sample_server) =
     (Returned True, c', Some (Transfers.sample_server\<lparr>ud_fs := (ud_fs Transfers.sample_server)(''/srv/update/data.bin'' \<mapsto> sample_file)\<rparr>))) \<and>
   (\<exists>c'. BofWebClient_Upload sample_ut_net True (\<lambda>_. 0) sample_io (\<lambda>_. Some (replicate 4097 7)) ''big.bin'' ''/upload/update/data.bin''
       False False True 0 sample_client (Some Transfers.sample_server) =
     (Returned False, c', Some Transfers.sample_server))"
proof -
  let ?limit = "if PayloadMaxLengthInByte_U32 (BOF_WEB_SERVER_PARAM_Reset undefined) = 0 then 4096
    else unat (PayloadMaxLengthInByte_U32 (BOF_WEB_SERVER_PARAM_Reset undefined))"
  have W: "\<exists>c'. BofWebClient_Upload sample_ut_net True (\<lambda>_. 0) sample_io fs src ''/upload/update/data.bin''
       False False True chunk sample_client (Some Transfers.sample_server) =
     (Returned (min (if chunk = 0 then 65536 else unat chunk) (length file) \<le> ?limit), c',
      Some (if min (if chunk = 0 then 65536 else unat chunk) (length file) \<le> ?limit
            then Transfers.sample_server\<lparr>ud_fs := (ud_fs Transfers.sample_server)(''/srv/update/data.bin'' \<mapsto> file)\<rparr>
            else Transfers.sample_server))"
    if "fs src = Some file" "countable (length file) (unat (upload_chunk chunk))" "2 \<le> length file" for fs src "file" chunk
    by (rule upload_through_the_server_object [where fs = fs and src = src and matches = sample_matches,
          OF sample_setting(1) sample_devices(1) that sample_ut_setting sample_devices(2)])
      (simp_all add: addressed_def request_path_def Transfers.sample_server_def)
  have limit: "?limit = 4096" by (simp add: BOF_WEB_SERVER_PARAM_Reset_def)
  show ?thesis
    using W [of sample_fs "''data.bin''" sample_file 2] W [of "\<lambda>_. Some (replicate 4097 7)" "''big.bin''" "replicate 4097 7" 0]
    unfolding limit by (simp add: sample_setting(3) countable_def sample_file_def upload_chunk_def)
qed

end
