(* ===== verification/WsTypes.thy ===== *)
theory WsTypes
  imports WebRpc_Prelude
begin

text \<open>
  The data of the websocket engine (\<^verbatim>\<open>include/bofwebrpc/bofwebsocket.h\<close>): operations and their
  parameters, results, sessions, the members of the class \<^verbatim>\<open>BofWebSocket\<close>.  libwebsockets, the
  circular buffers, events and threads of bofstd and the callbacks of the application are outside the
  repository: what they answer is an input of the operations of the following theories, and every call
  made on them is an event of the ghost field \<open>ws_trace\<close>, in order.
\<close>

section \<open>Operations and their parameters\<close>

datatype operation =
    OPERATION_EXIT | OPERATION_LISTEN | OPERATION_CONNECT | OPERATION_READ | OPERATION_WRITE
  | OPERATION_DISCONNECT | OPERATION_MAX

text \<open>\<^verbatim>\<open>S_WebRpcSocketOpEnumConverter\<close>.\<close>

fun operation_name :: "operation \<Rightarrow> string" where
  "operation_name OPERATION_EXIT = ''EXIT''"
| "operation_name OPERATION_LISTEN = ''LISTEN''"
| "operation_name OPERATION_CONNECT = ''CONNECT''"
| "operation_name OPERATION_READ = ''READ''"
| "operation_name OPERATION_WRITE = ''WRITE''"
| "operation_name OPERATION_DISCONNECT = ''DISCONNECT''"
| "operation_name OPERATION_MAX = ''MAX''"

text \<open>The value of the enumerator; operations compare as the C++ compares them.\<close>

fun operation_value :: "operation \<Rightarrow> nat" where
  "operation_value OPERATION_EXIT = 0"
| "operation_value OPERATION_LISTEN = 1"
| "operation_value OPERATION_CONNECT = 2"
| "operation_value OPERATION_READ = 3"
| "operation_value OPERATION_WRITE = 4"
| "operation_value OPERATION_DISCONNECT = 5"
| "operation_value OPERATION_MAX = 6"

lemma operation_value_inject: "operation_value a = operation_value b \<Longrightarrow> a = b"
  by (cases a; cases b) simp_all

instantiation operation :: linorder
begin

definition less_eq_operation :: "operation \<Rightarrow> operation \<Rightarrow> bool" where
  "less_eq_operation a b \<longleftrightarrow> operation_value a \<le> operation_value b"

definition less_operation :: "operation \<Rightarrow> operation \<Rightarrow> bool" where
  "less_operation a b \<longleftrightarrow> operation_value a < operation_value b"

instance
  by standard (auto simp: less_eq_operation_def less_operation_def intro: operation_value_inject)

end

lemma operation_MAX_greatest [simp]: "op \<le> OPERATION_MAX"
  by (cases op) (simp_all add: less_eq_operation_def)

text \<open>The parameter structures; addresses of user memory are 64 bit words, zero is the null pointer.\<close>

record exit_param =
  ex_Unused_U32 :: u32

record connect_param =
  pWsCltKey_c :: string
  DstIpAddr_X :: u32
  DstPort_U16 :: u16

record listen_param =
  SrcIpAddr_X :: u32
  SrcPort_U16 :: u16
  li_NbMaxClient_U32 :: u32

record io_param =
  Nb_U32 :: u32
  io_pBuffer_U8 :: u64

record disconnect_param =
  di_Unused_U32 :: u32

definition EXIT_PARAM_Reset :: "exit_param \<Rightarrow> exit_param" where
  [reset_defs]: "EXIT_PARAM_Reset p = p\<lparr>ex_Unused_U32 := 0\<rparr>"

definition CONNECT_PARAM_Reset :: "connect_param \<Rightarrow> connect_param" where
  [reset_defs]: "CONNECT_PARAM_Reset p = p\<lparr>pWsCltKey_c := [], DstIpAddr_X := 0, DstPort_U16 := 0\<rparr>"

definition LISTEN_PARAM_Reset :: "listen_param \<Rightarrow> listen_param" where
  [reset_defs]: "LISTEN_PARAM_Reset p = p\<lparr>SrcIpAddr_X := 0, SrcPort_U16 := 0, li_NbMaxClient_U32 := 0\<rparr>"

definition READ_PARAM_Reset :: "io_param \<Rightarrow> io_param" where
  [reset_defs]: "READ_PARAM_Reset p = p\<lparr>Nb_U32 := 0, io_pBuffer_U8 := 0\<rparr>"

definition WRITE_PARAM_Reset :: "io_param \<Rightarrow> io_param" where
  [reset_defs]: "WRITE_PARAM_Reset p = p\<lparr>Nb_U32 := 0, io_pBuffer_U8 := 0\<rparr>"

definition DISCONNECT_PARAM_Reset :: "disconnect_param \<Rightarrow> disconnect_param" where
  [reset_defs]: "DISCONNECT_PARAM_Reset p = p\<lparr>di_Unused_U32 := 0\<rparr>"

text \<open>
  The union \<^verbatim>\<open>_OpParam\<close>: the member that was written last, or nothing before any was.
\<close>

datatype op_param =
    NoParam | Exit_X exit_param | Listen_X listen_param | Connect_X connect_param
  | Read_X io_param | Write_X io_param | Disconnect_X disconnect_param

record operation_param =
  Operation_E :: operation
  Ticket_U32 :: u32
  TimeOut_U32 :: u32
  Timer_U32 :: u32
  OpParam :: op_param

definition OPERATION_PARAM_Reset :: "operation_param \<Rightarrow> operation_param" where
  [reset_defs]: "OPERATION_PARAM_Reset p =
     p\<lparr>Operation_E := OPERATION_MAX, Ticket_U32 := 0, TimeOut_U32 := 0, Timer_U32 := 0\<rparr>"

text \<open>
  Reading one member of the union.  Another member would give other bytes; the well-formedness
  invariant of the engine shows that it never happens.
\<close>

definition connect_of :: "operation_param \<Rightarrow> connect_param" where
  "connect_of op = (case OpParam op of Connect_X p \<Rightarrow> p | _ \<Rightarrow> \<lparr>pWsCltKey_c = [], DstIpAddr_X = 0, DstPort_U16 = 0\<rparr>)"

definition read_of :: "operation_param \<Rightarrow> io_param" where
  "read_of op = (case OpParam op of Read_X p \<Rightarrow> p | _ \<Rightarrow> \<lparr>Nb_U32 = 0, io_pBuffer_U8 = 0\<rparr>)"

definition write_of :: "operation_param \<Rightarrow> io_param" where
  "write_of op = (case OpParam op of Write_X p \<Rightarrow> p | _ \<Rightarrow> \<lparr>Nb_U32 = 0, io_pBuffer_U8 = 0\<rparr>)"

section \<open>Results and write operations\<close>

text \<open>Where the buffer of a result points: nowhere, into user memory, into the copy made by a write.\<close>

datatype buffer_ref = NullBuffer | UserBuffer u64 | WriteStorage "byte list"

text \<open>The result of a write that went to the socket: only those point into the copy.\<close>

fun write_result :: "buffer_ref \<Rightarrow> bool" where
  "write_result (WriteStorage _) = True"
| "write_result _ = False"

record operation_result =
  res_Operation_E :: operation
  OpTicket_U32 :: u32
  Sts_E :: boferr
  Size_U32 :: u32
  res_pBuffer_U8 :: buffer_ref
  Time_U32 :: u32

definition OPERATION_RESULT_Reset :: "operation_result \<Rightarrow> operation_result" where
  [reset_defs]: "OPERATION_RESULT_Reset r =
     r\<lparr>res_Operation_E := OPERATION_MAX, OpTicket_U32 := 0, Sts_E := BOF_ERR_SOFT_INIT, Size_U32 := 0,
       res_pBuffer_U8 := NullBuffer, Time_U32 := 0\<rparr>"

definition new_result :: operation_result where
  "new_result = \<lparr>res_Operation_E = OPERATION_MAX, OpTicket_U32 = 0, Sts_E = BOF_ERR_SOFT_INIT,
     Size_U32 = 0, res_pBuffer_U8 = NullBuffer, Time_U32 = 0\<rparr>"

text \<open>
  The buffer of a write: the payload after the \<^verbatim>\<open>LWS_PRE\<close> bytes and the position of the next byte to
  send in it (\<^verbatim>\<open>RemainToRead\<close> is the rest).
\<close>

record write_op =
  wo_TimeOut_U32 :: u32
  wo_Timer_U32 :: u32
  wo_payload :: "byte list"
  wo_pos :: nat
  wo_Result_X :: operation_result

definition RemainToRead :: "write_op \<Rightarrow> byte list" where
  "RemainToRead w = drop (wo_pos w) (wo_payload w)"

section \<open>Sessions and parameters of the engine\<close>

text \<open>A websocket handle is a number; \<open>None\<close> is the null pointer.\<close>

record session =
  ConnectDone_B :: bool
  pWebSocket_X :: "nat option"

definition SESSION_Reset :: "session \<Rightarrow> session" where
  [reset_defs]: "SESSION_Reset s = s\<lparr>ConnectDone_B := False, pWebSocket_X := None\<rparr>"

record thread_param =
  Name_S :: string
  ThreadSchedulerPolicy_E :: nat
  ThreadPriority_E :: nat

definition THREAD_PARAM_Reset :: "nat \<Rightarrow> nat \<Rightarrow> thread_param \<Rightarrow> thread_param" where
  [reset_defs]: "THREAD_PARAM_Reset policy_max priority_000 p =
     p\<lparr>Name_S := [], ThreadSchedulerPolicy_E := policy_max, ThreadPriority_E := priority_000\<rparr>"

text \<open>Of each callback the engine only asks whether it is set.\<close>

record web_socket_param =
  pUser :: u64
  SocketRcvBufferSize_U32 :: u32
  SocketSndBufferSize_U32 :: u32
  NbMaxOperationPending_U32 :: u32
  RxBufferSize_U32 :: u32
  NbMaxBufferEntry_U32 :: u32
  OnOperation :: bool
  OnEvent :: bool
  OnOpen :: bool
  OnClose :: bool
  OnError :: bool
  OnMessage :: bool
  NbMaxClient_U32 :: u32
  ServerIp_X :: "string \<times> u16"
  WebSocketThreadParam_X :: thread_param

definition WEB_SOCKET_PARAM_Reset :: "nat \<Rightarrow> nat \<Rightarrow> (string \<times> u16) \<Rightarrow> web_socket_param \<Rightarrow> web_socket_param" where
  [reset_defs]: "WEB_SOCKET_PARAM_Reset policy_max priority_000 no_ip p =
     p\<lparr>pUser := 0, SocketRcvBufferSize_U32 := 0, SocketSndBufferSize_U32 := 0,
       NbMaxOperationPending_U32 := 0, RxBufferSize_U32 := 0, NbMaxBufferEntry_U32 := 0,
       OnOperation := False, OnEvent := False, OnOpen := False, OnClose := False, OnError := False,
       OnMessage := False, NbMaxClient_U32 := 0, ServerIp_X := no_ip,
       WebSocketThreadParam_X := THREAD_PARAM_Reset policy_max priority_000 (WebSocketThreadParam_X p)\<rparr>"

section \<open>Reasons of a libwebsockets callback\<close>

text \<open>The reasons the engine has code for; every other reason only reaches \<open>OnEvent\<close>.\<close>

datatype lws_reason =
    LWS_CALLBACK_EVENT_WAIT_CANCELLED | LWS_CALLBACK_SERVER_NEW_CLIENT_INSTANTIATED
  | LWS_CALLBACK_HTTP_BIND_PROTOCOL | LWS_CALLBACK_HTTP | LWS_CALLBACK_ADD_HEADERS
  | LWS_CALLBACK_FILTER_NETWORK_CONNECTION | LWS_CALLBACK_ESTABLISHED
  | LWS_CALLBACK_CLIENT_FILTER_PRE_ESTABLISH | LWS_CALLBACK_CLIENT_ESTABLISHED
  | LWS_CALLBACK_SERVER_WRITEABLE | LWS_CALLBACK_CLIENT_WRITEABLE
  | LWS_CALLBACK_RECEIVE | LWS_CALLBACK_CLIENT_RECEIVE
  | LWS_CALLBACK_CLIENT_CLOSED | LWS_CALLBACK_CLOSED | LWS_CALLBACK_CLIENT_CONNECTION_ERROR
  | LWS_CALLBACK_OTHER nat

section \<open>Calls made on the outside\<close>

datatype ws_event =
    EvWakeup                               \<comment> \<open>\<^verbatim>\<open>lws_cancel_service\<close>\<close>
  | EvCreateContext bool                   \<comment> \<open>\<^verbatim>\<open>lws_create_context\<close>, for a server or not\<close>
  | EvDestroyContext
  | EvConnect u32 u16 string               \<comment> \<open>\<^verbatim>\<open>lws_client_connect_via_info\<close>: address, port, path\<close>
  | EvOnWritable "nat option"              \<comment> \<open>\<^verbatim>\<open>lws_callback_on_writable\<close>\<close>
  | EvLwsWrite nat "byte list" int         \<comment> \<open>\<^verbatim>\<open>lws_write\<close> and what it returned\<close>
  | EvCloseReason nat string
  | EvSetBufferSize u32 u32
  | EvCloseInfo "byte list"                \<comment> \<open>written at the 0x200 bytes of \<^verbatim>\<open>pCloseInfo_c\<close>\<close>
  | EvCmdPush operation_param boferr       \<comment> \<open>the four buffers: the call and what it returned\<close>
  | EvCmdReset
  | EvWritePush write_op boferr
  | EvWriteSkip
  | EvWriteReset
  | EvResultPush operation_result boferr
  | EvResultReset
  | EvRxAppend bool
  | EvRxPush "byte list" boferr
  | EvRxPop u32 u64 boferr u32             \<comment> \<open>asked, destination, status, bytes given\<close>
  | EvRxSkip
  | EvRxReset
  | EvCancelSignal
  | EvCancelMask
  | EvOnOperation operation u32 u32 buffer_ref boferr
  | EvOnEvent lws_reason u32
  | EvOnMessage u32
  | EvOnOpen
  | EvOnClose
  | EvOnError boferr
  | EvThreadStart
  | EvThreadStop
  | EvAssertFailed
  | EvNullSession                          \<comment> \<open>a null session pointer was read\<close>
  | EvBadCall                              \<comment> \<open>a callback that is not set was called\<close>

section \<open>The members of the engine\<close>

record web_socket =
  mWebSocketParam_X :: web_socket_param
  mpLwsContext_X :: bool
  mWebSocketState_X :: session
  mClientCollection :: "(string \<times> session) list"
  mTicket_U32 :: u32
  mCancel_B :: bool
  mOperationPending_B :: bool
  mCurrentOp_X :: operation_param
  mNbRxByServer_U64 :: u64
  mNbTxByServer_U64 :: u64
  mNbRxByClient_U64 :: u64
  mNbTxByClient_U64 :: u64
  ws_trace :: "ws_event list"

definition emit :: "ws_event \<Rightarrow> 'a web_socket_scheme \<Rightarrow> 'a web_socket_scheme" where
  "emit e s = s\<lparr>ws_trace := ws_trace s @ [e]\<rparr>"

text \<open>\<^verbatim>\<open>BOF_ASSERT\<close>: a failure is recorded and the code goes on.\<close>

definition bof_assert :: "bool \<Rightarrow> 'a web_socket_scheme \<Rightarrow> 'a web_socket_scheme" where
  "bof_assert b s = (if b then s else emit EvAssertFailed s)"

text \<open>\<^verbatim>\<open>BOF_LWS_CLIENT_DISCONNECT\<close> and \<^verbatim>\<open>BOF_LWS_WAKEUP_SERVICE\<close>.\<close>

definition LWS_CLIENT_DISCONNECT :: "'a web_socket_scheme \<Rightarrow> 'a web_socket_scheme" where
  "LWS_CLIENT_DISCONNECT s =
     (let s1 = (if mpLwsContext_X s then (emit EvDestroyContext s)\<lparr>mpLwsContext_X := False\<rparr> else s)
      in emit EvRxReset (s1\<lparr>mWebSocketState_X := SESSION_Reset (mWebSocketState_X s1)\<rparr>))"

definition LWS_WAKEUP_SERVICE :: "'a web_socket_scheme \<Rightarrow> 'a web_socket_scheme" where
  "LWS_WAKEUP_SERVICE s = (if mpLwsContext_X s then emit EvWakeup s else s)"

text \<open>A client has no room for clients of its own; \<^verbatim>\<open>S_mWsCltId_U32\<close> is never written.\<close>

definition S_mWsCltId_U32 :: u32 where
  "S_mWsCltId_U32 = 1"

definition PUSH_POP_TIMEOUT :: u32 where
  "PUSH_POP_TIMEOUT = 150"

lemma emit_simps [simp]:
  "mWebSocketParam_X (emit e s) = mWebSocketParam_X s" "mpLwsContext_X (emit e s) = mpLwsContext_X s"
  "mWebSocketState_X (emit e s) = mWebSocketState_X s" "mClientCollection (emit e s) = mClientCollection s"
  "mTicket_U32 (emit e s) = mTicket_U32 s" "mCancel_B (emit e s) = mCancel_B s"
  "mOperationPending_B (emit e s) = mOperationPending_B s" "mCurrentOp_X (emit e s) = mCurrentOp_X s"
  "mNbRxByServer_U64 (emit e s) = mNbRxByServer_U64 s" "mNbTxByServer_U64 (emit e s) = mNbTxByServer_U64 s"
  "mNbRxByClient_U64 (emit e s) = mNbRxByClient_U64 s" "mNbTxByClient_U64 (emit e s) = mNbTxByClient_U64 s"
  "ws_trace (emit e s) = ws_trace s @ [e]"
  by (simp_all add: emit_def)

lemma LWS_CLIENT_DISCONNECT_simps [simp]:
  "mpLwsContext_X (LWS_CLIENT_DISCONNECT s) = False"
  "mWebSocketState_X (LWS_CLIENT_DISCONNECT s) = \<lparr>ConnectDone_B = False, pWebSocket_X = None\<rparr>"
  "mWebSocketParam_X (LWS_CLIENT_DISCONNECT s) = mWebSocketParam_X s"
  "mClientCollection (LWS_CLIENT_DISCONNECT s) = mClientCollection s"
  "mCurrentOp_X (LWS_CLIENT_DISCONNECT s) = mCurrentOp_X s" "mCancel_B (LWS_CLIENT_DISCONNECT s) = mCancel_B s"
  "ws_trace (LWS_CLIENT_DISCONNECT s) =
     ws_trace s @ (if mpLwsContext_X s then [EvDestroyContext, EvRxReset] else [EvRxReset])"
  by (simp_all add: LWS_CLIENT_DISCONNECT_def Let_def SESSION_Reset_def)

end
