(* ===== verification/WsReasons.thy ===== *)
theory WsReasons
  imports WsTypes
begin

text \<open>
  The names of the reasons of libwebsockets, \<^verbatim>\<open>S_LwsCallbackReasonEnumConverter\<close> of
  \<^verbatim>\<open>src/src/bofwebsocket.cpp\<close>, which the traces of the callback print.
\<close>

text \<open>In the order of the source; every enumerator is named as it is spelled, with the prefix \<^verbatim>\<open>LWS_CALLBACK_\<close>.\<close>

definition reason_suffixes :: "string list" where
  "reason_suffixes = [
    ''PROTOCOL_INIT'', ''PROTOCOL_DESTROY'', ''WSI_CREATE'', ''WSI_DESTROY'', ''WSI_TX_CREDIT_GET'',
    ''OPENSSL_LOAD_EXTRA_CLIENT_VERIFY_CERTS'', ''OPENSSL_LOAD_EXTRA_SERVER_VERIFY_CERTS'',
    ''OPENSSL_PERFORM_CLIENT_CERT_VERIFICATION'', ''SSL_INFO'', ''OPENSSL_PERFORM_SERVER_CERT_VERIFICATION'',
    ''SERVER_NEW_CLIENT_INSTANTIATED'', ''HTTP'', ''HTTP_BODY'', ''HTTP_BODY_COMPLETION'',
    ''HTTP_FILE_COMPLETION'', ''HTTP_WRITEABLE'', ''CLOSED_HTTP'', ''FILTER_HTTP_CONNECTION'', ''ADD_HEADERS'',
    ''VERIFY_BASIC_AUTHORIZATION'', ''CHECK_ACCESS_RIGHTS'', ''PROCESS_HTML'', ''HTTP_BIND_PROTOCOL'',
    ''HTTP_DROP_PROTOCOL'', ''HTTP_CONFIRM_UPGRADE'', ''ESTABLISHED_CLIENT_HTTP'', ''CLOSED_CLIENT_HTTP'',
    ''RECEIVE_CLIENT_HTTP_READ'', ''RECEIVE_CLIENT_HTTP'', ''COMPLETED_CLIENT_HTTP'', ''CLIENT_HTTP_WRITEABLE'',
    ''CLIENT_HTTP_REDIRECT'', ''CLIENT_HTTP_BIND_PROTOCOL'', ''CLIENT_HTTP_DROP_PROTOCOL'', ''ESTABLISHED'',
    ''CLOSED'', ''SERVER_WRITEABLE'', ''RECEIVE'', ''RECEIVE_PONG'', ''WS_PEER_INITIATED_CLOSE'',
    ''FILTER_PROTOCOL_CONNECTION'', ''CONFIRM_EXTENSION_OKAY'', ''WS_SERVER_BIND_PROTOCOL'',
    ''WS_SERVER_DROP_PROTOCOL'', ''CLIENT_CONNECTION_ERROR'', ''CLIENT_FILTER_PRE_ESTABLISH'',
    ''CLIENT_ESTABLISHED'', ''CLIENT_CLOSED'', ''CLIENT_APPEND_HANDSHAKE_HEADER'', ''CLIENT_RECEIVE'',
    ''CLIENT_RECEIVE_PONG'', ''CLIENT_WRITEABLE'', ''CLIENT_CONFIRM_EXTENSION_SUPPORTED'', ''WS_EXT_DEFAULTS'',
    ''FILTER_NETWORK_CONNECTION'', ''WS_CLIENT_BIND_PROTOCOL'', ''WS_CLIENT_DROP_PROTOCOL'', ''GET_THREAD_ID'',
    ''ADD_POLL_FD'', ''DEL_POLL_FD'', ''CHANGE_MODE_POLL_FD'', ''LOCK_POLL'', ''UNLOCK_POLL'', ''CGI'',
    ''CGI_TERMINATED'', ''CGI_STDIN_DATA'', ''CGI_STDIN_COMPLETED'', ''CGI_PROCESS_ATTACH'', ''SESSION_INFO'',
    ''GS_EVENT'', ''HTTP_PMO'', ''RAW_PROXY_CLI_RX'', ''RAW_PROXY_SRV_RX'', ''RAW_PROXY_CLI_CLOSE'',
    ''RAW_PROXY_SRV_CLOSE'', ''RAW_PROXY_CLI_WRITEABLE'', ''RAW_PROXY_SRV_WRITEABLE'', ''RAW_PROXY_CLI_ADOPT'',
    ''RAW_PROXY_SRV_ADOPT'', ''RAW_PROXY_CLI_BIND_PROTOCOL'', ''RAW_PROXY_SRV_BIND_PROTOCOL'',
    ''RAW_PROXY_CLI_DROP_PROTOCOL'', ''RAW_PROXY_SRV_DROP_PROTOCOL'', ''RAW_RX'', ''RAW_CLOSE'', ''RAW_WRITEABLE'',
    ''RAW_ADOPT'', ''RAW_CONNECTED'', ''RAW_SKT_BIND_PROTOCOL'', ''RAW_SKT_DROP_PROTOCOL'', ''RAW_ADOPT_FILE'',
    ''RAW_RX_FILE'', ''RAW_WRITEABLE_FILE'', ''RAW_CLOSE_FILE'', ''RAW_FILE_BIND_PROTOCOL'',
    ''RAW_FILE_DROP_PROTOCOL'', ''TIMER'', ''EVENT_WAIT_CANCELLED'', ''CHILD_CLOSING'', ''CONNECTING'',
    ''VHOST_CERT_AGING'', ''VHOST_CERT_UPDATE'', ''MQTT_NEW_CLIENT_INSTANTIATED'', ''MQTT_IDLE'',
    ''MQTT_CLIENT_ESTABLISHED'', ''MQTT_SUBSCRIBED'', ''MQTT_CLIENT_WRITEABLE'', ''MQTT_CLIENT_RX'',
    ''MQTT_UNSUBSCRIBED'', ''MQTT_DROP_PROTOCOL'', ''MQTT_CLIENT_CLOSED'', ''MQTT_ACK'', ''MQTT_RESEND'',
    ''MQTT_UNSUBSCRIBE_TIMEOUT'', ''USER'']"

definition reason_spelling :: "string \<Rightarrow> string" where
  "reason_spelling s = ''LWS_CALLBACK_'' @ s"

text \<open>\<open>val\<close> is the enumeration of libwebsockets: the value of an enumerator by its spelling.\<close>

definition S_LwsCallbackReasonEnumConverter :: "(string \<Rightarrow> 'r) \<Rightarrow> ('r \<times> string) list" where
  "S_LwsCallbackReasonEnumConverter val =
     map (\<lambda>s. (val (reason_spelling s), reason_spelling s)) reason_suffixes"

text \<open>The text of a reason: its name in the table; \<open>unknown\<close> is what bofstd gives for a value that has none.\<close>

definition reason_text :: "(string \<Rightarrow> 'r) \<Rightarrow> string \<Rightarrow> 'r \<Rightarrow> string" where
  "reason_text val unknown r =
     (case map_of (S_LwsCallbackReasonEnumConverter val) r of Some n \<Rightarrow> n | None \<Rightarrow> unknown)"

text \<open>Every reason of the table has its own name, when no two enumerators have the same value.\<close>

lemma reason_text_of_table:
  assumes "inj_on val (reason_spelling ` set reason_suffixes)" "s \<in> set reason_suffixes"
  shows "reason_text val unknown (val (reason_spelling s)) = reason_spelling s"
proof -
  let ?t = "S_LwsCallbackReasonEnumConverter val"
  have "val (reason_spelling s) \<in> fst ` set ?t"
    using assms(2) by (force simp: S_LwsCallbackReasonEnumConverter_def)
  then obtain n where n: "map_of ?t (val (reason_spelling s)) = Some n"
    by (metis map_of_eq_None_iff option.exhaust)
  then obtain s' where "s' \<in> set reason_suffixes" "val (reason_spelling s') = val (reason_spelling s)" "n = reason_spelling s'"
    by (auto simp: S_LwsCallbackReasonEnumConverter_def dest!: map_of_SomeD)
  then have "n = reason_spelling s" using assms by (auto dest: inj_onD)
  with n show ?thesis by (simp add: reason_text_def)
qed

end
