(* ===== verification/WsRegistry.thy ===== *)
theory WsRegistry
  imports WsTypes "HOL-Library.List_Lexorder" "HOL-Library.Char_ord"
begin

text \<open>
  The clients of a websocket server: \<^verbatim>\<open>mClientCollection\<close> and the operations on it
  (\<^verbatim>\<open>IsClientExist\<close>, \<^verbatim>\<open>AddClient\<close>, the two \<^verbatim>\<open>RemoveClient\<close>, \<^verbatim>\<open>GetClientList\<close>,
  \<^verbatim>\<open>GetNumberOfClient\<close>).  The \<^verbatim>\<open>std::map\<close> is an association list in the order of its keys.  The
  interface \<open>client_map\<close> states what the operations rely on, \<open>client_registry\<close> what they promise; both are
  interpreted on the model.
\<close>

section \<open>The map of the clients\<close>

type_synonym client_map = "(string \<times> session) list"

fun kv_put :: "string \<Rightarrow> 'v \<Rightarrow> (string \<times> 'v) list \<Rightarrow> (string \<times> 'v) list" where
  "kv_put k v [] = [(k, v)]"
| "kv_put k v ((a, b) # r) =
     (if k < a then (k, v) # (a, b) # r else if k = a then (k, v) # r else (a, b) # kv_put k v r)"

definition kv_erase :: "string \<Rightarrow> (string \<times> 'v) list \<Rightarrow> (string \<times> 'v) list" where
  "kv_erase k m = filter (\<lambda>(a, b). a \<noteq> k) m"

definition kv_inv :: "(string \<times> 'v) list \<Rightarrow> bool" where
  "kv_inv m \<longleftrightarrow> sorted_wrt (<) (map fst m)"

text \<open>The interface of the map: what lookup and size give after an insertion and an erasure.\<close>

locale client_map =
  fixes empty :: 'm and get :: "'m \<Rightarrow> 'k \<Rightarrow> 'v option" and put :: "'k \<Rightarrow> 'v \<Rightarrow> 'm \<Rightarrow> 'm"
    and erase :: "'k \<Rightarrow> 'm \<Rightarrow> 'm" and count :: "'m \<Rightarrow> nat" and ok :: "'m \<Rightarrow> bool"
  assumes ok_empty: "ok empty" and get_empty: "get empty k = None" and count_empty: "count empty = 0"
    and ok_put: "ok m \<Longrightarrow> ok (put k v m)" and ok_erase: "ok m \<Longrightarrow> ok (erase k m)"
    and get_put: "ok m \<Longrightarrow> get (put k v m) = (get m)(k \<mapsto> v)"
    and get_erase: "ok m \<Longrightarrow> get (erase k m) = (get m)(k := None)"
    and count_dom: "ok m \<Longrightarrow> finite (dom (get m)) \<and> count m = card (dom (get m))"
begin

lemma count_put_new: "ok m \<Longrightarrow> get m k = None \<Longrightarrow> count (put k v m) = Suc (count m)"
  using count_dom [of m] count_dom [OF ok_put, of m k v]
  by (simp add: get_put card_insert_if domIff)

lemma count_erase: "ok m \<Longrightarrow> get m k = Some v \<Longrightarrow> Suc (count (erase k m)) = count m"
proof -
  assume m: "ok m" "get m k = Some v"
  have "dom (get (erase k m)) = dom (get m) - {k}" using m by (auto simp: get_erase split: if_splits)
  moreover have "k \<in> dom (get m)" using m by auto
  ultimately show ?thesis
    using count_dom [OF m(1)] count_dom [OF ok_erase [OF m(1)], of k]
    by (metis card_Suc_Diff1)
qed

lemma count_erase_le: "ok m \<Longrightarrow> count (erase k m) \<le> count m"
  using count_dom [of m] count_dom [OF ok_erase, of m k]
  by (auto simp: get_erase intro!: card_mono)

end

lemma kv_inv_Cons: "kv_inv ((a, b) # r) \<longleftrightarrow> (\<forall>k \<in> set (map fst r). a < k) \<and> kv_inv r"
  by (simp add: kv_inv_def)

lemma set_kv_put: "set (map fst (kv_put k v m)) = insert k (set (map fst m))"
  by (induction k v m rule: kv_put.induct) auto

lemma kv_inv_put: "kv_inv m \<Longrightarrow> kv_inv (kv_put k v m)"
proof (induction k v m rule: kv_put.induct)
  case (1 k v)
  then show ?case by (simp add: kv_inv_def)
next
  case (2 k v a b r)
  then show ?case
    by (auto simp: kv_inv_Cons set_kv_put simp del: set_map)
qed

lemma kv_inv_erase: "kv_inv m \<Longrightarrow> kv_inv (kv_erase k m)"
  by (induction m) (auto simp: kv_erase_def kv_inv_def)

lemma kv_inv_distinct: "kv_inv m \<Longrightarrow> distinct (map fst m)"
  unfolding kv_inv_def strict_sorted_iff by simp

lemma map_of_kv_put: "kv_inv m \<Longrightarrow> map_of (kv_put k v m) = (map_of m)(k \<mapsto> v)"
proof (induction k v m rule: kv_put.induct)
  case (1 k v)
  then show ?case by simp
next
  case (2 k v a b r)
  then show ?case by (auto simp: kv_inv_Cons fun_eq_iff)
qed

lemma map_of_kv_erase: "map_of (kv_erase k m) = (map_of m)(k := None)"
  by (induction m) (auto simp: kv_erase_def fun_eq_iff)

interpretation kv: client_map "[]" map_of kv_put kv_erase length kv_inv
proof unfold_locales
  fix m :: "(string \<times> 'v) list" and k v
  assume m: "kv_inv m"
  show "kv_inv (kv_put k v m)" "kv_inv (kv_erase k m)"
    using m by (rule kv_inv_put, rule kv_inv_erase)
  show "map_of (kv_put k v m) = (map_of m)(k \<mapsto> v)" using m by (rule map_of_kv_put)
  show "map_of (kv_erase k m) = (map_of m)(k := None)" by (rule map_of_kv_erase)
  show "finite (dom (map_of m)) \<and> length m = card (dom (map_of m))"
    using kv_inv_distinct [OF m] using distinct_card [of "map fst m"] by (simp add: finite_dom_map_of dom_map_of_conv_image_fst)
qed (simp_all add: kv_inv_def)

section \<open>The operations\<close>

definition IsClientExist :: "string \<Rightarrow> 'a web_socket_scheme \<Rightarrow> bool" where
  "IsClientExist key s = (map_of (mClientCollection s) key \<noteq> None)"

text \<open>\<open>AddClient\<close> also writes \<open>ConnectDone_B\<close> of the session it is given (\<open>None\<close> is the null pointer).\<close>

definition AddClient ::
    "string \<Rightarrow> session option \<Rightarrow> 'a web_socket_scheme \<Rightarrow> boferr \<times> session option \<times> 'a web_socket_scheme" where
  "AddClient key data s =
     (case data of
        None \<Rightarrow> (BOF_ERR_EINVAL, None, s)
      | Some d \<Rightarrow>
          (let s1 = bof_assert (pWebSocket_X d \<noteq> None) s
           in if length (mClientCollection s1) < unat (NbMaxClient_U32 (mWebSocketParam_X s1)) then
                (case map_of (mClientCollection s1) key of
                   None \<Rightarrow> (let d' = d\<lparr>ConnectDone_B := True\<rparr>
                            in (BOF_ERR_NO_ERROR, Some d',
                                s1\<lparr>mClientCollection := kv_put key d' (mClientCollection s1)\<rparr>))
                 | Some _ \<Rightarrow> (BOF_ERR_ALREADY_OPENED, Some (d\<lparr>ConnectDone_B := False\<rparr>), s1))
              else (BOF_ERR_NO_MORE, Some d, s1)))"

definition RemoveClient_key :: "string \<Rightarrow> 'a web_socket_scheme \<Rightarrow> boferr \<times> 'a web_socket_scheme" where
  "RemoveClient_key key s =
     (if map_of (mClientCollection s) key \<noteq> None
      then (BOF_ERR_NO_ERROR, s\<lparr>mClientCollection := kv_erase key (mClientCollection s)\<rparr>)
      else (BOF_ERR_NOT_FOUND, s))"

text \<open>The first client, in the order of the keys, whose handle is that of the session.\<close>

definition RemoveClient ::
    "session option \<Rightarrow> 'a web_socket_scheme \<Rightarrow> boferr \<times> session option \<times> 'a web_socket_scheme" where
  "RemoveClient data s =
     (case data of
        None \<Rightarrow> (BOF_ERR_EINVAL, None, s)
      | Some d \<Rightarrow>
          (case find (\<lambda>(k, c). pWebSocket_X c = pWebSocket_X d) (mClientCollection s) of
             None \<Rightarrow> (BOF_ERR_NOT_FOUND, Some d, s)
           | Some (k, c) \<Rightarrow> (BOF_ERR_NO_ERROR, Some (d\<lparr>ConnectDone_B := False\<rparr>),
                             s\<lparr>mClientCollection := kv_erase k (mClientCollection s)\<rparr>)))"

definition GetClientList :: "'a web_socket_scheme \<Rightarrow> string" where
  "GetClientList s =
     concat (map (\<lambda>(k, c). k @ '': Cnt '' @ (if ConnectDone_B c then ''1'' else ''0'') @ [CHR 0x0A]) (mClientCollection s))"

definition GetNumberOfClient :: "'a web_socket_scheme \<Rightarrow> u32" where
  "GetNumberOfClient s = word_of_nat (length (mClientCollection s))"

section \<open>What the registry promises\<close>

definition registry_inv :: "'a web_socket_scheme \<Rightarrow> bool" where
  "registry_inv s \<longleftrightarrow> kv_inv (mClientCollection s) \<and>
     length (mClientCollection s) \<le> unat (NbMaxClient_U32 (mWebSocketParam_X s))"

text \<open>
  The contract of a registry with a limited number of seats: a client gets a seat exactly when there is
  one and its key is free, a refusal changes nothing, and leaving frees one seat.
\<close>

locale client_registry =
  fixes ok :: "'r \<Rightarrow> bool" and clients :: "'r \<Rightarrow> string \<Rightarrow> session option" and taken :: "'r \<Rightarrow> nat"
    and seats :: "'r \<Rightarrow> nat" and add :: "string \<Rightarrow> session \<Rightarrow> 'r \<Rightarrow> boferr \<times> 'r"
    and leave :: "string \<Rightarrow> 'r \<Rightarrow> boferr \<times> 'r"
  assumes taken_le: "ok r \<Longrightarrow> taken r \<le> seats r"
    and add_ok: "ok r \<Longrightarrow> add k d r = (e, r') \<Longrightarrow> ok r' \<and> seats r' = seats r"
    and add_accepts: "ok r \<Longrightarrow> add k d r = (e, r') \<Longrightarrow>
      e = BOF_ERR_NO_ERROR \<longleftrightarrow> taken r < seats r \<and> clients r k = None"
    and add_new: "ok r \<Longrightarrow> add k d r = (BOF_ERR_NO_ERROR, r') \<Longrightarrow>
      clients r' = (clients r)(k \<mapsto> d\<lparr>ConnectDone_B := True\<rparr>) \<and> taken r' = Suc (taken r)"
    and add_refused: "ok r \<Longrightarrow> add k d r = (e, r') \<Longrightarrow> e \<noteq> BOF_ERR_NO_ERROR \<Longrightarrow>
      clients r' = clients r \<and> taken r' = taken r"
    and leave_ok: "ok r \<Longrightarrow> leave k r = (e, r') \<Longrightarrow> ok r' \<and> seats r' = seats r"
    and leave_found: "ok r \<Longrightarrow> clients r k = Some c \<Longrightarrow>
      \<exists>r'. leave k r = (BOF_ERR_NO_ERROR, r') \<and> clients r' = (clients r)(k := None) \<and> Suc (taken r') = taken r"
begin

lemma add_twice_refused:
  assumes "ok r" "add k d r = (BOF_ERR_NO_ERROR, r')" "add k d' r' = (e, r'')"
  shows "e \<noteq> BOF_ERR_NO_ERROR \<and> clients r'' = clients r'"
proof -
  have r': "ok r'" "clients r' k \<noteq> None"
    using add_ok [OF assms(1,2)] add_new [OF assms(1,2)] by auto
  then have "e \<noteq> BOF_ERR_NO_ERROR" using add_accepts [OF r'(1) assms(3)] by blast
  with add_refused [OF r'(1) assms(3)] show ?thesis by blast
qed

lemma add_full_refused: "ok r \<Longrightarrow> taken r = seats r \<Longrightarrow> add k d r = (e, r') \<Longrightarrow> e \<noteq> BOF_ERR_NO_ERROR"
  using add_accepts by fastforce

lemma leave_makes_room:
  assumes "ok r" "taken r = seats r" "clients r k = Some c" "leave k r = (e, r')" "add k d r' = (e', r'')"
  shows "e' = BOF_ERR_NO_ERROR \<and> clients r'' = (clients r)(k \<mapsto> d\<lparr>ConnectDone_B := True\<rparr>)"
proof -
  from leave_found [OF assms(1,3)] assms(4)
  have r': "clients r' = (clients r)(k := None)" "Suc (taken r') = taken r" by auto
  have ok: "ok r'" "seats r' = seats r" using leave_ok [OF assms(1,4)] by auto
  have "e' = BOF_ERR_NO_ERROR" using add_accepts [OF ok(1) assms(5)] r' ok assms(2) by simp
  with add_new [OF ok(1)] assms(5) r' show ?thesis by auto
qed

end

definition registry_add :: "string \<Rightarrow> session \<Rightarrow> web_socket \<Rightarrow> boferr \<times> web_socket" where
  "registry_add k d s = (case AddClient k (Some d) s of (e, _, s') \<Rightarrow> (e, s'))"

lemma registry_add_cases:
  "registry_add k d s =
     (let s1 = bof_assert (pWebSocket_X d \<noteq> None) s
      in if length (mClientCollection s) < unat (NbMaxClient_U32 (mWebSocketParam_X s)) then
           (if map_of (mClientCollection s) k = None then
              (BOF_ERR_NO_ERROR, s1\<lparr>mClientCollection := kv_put k (d\<lparr>ConnectDone_B := True\<rparr>) (mClientCollection s)\<rparr>)
            else (BOF_ERR_ALREADY_OPENED, s1))
         else (BOF_ERR_NO_MORE, s1))"
  by (auto simp: registry_add_def AddClient_def Let_def bof_assert_def split: option.splits)

interpretation registry: client_registry registry_inv "\<lambda>s. map_of (mClientCollection s)"
  "\<lambda>s. length (mClientCollection s)" "\<lambda>s. unat (NbMaxClient_U32 (mWebSocketParam_X s))"
  registry_add RemoveClient_key
proof unfold_locales
  fix r r' :: web_socket and k d e c
  assume r: "registry_inv r"
  then have inv: "kv_inv (mClientCollection r)"
    and le: "length (mClientCollection r) \<le> unat (NbMaxClient_U32 (mWebSocketParam_X r))"
    by (simp_all add: registry_inv_def)
  show "length (mClientCollection r) \<le> unat (NbMaxClient_U32 (mWebSocketParam_X r))" by (rule le)
  {
    assume a: "registry_add k d r = (e, r')"
    show "registry_inv r' \<and> unat (NbMaxClient_U32 (mWebSocketParam_X r')) = unat (NbMaxClient_U32 (mWebSocketParam_X r))"
      using a r inv kv_inv_put kv.count_put_new [OF inv]
      by (auto simp: registry_add_cases registry_inv_def Let_def bof_assert_def split: if_splits)
    show "e = BOF_ERR_NO_ERROR \<longleftrightarrow> length (mClientCollection r) < unat (NbMaxClient_U32 (mWebSocketParam_X r)) \<and>
        map_of (mClientCollection r) k = None"
      using a by (auto simp: registry_add_cases Let_def split: if_splits)
    show "e \<noteq> BOF_ERR_NO_ERROR \<Longrightarrow> map_of (mClientCollection r') = map_of (mClientCollection r) \<and>
        length (mClientCollection r') = length (mClientCollection r)"
      using a by (auto simp: registry_add_cases Let_def bof_assert_def split: if_splits)
  }
  show "registry_add k d r = (BOF_ERR_NO_ERROR, r') \<Longrightarrow>
      map_of (mClientCollection r') = (map_of (mClientCollection r))(k \<mapsto> d\<lparr>ConnectDone_B := True\<rparr>) \<and>
      length (mClientCollection r') = Suc (length (mClientCollection r))"
    using kv.count_put_new [OF inv] map_of_kv_put [OF inv]
    by (auto simp: registry_add_cases Let_def bof_assert_def split: if_splits)
  show "RemoveClient_key k r = (e, r') \<Longrightarrow> registry_inv r' \<and>
      unat (NbMaxClient_U32 (mWebSocketParam_X r')) = unat (NbMaxClient_U32 (mWebSocketParam_X r))"
    using r kv_inv_erase [OF inv] kv.count_erase_le [OF inv, of k]
    by (auto simp: RemoveClient_key_def registry_inv_def split: if_splits)
  show "map_of (mClientCollection r) k = Some c \<Longrightarrow>
      \<exists>r'. RemoveClient_key k r = (BOF_ERR_NO_ERROR, r') \<and>
        map_of (mClientCollection r') = (map_of (mClientCollection r))(k := None) \<and>
        Suc (length (mClientCollection r')) = length (mClientCollection r)"
    using kv.count_erase [OF inv] by (simp add: RemoveClient_key_def map_of_kv_erase)
qed

end
