(* ===== verification/WsCallback.thy ===== *)
theory WsCallback
  imports WsRegistry
begin

text \<open>
  \<^verbatim>\<open>BofWebSocket::LwsCallback\<close> (\<^verbatim>\<open>src/src/bofwebsocket.cpp\<close>): what the engine does with each event
  of libwebsockets.  One record holds what the library and the callbacks of the application answer
  during one call; the cases of the switch are one definition each, composed as the function composes
  them.
\<close>

section \<open>The input of one call\<close>

record lws_call =
  lc_wsi :: "nat option"                 \<comment> \<open>\<^verbatim>\<open>_pWsi_X\<close>\<close>
  lc_reason :: lws_reason
  lc_session :: "session option"         \<comment> \<open>\<^verbatim>\<open>_pLwsUser\<close>\<close>
  lc_input :: "byte list"                \<comment> \<open>\<^verbatim>\<open>_pInput\<close>, \<^verbatim>\<open>_Len\<close>\<close>
  lc_urlarg :: "string option"           \<comment> \<open>what \<^verbatim>\<open>lws_get_urlarg_by_name\<close> finds\<close>
  lc_stack_key :: string                 \<comment> \<open>what the uninitialised \<^verbatim>\<open>pWsCltKey_c\<close> of the call holds\<close>
  lc_socket_fd :: int
  lc_socket_sizes :: "u32 \<times> u32"         \<comment> \<open>the sizes the first \<^verbatim>\<open>S_SetSocketBufferSize\<close> reads back\<close>
  lc_socket_sts :: boferr                \<comment> \<open>status of the second one\<close>
  lc_peek :: "write_op option"           \<comment> \<open>the head of the write operations\<close>
  lc_written :: int                      \<comment> \<open>\<^verbatim>\<open>lws_write\<close>\<close>
  lc_elapsed :: u32
  lc_push :: boferr                      \<comment> \<open>pushing a result\<close>
  lc_final :: bool                       \<comment> \<open>\<^verbatim>\<open>lws_is_final_fragment\<close>\<close>
  lc_rx_push :: boferr
  lc_raw_size1 :: u32
  lc_raw_contiguous :: bool              \<comment> \<open>no second part in the raw buffer\<close>
  lc_on_message :: boferr
  lc_on_event :: boferr
  lc_reply :: "byte list option"         \<comment> \<open>what the callbacks put in \<^verbatim>\<open>Reply_X\<close>, after the \<^verbatim>\<open>LWS_PRE\<close> bytes\<close>
  lc_reply_written :: int
  lc_close_payload :: "byte list option" \<comment> \<open>\<^verbatim>\<open>lws_get_close_payload\<close>, \<^verbatim>\<open>lws_get_close_length\<close>\<close>
  lc_close_behind :: "byte list"         \<comment> \<open>the memory behind that payload\<close>

section \<open>Helpers\<close>

definition hex_digit :: "nat \<Rightarrow> char" where
  "hex_digit d = (if d < 10 then char_of (48 + d) else char_of (55 + d))"

text \<open>The text of \<^verbatim>\<open>%08X\<close>.\<close>

definition hex8 :: "u32 \<Rightarrow> string" where
  "hex8 w = map (\<lambda>i. hex_digit (unat w div 16 ^ (7 - i) mod 16)) [0..<8]"

definition default_key :: string where
  "default_key = snprintf_buf 0x200 (''BofWsClt_'' @ hex8 S_mWsCltId_U32)"

text \<open>\<open>SetSocketBufferSize\<close>: the sizes asked for, or the ones the socket has.\<close>

definition SetSocketBufferSize ::
    "int \<Rightarrow> u32 \<times> u32 \<Rightarrow> boferr \<Rightarrow> u32 \<Rightarrow> u32 \<Rightarrow> 'a web_socket_scheme \<Rightarrow> boferr \<times> 'a web_socket_scheme" where
  "SetSocketBufferSize fd sizes sts rcv sndb s =
     (if 0 \<le> fd then
        (case sizes of (rcv0, snd0) \<Rightarrow>
           (sts, emit (EvSetBufferSize (if rcv \<noteq> 0 then rcv else rcv0) (if sndb \<noteq> 0 then sndb else snd0))
                   (emit (EvSetBufferSize 0 0) s)))
      else (BOF_ERR_NOT_AVAILABLE, s))"

text \<open>
  \<open>GetCloseInfo\<close>: status, reported size, and the bytes written at the caller's buffer.  The copy is a
  \<^verbatim>\<open>strcpy\<close> from a text that need not end with a zero: it goes on into \<open>behind\<close>, the memory behind the
  payload, up to the first zero, and writes that zero too.
\<close>

definition strcpy_bytes :: "byte list \<Rightarrow> byte list" where
  "strcpy_bytes mem = takeWhile (\<lambda>b. b \<noteq> 0) mem @ [0]"

definition GetCloseInfo :: "byte list option \<Rightarrow> byte list \<Rightarrow> u32 \<Rightarrow> boferr \<times> u16 \<times> u32 \<times> byte list" where
  "GetCloseInfo payload behind MaxSize =
     (case payload of
        None \<Rightarrow> (BOF_ERR_NOT_AVAILABLE, 0, MaxSize, [])
      | Some p \<Rightarrow>
          if 2 \<le> length p then
            (let status = word_of_nat (unat (p ! 0) + 256 * unat (p ! 1));
                 reason = drop 2 p
             in if length reason \<le> unat MaxSize
                then (BOF_ERR_NO_ERROR, status, word_of_nat (length reason), strcpy_bytes (reason @ behind))
                else (BOF_ERR_TOO_SMALL, status, word_of_nat (length reason), []))
          else (BOF_ERR_NOT_AVAILABLE, 0, MaxSize, []))"

definition call_OnOpen :: "'a web_socket_scheme \<Rightarrow> 'a web_socket_scheme" where
  "call_OnOpen s = (if OnOpen (mWebSocketParam_X s) then emit EvOnOpen s else s)"

text \<open>\<open>OnClose\<close> is called when \<open>OnOpen\<close> is set, whether or not \<open>OnClose\<close> itself is.\<close>

definition call_OnClose :: "'a web_socket_scheme \<Rightarrow> 'a web_socket_scheme" where
  "call_OnClose s =
     (if OnOpen (mWebSocketParam_X s) then
        (if OnClose (mWebSocketParam_X s) then emit EvOnClose s else emit EvBadCall s)
      else s)"

section \<open>The cases of the first switch\<close>

text \<open>\<^verbatim>\<open>LWS_CALLBACK_ADD_HEADERS\<close>: is there a seat for this key?\<close>

definition cb_add_headers :: "nat \<Rightarrow> lws_call \<Rightarrow> 'a web_socket_scheme \<Rightarrow> int \<times> 'a web_socket_scheme" where
  "cb_add_headers wsi cl s =
     (let key = (case lc_urlarg cl of Some k \<Rightarrow> c_str k | None \<Rightarrow> default_key)
      in if length (mClientCollection s) < unat (NbMaxClient_U32 (mWebSocketParam_X s)) then
           (if IsClientExist key s then (1, emit (EvCloseReason wsi key) s) else (0, s))
         else (1, s))"

text \<open>
  \<^verbatim>\<open>LWS_CALLBACK_ESTABLISHED\<close>: the server takes the client in.  The key is whatever the stack holds:
  the name read in \<^verbatim>\<open>ADD_HEADERS\<close> was in the frame of another call.
\<close>

definition cb_established ::
    "nat \<Rightarrow> lws_call \<Rightarrow> 'a web_socket_scheme \<Rightarrow> int \<times> session option \<times> 'a web_socket_scheme" where
  "cb_established wsi cl s =
     (let (sts, s1) = SetSocketBufferSize (lc_socket_fd cl) (lc_socket_sizes cl) (lc_socket_sts cl)
             (SocketRcvBufferSize_U32 (mWebSocketParam_X s)) (SocketSndBufferSize_U32 (mWebSocketParam_X s)) s
      in if sts \<noteq> BOF_ERR_NO_ERROR then (-2, lc_session cl, s1)
         else
           (let s2 = (case pWebSocket_X (mWebSocketState_X s1) of
                        None \<Rightarrow> s1 | Some w \<Rightarrow> bof_assert (w = wsi) s1);
                s3 = s2\<lparr>mWebSocketState_X := (mWebSocketState_X s2)\<lparr>pWebSocket_X := Some wsi\<rparr>\<rparr>;
                key = c_str (lc_stack_key cl)
            in case lc_session cl of
                 None \<Rightarrow> (-3, None, emit EvNullSession s3)
               | Some d \<Rightarrow>
                   (case AddClient key (Some (d\<lparr>pWebSocket_X := Some wsi\<rparr>)) s3 of
                      (e, d', s4) \<Rightarrow>
                        if e = BOF_ERR_NO_ERROR then
                          (0, d', call_OnOpen (s4\<lparr>mWebSocketState_X := (mWebSocketState_X s4)\<lparr>ConnectDone_B := True\<rparr>\<rparr>))
                        else (1, d', emit (EvCloseReason wsi key) s4))))"

text \<open>\<^verbatim>\<open>LWS_CALLBACK_CLIENT_ESTABLISHED\<close>.\<close>

definition cb_client_established :: "nat \<Rightarrow> lws_call \<Rightarrow> 'a web_socket_scheme \<Rightarrow> int \<times> 'a web_socket_scheme" where
  "cb_client_established wsi cl s =
     (let (sts, s1) = SetSocketBufferSize (lc_socket_fd cl) (lc_socket_sizes cl) (lc_socket_sts cl)
             (SocketRcvBufferSize_U32 (mWebSocketParam_X s)) (SocketSndBufferSize_U32 (mWebSocketParam_X s)) s
      in if sts \<noteq> BOF_ERR_NO_ERROR then (-4, s1)
         else
           (let s2 = bof_assert (pWebSocket_X (mWebSocketState_X s1) = Some wsi) s1
            in (0, call_OnOpen (s2\<lparr>mWebSocketState_X := (mWebSocketState_X s2)\<lparr>ConnectDone_B := True\<rparr>\<rparr>))))"

text \<open>
  The result of a write that is over: it is pushed, reported with the status of the push, and the
  operation leaves the queue.
\<close>

definition finish_write :: "lws_call \<Rightarrow> boferr \<Rightarrow> write_op \<Rightarrow> 'a web_socket_scheme \<Rightarrow> 'a web_socket_scheme" where
  "finish_write cl sts w s =
     (let r = (wo_Result_X w)\<lparr>Time_U32 := lc_elapsed cl, res_pBuffer_U8 := WriteStorage (wo_payload w),
                Sts_E := sts, Size_U32 := word_of_nat (length (wo_payload w))\<rparr>;
          s1 = emit (EvResultPush r (lc_push cl)) s;
          s2 = (if OnOperation (mWebSocketParam_X s1)
                then emit (EvOnOperation (res_Operation_E r) (OpTicket_U32 r) (Size_U32 r) (res_pBuffer_U8 r) (lc_push cl)) s1
                else s1)
      in emit EvWriteSkip s2)"

text \<open>
  The two \<^verbatim>\<open>..._WRITEABLE\<close> cases.  The operation is only peeked: after a partial write the new position
  is in a local copy and the queue keeps the old one.
\<close>

definition cb_writeable :: "bool \<Rightarrow> nat \<Rightarrow> lws_call \<Rightarrow> 'a web_socket_scheme \<Rightarrow> 'a web_socket_scheme" where
  "cb_writeable server wsi cl s =
     (case lc_peek cl of
        None \<Rightarrow> s
      | Some w \<Rightarrow>
          if RemainToRead w = [] then s
          else
            (let s1 = emit (EvLwsWrite wsi (RemainToRead w) (lc_written cl)) s;
                 NbWritten = (word_of_int (lc_written cl) :: u64);
                 s2 = bof_assert (unat NbWritten = length (RemainToRead w)) s1;
                 s3 = (if server then s2\<lparr>mNbTxByServer_U64 := mNbTxByServer_U64 s2 + NbWritten\<rparr>
                       else s2\<lparr>mNbTxByClient_U64 := mNbTxByClient_U64 s2 + NbWritten\<rparr>)
             in if lc_written cl < 0 \<or> length (RemainToRead w) < unat NbWritten then finish_write cl BOF_ERR_WRITE w s3
                else if unat NbWritten = length (RemainToRead w) then finish_write cl BOF_ERR_NO_ERROR w s3
                else if wo_TimeOut_U32 w < lc_elapsed cl then finish_write cl BOF_ERR_ETIMEDOUT w s3
                else emit (EvOnWritable (pWebSocket_X (mWebSocketState_X s3))) s3))"

text \<open>
  The two \<^verbatim>\<open>..._RECEIVE\<close> cases.  The raw buffer read afterwards is the one the buffers give; a push that fails
  and leaves it unset is not modelled.
\<close>

definition cb_receive :: "bool \<Rightarrow> lws_call \<Rightarrow> 'a web_socket_scheme \<Rightarrow> 'a web_socket_scheme" where
  "cb_receive server cl s =
     (let len = word_of_nat (length (lc_input cl));
          s1 = (if server then s\<lparr>mNbRxByServer_U64 := mNbRxByServer_U64 s + len\<rparr>
                else s\<lparr>mNbRxByClient_U64 := mNbRxByClient_U64 s + len\<rparr>)
      in emit (EvRxAppend (\<not> lc_final cl)) (emit (EvRxPush (lc_input cl) (lc_rx_push cl)) (emit (EvRxAppend True) s1)))"

text \<open>The first switch: \<^verbatim>\<open>Rts_i\<close>, the session and the members after it.\<close>

definition cb_first :: "nat \<Rightarrow> lws_call \<Rightarrow> 'a web_socket_scheme \<Rightarrow> int \<times> session option \<times> 'a web_socket_scheme" where
  "cb_first wsi cl s =
     (case lc_reason cl of
        LWS_CALLBACK_HTTP_BIND_PROTOCOL \<Rightarrow>
          (0, lc_session cl, s\<lparr>mWebSocketState_X := (mWebSocketState_X s)\<lparr>pWebSocket_X := Some wsi\<rparr>\<rparr>)
      | LWS_CALLBACK_ADD_HEADERS \<Rightarrow> (case cb_add_headers wsi cl s of (r, s') \<Rightarrow> (r, lc_session cl, s'))
      | LWS_CALLBACK_ESTABLISHED \<Rightarrow> cb_established wsi cl s
      | LWS_CALLBACK_CLIENT_ESTABLISHED \<Rightarrow> (case cb_client_established wsi cl s of (r, s') \<Rightarrow> (r, lc_session cl, s'))
      | LWS_CALLBACK_SERVER_WRITEABLE \<Rightarrow> (0, lc_session cl, cb_writeable True wsi cl s)
      | LWS_CALLBACK_CLIENT_WRITEABLE \<Rightarrow> (0, lc_session cl, cb_writeable False wsi cl s)
      | LWS_CALLBACK_RECEIVE \<Rightarrow> (0, lc_session cl, cb_receive True cl s)
      | LWS_CALLBACK_CLIENT_RECEIVE \<Rightarrow> (0, lc_session cl, cb_receive False cl s)
      | _ \<Rightarrow> (0, lc_session cl, s))"

section \<open>The callbacks of the application\<close>

definition send_reply :: "nat \<Rightarrow> lws_call \<Rightarrow> 'a web_socket_scheme \<Rightarrow> 'a web_socket_scheme" where
  "send_reply wsi cl s =
     (case lc_reply cl of None \<Rightarrow> s | Some b \<Rightarrow> emit (EvLwsWrite wsi b (lc_reply_written cl)) s)"

definition is_receive :: "lws_reason \<Rightarrow> bool" where
  "is_receive r \<longleftrightarrow> r = LWS_CALLBACK_RECEIVE \<or> r = LWS_CALLBACK_CLIENT_RECEIVE"

definition cb_events :: "nat \<Rightarrow> lws_call \<Rightarrow> 'a web_socket_scheme \<Rightarrow> 'a web_socket_scheme" where
  "cb_events wsi cl s =
     (if is_receive (lc_reason cl) then
        (if lc_final cl then
           (let s1 = bof_assert (lc_raw_contiguous cl) s;
                p = mWebSocketParam_X s1;
                s2 = (if OnMessage p then emit (EvOnMessage (lc_raw_size1 cl)) s1 else s1);
                rel1 = (OnMessage p \<and> lc_on_message cl = BOF_ERR_NO_ERROR);
                s3 = (if OnEvent p then emit (EvOnEvent (lc_reason cl) (lc_raw_size1 cl)) s2 else s2);
                s4 = (if OnEvent p \<and> lc_on_event cl = BOF_ERR_NO_ERROR then send_reply wsi cl s3 else s3);
                rel2 = (OnEvent p \<and> lc_on_event cl = BOF_ERR_NO_ERROR)
            in if rel1 \<or> rel2 then emit EvRxSkip s4 else s4)
         else s)
      else if OnEvent (mWebSocketParam_X s) then
        (let s1 = emit (EvOnEvent (lc_reason cl) (word_of_nat (length (lc_input cl)))) s
         in if lc_on_event cl = BOF_ERR_NO_ERROR then send_reply wsi cl s1 else s1)
      else s)"

section \<open>The second switch\<close>

definition read_close_info :: "lws_call \<Rightarrow> 'a web_socket_scheme \<Rightarrow> 'a web_socket_scheme" where
  "read_close_info cl s =
     (case GetCloseInfo (lc_close_payload cl) (lc_close_behind cl) 0x200 of
        (e, _, _, bs) \<Rightarrow> if e = BOF_ERR_NO_ERROR then emit (EvCloseInfo bs) s else s)"

definition cb_second :: "lws_call \<Rightarrow> session option \<Rightarrow> 'a web_socket_scheme \<Rightarrow> session option \<times> 'a web_socket_scheme" where
  "cb_second cl d s =
     (case lc_reason cl of
        LWS_CALLBACK_CLIENT_CLOSED \<Rightarrow>
          (d, call_OnClose (read_close_info cl (s\<lparr>mWebSocketState_X := (mWebSocketState_X s)\<lparr>ConnectDone_B := False\<rparr>\<rparr>)))
      | LWS_CALLBACK_CLOSED \<Rightarrow>
          (case RemoveClient d (s\<lparr>mWebSocketState_X := (mWebSocketState_X s)\<lparr>ConnectDone_B := False\<rparr>\<rparr>) of
             (_, d', s1) \<Rightarrow> (d', call_OnClose (read_close_info cl s1)))
      | LWS_CALLBACK_CLIENT_CONNECTION_ERROR \<Rightarrow>
          (let s1 = (if OnError (mWebSocketParam_X s) then emit (EvOnError BOF_ERR_ECONNRESET) s else s)
           in (d, LWS_CLIENT_DISCONNECT s1))
      | _ \<Rightarrow> (d, s))"

definition LwsCallback :: "lws_call \<Rightarrow> 'a web_socket_scheme \<Rightarrow> int \<times> session option \<times> 'a web_socket_scheme" where
  "LwsCallback cl s =
     (case lc_wsi cl of
        None \<Rightarrow> (-1, lc_session cl, s)
      | Some wsi \<Rightarrow>
          (let (r, d, s1) = cb_first wsi cl s;
               (d', s2) = cb_second cl d (cb_events wsi cl s1)
           in (r, d', s2)))"

text \<open>\<^verbatim>\<open>S_Lws_Callback_Http\<close>: the engine is the user pointer of the context; without one the answer is -1.\<close>

definition S_Lws_Callback_Http :: "lws_call \<Rightarrow> web_socket option \<Rightarrow> int \<times> session option \<times> web_socket option" where
  "S_Lws_Callback_Http cl ws =
     (case ws of
        None \<Rightarrow> (-1, lc_session cl, None)
      | Some s \<Rightarrow> (case LwsCallback cl s of (r, d, s') \<Rightarrow> (r, d, Some s')))"

end
