(* ===== verification/WsApi.thy ===== *)
theory WsApi
  imports WsCallback
begin

text \<open>
  The calls of the application on a websocket engine (\<^verbatim>\<open>src/src/bofwebsocket.cpp\<close>): construction,
  programming an operation, taking results, cancelling, the four blocking calls \<^verbatim>\<open>Connect\<close>,
  \<^verbatim>\<open>Write\<close>, \<^verbatim>\<open>Read\<close> and \<^verbatim>\<open>Disconnect\<close>, \<^verbatim>\<open>Run\<close> and \<^verbatim>\<open>Stop\<close>.
\<close>

section \<open>Construction\<close>

record circular_buffer_param =
  cb_MultiThreadAware_B :: bool
  cb_NbMaxElement_U32 :: u32
  cb_Overwrite_B :: bool
  cb_Blocking_B :: bool
  cb_PopLockMode_B :: bool

record raw_buffer_param =
  rb_MultiThreadAware_B :: bool
  rb_BufferSizeInByte_U32 :: u32
  rb_SlotMode_B :: bool
  rb_AlwaysContiguous_B :: bool
  rb_NbMaxBufferEntry_U32 :: u32
  rb_Overwrite_B :: bool
  rb_Blocking_B :: bool

definition queue_param :: "u32 \<Rightarrow> circular_buffer_param" where
  "queue_param n = \<lparr>cb_MultiThreadAware_B = True, cb_NbMaxElement_U32 = n, cb_Overwrite_B = False,
     cb_Blocking_B = True, cb_PopLockMode_B = False\<rparr>"

text \<open>The parameters of the command, write, result and receive buffers.\<close>

definition buffer_params ::
    "web_socket_param \<Rightarrow> circular_buffer_param \<times> circular_buffer_param \<times> circular_buffer_param \<times> raw_buffer_param" where
  "buffer_params p =
     (queue_param (NbMaxOperationPending_U32 p),
      queue_param (NbMaxOperationPending_U32 p + 1),
      queue_param (NbMaxOperationPending_U32 p + 1),
      \<lparr>rb_MultiThreadAware_B = True, rb_BufferSizeInByte_U32 = RxBufferSize_U32 p, rb_SlotMode_B = False,
       rb_AlwaysContiguous_B = True, rb_NbMaxBufferEntry_U32 = NbMaxBufferEntry_U32 p,
       rb_Overwrite_B = False, rb_Blocking_B = True\<rparr>)"

text \<open>
  Which of the four buffers exist after the constructor, for the error codes of the command and write
  buffers: the guard of the receive buffer asks the command buffer again, so the error code of the result
  buffer is never looked at.
\<close>

definition created_buffers :: "boferr \<Rightarrow> boferr \<Rightarrow> bool \<times> bool \<times> bool \<times> bool" where
  "created_buffers command_sts write_sts =
     (if command_sts = BOF_ERR_NO_ERROR then
        (if write_sts = BOF_ERR_NO_ERROR then
           (if command_sts = BOF_ERR_NO_ERROR then (True, True, True, True) else (True, True, True, False))
         else (True, True, False, False))
      else (True, False, False, False))"

text \<open>\<open>event_sts\<close> is the status of creating the cancel event.\<close>

definition BofWebSocket :: "boferr \<Rightarrow> web_socket_param \<Rightarrow> web_socket" where
  "BofWebSocket event_sts p =
     bof_assert (event_sts = BOF_ERR_NO_ERROR)
       \<lparr>mWebSocketParam_X = p, mpLwsContext_X = False,
        mWebSocketState_X = \<lparr>ConnectDone_B = False, pWebSocket_X = None\<rparr>, mClientCollection = [],
        mTicket_U32 = 1, mCancel_B = False, mOperationPending_B = False,
        mCurrentOp_X = \<lparr>Operation_E = OPERATION_MAX, Ticket_U32 = 0, TimeOut_U32 = 0, Timer_U32 = 0, OpParam = NoParam\<rparr>,
        mNbRxByServer_U64 = 0, mNbTxByServer_U64 = 0, mNbRxByClient_U64 = 0, mNbTxByClient_U64 = 0,
        ws_trace = []\<rparr>"

section \<open>Programming an operation\<close>

text \<open>
  What the outside answers to one of these calls: the macro that steps the ticket number, the clock,
  the status of the push into the command queue.
\<close>

record api_in =
  ai_inc_ticket :: "u32 \<Rightarrow> u32"
  ai_now :: u32
  ai_push :: boferr

text \<open>\<^verbatim>\<open>BOF_WEB_RPC_PROGRAM_OPERATION\<close>: status and ticket.\<close>

definition program_operation ::
    "api_in \<Rightarrow> u32 \<Rightarrow> operation \<Rightarrow> op_param \<Rightarrow> 'a web_socket_scheme \<Rightarrow> boferr \<times> u32 \<times> 'a web_socket_scheme" where
  "program_operation i TimeOut op prm s =
     (let p = \<lparr>Operation_E = op, Ticket_U32 = mTicket_U32 s, TimeOut_U32 = TimeOut, Timer_U32 = ai_now i, OpParam = prm\<rparr>;
          s1 = emit (EvCmdPush p (ai_push i)) (s\<lparr>mTicket_U32 := ai_inc_ticket i (mTicket_U32 s)\<rparr>)
      in if ai_push i = BOF_ERR_NO_ERROR then
           (BOF_ERR_NO_ERROR, Ticket_U32 p, (LWS_WAKEUP_SERVICE s1)\<lparr>mOperationPending_B := True\<rparr>)
         else (ai_push i, 0, s1))"

definition Program_Exit :: "api_in \<Rightarrow> u32 \<Rightarrow> exit_param \<Rightarrow> 'a web_socket_scheme \<Rightarrow> boferr \<times> u32 \<times> 'a web_socket_scheme" where
  "Program_Exit i t p = program_operation i t OPERATION_EXIT (Exit_X p)"

definition Program_Listen :: "api_in \<Rightarrow> u32 \<Rightarrow> listen_param \<Rightarrow> 'a web_socket_scheme \<Rightarrow> boferr \<times> u32 \<times> 'a web_socket_scheme" where
  "Program_Listen i t p = program_operation i t OPERATION_LISTEN (Listen_X p)"

definition Program_Connect :: "api_in \<Rightarrow> u32 \<Rightarrow> connect_param \<Rightarrow> 'a web_socket_scheme \<Rightarrow> boferr \<times> u32 \<times> 'a web_socket_scheme" where
  "Program_Connect i t p = program_operation i t OPERATION_CONNECT (Connect_X p)"

definition Program_Read :: "api_in \<Rightarrow> u32 \<Rightarrow> io_param \<Rightarrow> 'a web_socket_scheme \<Rightarrow> boferr \<times> u32 \<times> 'a web_socket_scheme" where
  "Program_Read i t p = program_operation i t OPERATION_READ (Read_X p)"

definition Program_Write :: "api_in \<Rightarrow> u32 \<Rightarrow> io_param \<Rightarrow> 'a web_socket_scheme \<Rightarrow> boferr \<times> u32 \<times> 'a web_socket_scheme" where
  "Program_Write i t p = program_operation i t OPERATION_WRITE (Write_X p)"

definition Program_Disconnect :: "api_in \<Rightarrow> u32 \<Rightarrow> disconnect_param \<Rightarrow> 'a web_socket_scheme \<Rightarrow> boferr \<times> u32 \<times> 'a web_socket_scheme" where
  "Program_Disconnect i t p = program_operation i t OPERATION_DISCONNECT (Disconnect_X p)"

section \<open>Results, counters and cancellation\<close>

text \<open>A pop of the result queue gives a result or the status of its failure.\<close>

definition GetWebSocketOperationResult :: "boferr + operation_result \<Rightarrow> boferr \<times> operation_result" where
  "GetWebSocketOperationResult ans = (case ans of Inl e \<Rightarrow> (e, new_result) | Inr r \<Rightarrow> (BOF_ERR_NO_ERROR, r))"

definition IsWebSocketOperationPending :: "'a web_socket_scheme \<Rightarrow> bool" where
  "IsWebSocketOperationPending s = mOperationPending_B s"

text \<open>\<open>wait_sts\<close> is what waiting for the cancel event gives.\<close>

definition CancelWebSocketOperation :: "boferr \<Rightarrow> u32 \<Rightarrow> 'a web_socket_scheme \<Rightarrow> boferr \<times> 'a web_socket_scheme" where
  "CancelWebSocketOperation wait_sts TimeOut s =
     (if mCancel_B s then (BOF_ERR_PENDING, s)
      else (let s1 = s\<lparr>mCancel_B := True\<rparr>; e = (if TimeOut \<noteq> 0 then wait_sts else BOF_ERR_NO_ERROR)
            in (e, if e = BOF_ERR_NO_ERROR then s1\<lparr>mOperationPending_B := False\<rparr> else s1)))"

definition ClearWebSocketOperation :: "'a web_socket_scheme \<Rightarrow> boferr \<times> 'a web_socket_scheme" where
  "ClearWebSocketOperation s =
     (BOF_ERR_NO_ERROR, emit EvCancelMask (s\<lparr>mOperationPending_B := False, mCancel_B := False\<rparr>))"

definition ResetWebSocketOperation :: "'a web_socket_scheme \<Rightarrow> boferr \<times> 'a web_socket_scheme" where
  "ResetWebSocketOperation s =
     (BOF_ERR_NO_ERROR, snd (ClearWebSocketOperation (emit EvResultReset (emit EvCmdReset s))))"

section \<open>Blocking calls\<close>

text \<open>
  The loop the four calls share, over the answers of the result queue: it ends with the first failure
  or with the result of its own ticket; the results of other tickets on the way are dropped.  \<open>None\<close>:
  the answers given so far do not end it.
\<close>

fun wait_result ::
    "u32 \<Rightarrow> (boferr + operation_result) list \<Rightarrow> (boferr \<times> operation_result \<times> operation_result list) option" where
  "wait_result ticket [] = None"
| "wait_result ticket (a # as) =
     (case GetWebSocketOperationResult a of (e, r) \<Rightarrow>
        if e = BOF_ERR_NO_ERROR then
          (if OpTicket_U32 r = ticket then Some (BOF_ERR_NO_ERROR, r, [])
           else case wait_result ticket as of
                  None \<Rightarrow> None | Some (e', r', lost) \<Rightarrow> Some (e', r', r # lost))
        else Some (e, r, []))"

text \<open>Program the operation, then wait: the status, the result when there is one, the results dropped.\<close>

definition program_and_wait ::
    "(api_in \<Rightarrow> u32 \<Rightarrow> 'p \<Rightarrow> 'a web_socket_scheme \<Rightarrow> boferr \<times> u32 \<times> 'a web_socket_scheme) \<Rightarrow>
     api_in \<Rightarrow> (boferr + operation_result) list \<Rightarrow> u32 \<Rightarrow> 'p \<Rightarrow> 'a web_socket_scheme \<Rightarrow>
     (boferr \<times> operation_result option \<times> operation_result list \<times> 'a web_socket_scheme) option" where
  "program_and_wait prog i as TimeOut p s =
     (case prog i TimeOut p s of
        (e, ticket, s') \<Rightarrow>
          if e = BOF_ERR_NO_ERROR then
            (case wait_result ticket as of
               None \<Rightarrow> None
             | Some (e', r, lost) \<Rightarrow>
                 Some (e', if e' = BOF_ERR_NO_ERROR then Some r else None, lost, s'))
          else Some (e, None, [], s'))"

text \<open>\<open>endpoint\<close> is the address and port bofstd reads in the endpoint text.\<close>

definition BofWebSocket_Connect ::
    "api_in \<Rightarrow> (boferr + operation_result) list \<Rightarrow> u32 \<Rightarrow> (string \<Rightarrow> u32 \<times> u16) \<Rightarrow> string \<Rightarrow> string \<Rightarrow>
     'a web_socket_scheme \<Rightarrow> (boferr \<times> operation_result list \<times> 'a web_socket_scheme) option" where
  "BofWebSocket_Connect i as TimeOut endpoint_of endpoint key s =
     (case endpoint_of endpoint of (ip, port) \<Rightarrow>
        let p = \<lparr>pWsCltKey_c = snprintf_buf 128 (c_str key), DstIpAddr_X = ip, DstPort_U16 = port\<rparr>
        in case program_and_wait Program_Connect i as TimeOut p s of
             None \<Rightarrow> None | Some (e, _, lost, s') \<Rightarrow> Some (e, lost, s'))"

text \<open>Status, number of bytes, results dropped.\<close>

definition BofWebSocket_Write ::
    "api_in \<Rightarrow> (boferr + operation_result) list \<Rightarrow> u32 \<Rightarrow> u32 \<Rightarrow> u64 \<Rightarrow>
     'a web_socket_scheme \<Rightarrow> (boferr \<times> u32 \<times> operation_result list \<times> 'a web_socket_scheme) option" where
  "BofWebSocket_Write i as TimeOut Nb pData s =
     (case program_and_wait Program_Write i as TimeOut \<lparr>Nb_U32 = Nb, io_pBuffer_U8 = pData\<rparr> s of
        None \<Rightarrow> None
      | Some (e, r, lost, s') \<Rightarrow> Some (e, (case r of Some x \<Rightarrow> Size_U32 x | None \<Rightarrow> 0), lost, s'))"

definition BofWebSocket_Read ::
    "api_in \<Rightarrow> (boferr + operation_result) list \<Rightarrow> u32 \<Rightarrow> u32 \<Rightarrow> u64 \<Rightarrow>
     'a web_socket_scheme \<Rightarrow> (boferr \<times> u32 \<times> operation_result list \<times> 'a web_socket_scheme) option" where
  "BofWebSocket_Read i as TimeOut Nb pData s =
     (case program_and_wait Program_Read i as TimeOut \<lparr>Nb_U32 = Nb, io_pBuffer_U8 = pData\<rparr> s of
        None \<Rightarrow> None
      | Some (e, r, lost, s') \<Rightarrow> Some (e, (case r of Some x \<Rightarrow> Size_U32 x | None \<Rightarrow> 0), lost, s'))"

definition BofWebSocket_Disconnect ::
    "api_in \<Rightarrow> (boferr + operation_result) list \<Rightarrow> u32 \<Rightarrow> 'a web_socket_scheme \<Rightarrow>
     (boferr \<times> operation_result list \<times> 'a web_socket_scheme) option" where
  "BofWebSocket_Disconnect i as TimeOut s =
     (case program_and_wait Program_Disconnect i as TimeOut \<lparr>di_Unused_U32 = 0\<rparr> s of
        None \<Rightarrow> None | Some (e, _, lost, s') \<Rightarrow> Some (e, lost, s'))"

section \<open>Run and Stop\<close>

text \<open>
  The wait of \<open>Run\<close> for a context: for each turn, whether the context is there and the elapsed time.
  \<open>None\<close>: the turns given do not end it.
\<close>

fun run_wait :: "(bool \<times> u32) list \<Rightarrow> unit option" where
  "run_wait [] = None"
| "run_wait ((context, elapsed) # r) = (if context \<or> 500 \<le> elapsed then Some () else run_wait r)"

definition BofWebSocket_Run ::
    "api_in \<Rightarrow> boferr \<Rightarrow> bool \<Rightarrow> (bool \<times> u32) list \<Rightarrow> (string \<Rightarrow> u32) \<Rightarrow> 'a web_socket_scheme \<Rightarrow>
     (boferr \<times> 'a web_socket_scheme) option" where
  "BofWebSocket_Run i launch_sts running turns to_binary s =
     (let s1 = bof_assert running (bof_assert (launch_sts = BOF_ERR_NO_ERROR) (emit EvThreadStart s))
      in case run_wait turns of
           None \<Rightarrow> None
         | Some _ \<Rightarrow>
             if launch_sts = BOF_ERR_NO_ERROR \<and> NbMaxClient_U32 (mWebSocketParam_X s1) \<noteq> 0 then
               (case ServerIp_X (mWebSocketParam_X s1) of (ip, port) \<Rightarrow>
                  case Program_Listen i 2000 \<lparr>SrcIpAddr_X = to_binary ip, SrcPort_U16 = port,
                         li_NbMaxClient_U32 = NbMaxClient_U32 (mWebSocketParam_X s1)\<rparr> s1 of
                    (e, _, s2) \<Rightarrow> Some (e, s2))
             else Some (launch_sts, s1))"

text \<open>Stopping programs an exit, destroys the thread whatever became of it, and drops the connection.\<close>

definition BofWebSocket_Stop :: "api_in \<Rightarrow> 'a web_socket_scheme \<Rightarrow> boferr \<times> 'a web_socket_scheme" where
  "BofWebSocket_Stop i s =
     (case Program_Exit i PUSH_POP_TIMEOUT \<lparr>ex_Unused_U32 = 0\<rparr> s of
        (e, _, s1) \<Rightarrow> (e, LWS_CLIENT_DISCONNECT (emit EvThreadStop s1)))"

text \<open>The destructor stops the engine.\<close>

definition BofWebSocket_destroy :: "api_in \<Rightarrow> 'a web_socket_scheme \<Rightarrow> 'a web_socket_scheme" where
  "BofWebSocket_destroy i s = snd (BofWebSocket_Stop i s)"

lemmas program_defs =
  Program_Exit_def Program_Listen_def Program_Connect_def Program_Read_def Program_Write_def Program_Disconnect_def

end
