(* ===== verification/WsProcess.thy ===== *)
theory WsProcess
  imports WsApi
begin

text \<open>
  The thread of the engine, \<^verbatim>\<open>BofWebSocket::V_OnProcessing\<close> (\<^verbatim>\<open>src/src/bofwebsocket.cpp\<close>): one turn
  of its loop is \<open>process_turn\<close>, made of the parts of the source in their order: serve libwebsockets and
  pop a command, start the command, look at the operation in progress, cancel, send the result.
\<close>

section \<open>The local variables and the input of a turn\<close>

record engine = web_socket +
  l_Rts_E :: boferr
  l_Result_X :: operation_result
  l_NewCommandRcv_B :: bool
  l_SendResult_B :: bool
  l_IoPending_B :: bool
  l_ListeningMode_B :: bool
  l_ListenTicketId_U32 :: u32

text \<open>\<open>junk\<close> is what the uninitialised \<^verbatim>\<open>ListenTicketId_U32\<close> holds.\<close>

definition start_processing :: "u32 \<Rightarrow> web_socket \<Rightarrow> engine" where
  "start_processing junk s = web_socket.extend s
     \<lparr>l_Rts_E = BOF_ERR_NO_ERROR, l_Result_X = new_result, l_NewCommandRcv_B = False, l_SendResult_B = False,
      l_IoPending_B = False, l_ListeningMode_B = False, l_ListenTicketId_U32 = junk\<rparr>"

text \<open>
  What the outside does during one turn: the callbacks libwebsockets makes while it is served, the
  command popped if there is one, the clock, the status of each call.
\<close>

record turn_in =
  ti_calls :: "lws_call list"
  ti_pop :: "operation_param option"
  ti_elapsed_cmd :: u32
  ti_now_cmd :: u32
  ti_context_ok :: bool
  ti_connect :: "nat option"             \<comment> \<open>\<^verbatim>\<open>lws_client_connect_via_info\<close>\<close>
  ti_user_bytes :: "byte list"           \<comment> \<open>what the user's buffer of a write holds\<close>
  ti_write_push :: boferr
  ti_on_writable :: int
  ti_now_listen :: u32
  ti_rx_pop :: "boferr \<times> u32"
  ti_elapsed_io :: u32
  ti_elapsed_send :: u32
  ti_result_push :: boferr
  ti_must_exit :: bool                   \<comment> \<open>\<^verbatim>\<open>IsThreadLoopMustExit\<close>\<close>

section \<open>Serve and pop\<close>

fun serve :: "lws_call list \<Rightarrow> 'a web_socket_scheme \<Rightarrow> 'a web_socket_scheme" where
  "serve [] s = s"
| "serve (cl # cls) s = serve cls (snd (snd (LwsCallback cl s)))"

definition pop_command :: "turn_in \<Rightarrow> engine \<Rightarrow> engine" where
  "pop_command i s =
     (let s1 = (if mpLwsContext_X s then serve (ti_calls i) s
                else s\<lparr>mCurrentOp_X := OPERATION_PARAM_Reset (mCurrentOp_X s)\<rparr>)
      in case ti_pop i of
           None \<Rightarrow> s1\<lparr>l_NewCommandRcv_B := False\<rparr>
         | Some op \<Rightarrow> s1\<lparr>mCurrentOp_X := op, l_NewCommandRcv_B := True\<rparr>)"

section \<open>Start a command\<close>

definition set_status :: "boferr \<Rightarrow> engine \<Rightarrow> engine" where
  "set_status e s = s\<lparr>l_Result_X := (l_Result_X s)\<lparr>Sts_E := e\<rparr>\<rparr>"

definition is_server :: "'a web_socket_scheme \<Rightarrow> bool" where
  "is_server s \<longleftrightarrow> NbMaxClient_U32 (mWebSocketParam_X s) \<noteq> 0"

definition start_listen :: "turn_in \<Rightarrow> engine \<Rightarrow> engine" where
  "start_listen i s =
     (if \<not> is_server s then set_status BOF_ERR_WRONG_MODE s
      else if \<not> l_ListeningMode_B s \<and> \<not> mpLwsContext_X s then
        (let s1 = emit (EvCreateContext True)
               (s\<lparr>mWebSocketState_X := (mWebSocketState_X s)\<lparr>ConnectDone_B := False\<rparr>, mpLwsContext_X := ti_context_ok i\<rparr>)
         in if \<not> ti_context_ok i then set_status BOF_ERR_INIT (LWS_CLIENT_DISCONNECT s1)
            else (set_status BOF_ERR_NO_ERROR s1)
                   \<lparr>mCurrentOp_X := (mCurrentOp_X s1)\<lparr>TimeOut_U32 := PUSH_POP_TIMEOUT\<rparr>,
                    l_ListenTicketId_U32 := Ticket_U32 (mCurrentOp_X s1), l_ListeningMode_B := True\<rparr>)
      else set_status BOF_ERR_INVALID_STATE s)"

text \<open>The path asked for: \<^verbatim>\<open>/?bof_ws_clt_key=\<close> and the key.\<close>

definition connect_path :: "string \<Rightarrow> string" where
  "connect_path key = snprintf_buf 0x200 (''/?bof_ws_clt_key='' @ key)"

definition start_connect :: "turn_in \<Rightarrow> engine \<Rightarrow> engine" where
  "start_connect i s =
     (if is_server s then set_status BOF_ERR_WRONG_MODE s
      else
        (let p = connect_of (mCurrentOp_X s); key = c_str (pWsCltKey_c p)
         in if \<not> ConnectDone_B (mWebSocketState_X s) \<and> \<not> mpLwsContext_X s \<and> key \<noteq> [] \<and> length key < 128 then
              (let s1 = emit (EvCreateContext False) (s\<lparr>mpLwsContext_X := ti_context_ok i\<rparr>)
               in if \<not> ti_context_ok i then set_status BOF_ERR_INIT (LWS_CLIENT_DISCONNECT s1)
                  else
                    (let s2 = emit (EvConnect (DstIpAddr_X p) (DstPort_U16 p) (connect_path key)) s1;
                         s3 = s2\<lparr>mWebSocketState_X := (mWebSocketState_X s2)\<lparr>pWebSocket_X := ti_connect i\<rparr>\<rparr>
                     in set_status (if ti_connect i \<noteq> None then BOF_ERR_NO_ERROR else BOF_ERR_ENOTCONN) s3))
            else set_status BOF_ERR_INVALID_STATE s))"

definition start_disconnect :: "engine \<Rightarrow> engine" where
  "start_disconnect s =
     (if is_server s then set_status BOF_ERR_WRONG_MODE s
      else if ConnectDone_B (mWebSocketState_X s) \<or> mpLwsContext_X s
      then set_status BOF_ERR_NO_ERROR (LWS_CLIENT_DISCONNECT s)
      else set_status BOF_ERR_INVALID_STATE s)"

definition start_exit :: "engine \<Rightarrow> engine" where
  "start_exit s = (set_status BOF_ERR_CANCEL s)\<lparr>l_Rts_E := BOF_ERR_CANCEL\<rparr>"

text \<open>The test reads and writes share: a client must be connected, a server must have a socket.\<close>

definition io_ready :: "'a web_socket_scheme \<Rightarrow> bool" where
  "io_ready s \<longleftrightarrow> (is_server s \<or> ConnectDone_B (mWebSocketState_X s)) \<and> pWebSocket_X (mWebSocketState_X s) \<noteq> None"

definition start_read :: "engine \<Rightarrow> engine" where
  "start_read s =
     (if io_ready s then
        (if io_pBuffer_U8 (read_of (mCurrentOp_X s)) \<noteq> 0 \<and> Nb_U32 (read_of (mCurrentOp_X s)) \<noteq> 0
         then set_status BOF_ERR_NO_ERROR s else set_status BOF_ERR_EINVAL s)
      else set_status BOF_ERR_ENOTCONN s)"

definition start_write :: "turn_in \<Rightarrow> engine \<Rightarrow> engine" where
  "start_write i s =
     (if io_ready s then
        (let p = write_of (mCurrentOp_X s)
         in if io_pBuffer_U8 p \<noteq> 0 \<and> Nb_U32 p \<noteq> 0 then
              (let w = \<lparr>wo_TimeOut_U32 = TimeOut_U32 (mCurrentOp_X s), wo_Timer_U32 = Timer_U32 (mCurrentOp_X s),
                        wo_payload = take (unat (Nb_U32 p)) (ti_user_bytes i), wo_pos = 0,
                        wo_Result_X = (l_Result_X s)\<lparr>Sts_E := BOF_ERR_NO_ERROR\<rparr>\<rparr>;
                   s1 = emit (EvWritePush w (ti_write_push i)) s
               in if ti_write_push i \<noteq> BOF_ERR_NO_ERROR then set_status (ti_write_push i) s1
                  else
                    (let s2 = emit (EvOnWritable (pWebSocket_X (mWebSocketState_X s1))) s1
                     in set_status (if 0 < ti_on_writable i then BOF_ERR_NO_ERROR else BOF_ERR_OPERATION_FAILED) s2))
            else set_status BOF_ERR_EINVAL s)
      else set_status BOF_ERR_ENOTCONN s)"

definition start_operation :: "turn_in \<Rightarrow> engine \<Rightarrow> engine" where
  "start_operation i s =
     (case Operation_E (mCurrentOp_X s) of
        OPERATION_LISTEN \<Rightarrow> start_listen i s
      | OPERATION_CONNECT \<Rightarrow> start_connect i s
      | OPERATION_DISCONNECT \<Rightarrow> start_disconnect s
      | OPERATION_EXIT \<Rightarrow> start_exit s
      | OPERATION_READ \<Rightarrow> start_read s
      | OPERATION_WRITE \<Rightarrow> start_write i s
      | OPERATION_MAX \<Rightarrow> set_status BOF_ERR_INVALID_COMMAND s)"

text \<open>
  A popped command is started only when no operation is pending, or in listening mode.  Otherwise it
  has already replaced the current operation, and that is all that happens to it.
\<close>

definition start_command :: "turn_in \<Rightarrow> engine \<Rightarrow> engine" where
  "start_command i s =
     (if (\<not> l_IoPending_B s \<or> l_ListeningMode_B s) \<and> l_NewCommandRcv_B s then
        (let op = mCurrentOp_X s;
             s1 = s\<lparr>l_Result_X := (OPERATION_RESULT_Reset (l_Result_X s))
                      \<lparr>Sts_E := BOF_ERR_NO_ERROR, res_Operation_E := Operation_E op, OpTicket_U32 := Ticket_U32 op,
                       Time_U32 := ti_elapsed_cmd i\<rparr>,
                    mCurrentOp_X := op\<lparr>Timer_U32 := ti_now_cmd i\<rparr>,
                    mOperationPending_B := True, l_SendResult_B := True\<rparr>;
             s2 = start_operation i s1
         in if Sts_E (l_Result_X s2) = BOF_ERR_NO_ERROR then s2\<lparr>l_IoPending_B := True\<rparr> else s2)
      else s)"

section \<open>The operation in progress\<close>

definition pending_switch :: "turn_in \<Rightarrow> engine \<Rightarrow> engine" where
  "pending_switch i s =
     (case Operation_E (mCurrentOp_X s) of
        OPERATION_LISTEN \<Rightarrow>
          (if ConnectDone_B (mWebSocketState_X s) then
             s\<lparr>mWebSocketState_X := (mWebSocketState_X s)\<lparr>ConnectDone_B := False\<rparr>,
               mCurrentOp_X := (mCurrentOp_X s)\<lparr>Timer_U32 := ti_now_listen i\<rparr>,
               l_Result_X := (l_Result_X s)\<lparr>res_Operation_E := OPERATION_CONNECT,
                 OpTicket_U32 := l_ListenTicketId_U32 s, Sts_E := BOF_ERR_NO_ERROR\<rparr>,
               l_SendResult_B := True, l_IoPending_B := True\<rparr>
           else s)
      | OPERATION_CONNECT \<Rightarrow>
          (if ConnectDone_B (mWebSocketState_X s)
           then (set_status BOF_ERR_NO_ERROR s)\<lparr>l_SendResult_B := True, l_IoPending_B := False\<rparr>
           else s)
      | OPERATION_DISCONNECT \<Rightarrow> s\<lparr>l_SendResult_B := True, l_IoPending_B := False\<rparr>
      | OPERATION_READ \<Rightarrow>
          (let p = read_of (mCurrentOp_X s); (e, n) = ti_rx_pop i;
               s1 = emit (EvRxPop (Nb_U32 p) (io_pBuffer_U8 p) e n) s
           in if e = BOF_ERR_NO_ERROR then
                s1\<lparr>l_Result_X := (l_Result_X s1)\<lparr>Sts_E := e, Size_U32 := n, res_pBuffer_U8 := UserBuffer (io_pBuffer_U8 p)\<rparr>,
                   l_SendResult_B := True, l_IoPending_B := False\<rparr>
              else set_status BOF_ERR_PENDING s1)
      | OPERATION_WRITE \<Rightarrow> (set_status BOF_ERR_NO_ERROR s)\<lparr>l_SendResult_B := False, l_IoPending_B := False\<rparr>
      | _ \<Rightarrow> (set_status BOF_ERR_BAD_ID s)\<lparr>l_IoPending_B := False\<rparr>)"

definition pending_timeout :: "turn_in \<Rightarrow> engine \<Rightarrow> engine" where
  "pending_timeout i s =
     (let s1 = s\<lparr>l_Result_X := (l_Result_X s)\<lparr>Time_U32 := ti_elapsed_io i\<rparr>\<rparr>
      in if \<not> l_ListeningMode_B s1 \<and> Operation_E (mCurrentOp_X s1) \<noteq> OPERATION_WRITE \<and>
            TimeOut_U32 (mCurrentOp_X s1) < ti_elapsed_io i then
           (let s2 = (if Operation_E (mCurrentOp_X s1) = OPERATION_CONNECT then LWS_CLIENT_DISCONNECT s1 else s1)
            in (set_status BOF_ERR_ETIMEDOUT s2)\<lparr>l_SendResult_B := True, l_IoPending_B := False\<rparr>)
         else s1)"

definition check_pending :: "turn_in \<Rightarrow> engine \<Rightarrow> engine" where
  "check_pending i s =
     (if l_IoPending_B s then pending_timeout i (pending_switch i (s\<lparr>l_SendResult_B := False\<rparr>)) else s)"

section \<open>Cancel and send\<close>

definition do_cancel :: "engine \<Rightarrow> engine" where
  "do_cancel s =
     (if mCancel_B s then
        (let s1 = emit EvRxReset (emit EvWriteReset (emit EvResultReset (emit EvCmdReset (s\<lparr>mCancel_B := False\<rparr>))))
         in emit EvCancelSignal
              (s1\<lparr>mCurrentOp_X := OPERATION_PARAM_Reset (mCurrentOp_X s1),
                  mWebSocketState_X := SESSION_Reset (mWebSocketState_X s1), mOperationPending_B := False,
                  mNbRxByServer_U64 := 0, mNbTxByServer_U64 := 0, mNbRxByClient_U64 := 0, mNbTxByClient_U64 := 0,
                  l_NewCommandRcv_B := False, l_SendResult_B := False, l_IoPending_B := False\<rparr>))
      else s)"

text \<open>\<open>OnOperation\<close> is told the status of the push, not that of the operation.\<close>

definition send_result :: "turn_in \<Rightarrow> engine \<Rightarrow> engine" where
  "send_result i s =
     (if l_SendResult_B s then
        (let s1 = s\<lparr>l_SendResult_B := False, l_Result_X := (l_Result_X s)\<lparr>Time_U32 := ti_elapsed_send i\<rparr>\<rparr>;
             s2 = emit (EvResultPush (l_Result_X s1) (ti_result_push i)) s1
         in if OnOperation (mWebSocketParam_X s2) then
              emit (EvOnOperation (Operation_E (mCurrentOp_X s2)) (Ticket_U32 (mCurrentOp_X s2))
                      (Size_U32 (l_Result_X s2)) (res_pBuffer_U8 (l_Result_X s2)) (ti_result_push i)) s2
            else s2)
      else s)"

section \<open>The loop\<close>

definition process_turn :: "turn_in \<Rightarrow> engine \<Rightarrow> engine" where
  "process_turn i s = send_result i (do_cancel (check_pending i (start_command i (pop_command i s))))"

definition loop_goes_on :: "turn_in \<Rightarrow> engine \<Rightarrow> bool" where
  "loop_goes_on i s \<longleftrightarrow> \<not> ti_must_exit i \<and> l_Rts_E s = BOF_ERR_NO_ERROR"

text \<open>
  The thread over the inputs of its turns: what it returns when its loop ends, with the members after
  the final disconnection; \<open>None\<close> when the inputs are used up before.
\<close>

fun V_OnProcessing :: "turn_in list \<Rightarrow> engine \<Rightarrow> (boferr \<times> engine) option" where
  "V_OnProcessing [] s = None"
| "V_OnProcessing (i # is) s =
     (let s' = process_turn i s
      in if loop_goes_on i s' then V_OnProcessing is s'
         else Some (l_Rts_E s', LWS_CLIENT_DISCONNECT s'))"

end
