(* ===== verification/WsTables.thy ===== *)
theory WsTables
  imports WsProcess
begin

text \<open>
  What the engine hands to libwebsockets when it creates a context (\<^verbatim>\<open>src/src/bofwebsocket.cpp\<close>): the
  mount point, the tables of protocols and the structures LISTEN and CONNECT fill, and the macro an
  application prints its reply with (\<^verbatim>\<open>src/include/bofwebrpc/bofwebsocket.h\<close>).  A null pointer is \<open>None\<close>;
  the constants of libwebsockets and the sizes of C structures are arguments.
\<close>

section \<open>The static tables\<close>

text \<open>\<^verbatim>\<open>struct lws_http_mount\<close>: the members that the source does not leave null or zero.\<close>

record 'm http_mount =
  mountpoint :: string
  mount_origin :: string
  mount_def :: string
  origin_protocol :: 'm
  mountpoint_len :: u8

definition S_MountPoint_X :: "'m \<Rightarrow> 'm http_mount" where
  "S_MountPoint_X LWSMPRO_FILE =
     \<lparr>mountpoint = ''/'', mount_origin = ''./'', mount_def = ''index.html'',
      origin_protocol = LWSMPRO_FILE, mountpoint_len = 1\<rparr>"

text \<open>\<^verbatim>\<open>struct lws_protocols\<close>; \<open>'o\<close> is what the user pointer points to.\<close>

datatype lws_callback = Lws_Callback_Http

record 'o lws_protocol =
  pr_name :: "string option"
  pr_callback :: "lws_callback option"
  per_session_data_size :: u64
  rx_buffer_size :: u64
  pr_id :: u32
  pr_user :: "'o option"
  tx_packet_size :: u64

definition protocol_entry :: "string option \<Rightarrow> lws_callback option \<Rightarrow> 'o lws_protocol" where
  "protocol_entry name cb =
     \<lparr>pr_name = name, pr_callback = cb, per_session_data_size = 0, rx_buffer_size = 0, pr_id = 0,
      pr_user = None, tx_packet_size = 0\<rparr>"

definition S_pLwsServerProtocol_X :: "'o lws_protocol list" where
  "S_pLwsServerProtocol_X =
     [protocol_entry (Some ''http'') (Some Lws_Callback_Http),
      protocol_entry (Some ''webrpc'') (Some Lws_Callback_Http),
      protocol_entry None None]"

definition S_pLwsClientProtocol_X :: "'o lws_protocol list" where
  "S_pLwsClientProtocol_X =
     [protocol_entry (Some ''webrpc'') (Some Lws_Callback_Http), protocol_entry None None]"

section \<open>Filling them\<close>

text \<open>The loop over every element of the array, the end of list included.\<close>

definition fill_protocols :: "u64 \<Rightarrow> 'o \<Rightarrow> 'o lws_protocol list \<Rightarrow> 'o lws_protocol list" where
  "fill_protocols session_size this ps =
     map (\<lambda>p. p\<lparr>per_session_data_size := session_size, pr_user := Some this\<rparr>) ps"

text \<open>\<^verbatim>\<open>LwsCreationInfo_X\<close>, zero but for what is assigned.\<close>

record ('o, 'm) creation_info =
  ci_iface :: "string option"
  ci_port :: int
  ci_protocols :: "'o lws_protocol list"
  ci_mounts :: "'m http_mount option"
  ci_gid :: int
  ci_uid :: int
  ci_user :: "'o option"

definition listen_creation_info ::
  "'m \<Rightarrow> u64 \<Rightarrow> (string \<times> u16 \<Rightarrow> string) \<Rightarrow> 'o \<Rightarrow> web_socket_param \<Rightarrow> ('o, 'm) creation_info" where
  "listen_creation_info LWSMPRO_FILE session_size ip_text this p =
     \<lparr>ci_iface = Some (ip_text (ServerIp_X p)), ci_port = int (unat (snd (ServerIp_X p))),
      ci_protocols = fill_protocols session_size this S_pLwsServerProtocol_X,
      ci_mounts = Some (S_MountPoint_X LWSMPRO_FILE), ci_gid = 0, ci_uid = 0, ci_user = Some this\<rparr>"

definition connect_creation_info :: "int \<Rightarrow> u64 \<Rightarrow> 'o \<Rightarrow> ('o, 'm) creation_info" where
  "connect_creation_info CONTEXT_PORT_NO_LISTEN session_size this =
     \<lparr>ci_iface = None, ci_port = CONTEXT_PORT_NO_LISTEN,
      ci_protocols = fill_protocols session_size this S_pLwsClientProtocol_X,
      ci_mounts = None, ci_gid = - 1, ci_uid = - 1, ci_user = Some this\<rparr>"

text \<open>\<^verbatim>\<open>ClientConnectInfo_X\<close>; \<open>ip_text\<close> and \<open>full_text\<close> print an address without and with its port.\<close>

record connect_info =
  cc_address :: string
  cc_port :: u16
  cc_path :: string
  cc_host :: string
  cc_origin :: string
  cc_protocol :: "string option"

definition client_connect_info ::
  "(u32 \<Rightarrow> string) \<Rightarrow> (u32 \<Rightarrow> u16 \<Rightarrow> string) \<Rightarrow> string \<Rightarrow> connect_param \<Rightarrow> connect_info" where
  "client_connect_info ip_text full_text canonical_hostname p =
     \<lparr>cc_address = ip_text (DstIpAddr_X p), cc_port = DstPort_U16 p,
      cc_path = connect_path (c_str (pWsCltKey_c p)), cc_host = canonical_hostname,
      cc_origin = full_text (DstIpAddr_X p) (DstPort_U16 p),
      cc_protocol = pr_name (S_pLwsClientProtocol_X ! 0 :: unit lws_protocol)\<rparr>"

section \<open>What libwebsockets reads in them\<close>

text \<open>libwebsockets reads a table of protocols up to the first entry without a name.\<close>

definition offered :: "'o lws_protocol list \<Rightarrow> 'o lws_protocol list" where
  "offered ps = takeWhile (\<lambda>p. pr_name p \<noteq> None) ps"

lemmas table_defs = S_pLwsServerProtocol_X_def S_pLwsClientProtocol_X_def protocol_entry_def fill_protocols_def
  listen_creation_info_def connect_creation_info_def client_connect_info_def

lemma offered_fill: "offered (fill_protocols n t ps) = fill_protocols n t (offered ps)"
  by (simp add: offered_def fill_protocols_def takeWhile_map comp_def)

text \<open>Both tables keep their end after the loop has written to it, so nothing behind the array is read.\<close>

lemma tables_end:
  "\<exists>p\<in>set (ci_protocols (listen_creation_info mp n txt this prm)). pr_name p = None"
  "\<exists>p\<in>set (ci_protocols (connect_creation_info port n this)). pr_name p = None"
  by (simp_all add: table_defs)

text \<open>The HTTP handler is the first protocol of a server, as libwebsockets wants it.\<close>

lemma http_is_first:
  "map pr_name (offered (ci_protocols (listen_creation_info mp n txt this prm))) = [Some ''http'', Some ''webrpc'']"
  by (simp add: table_defs offered_def)

text \<open>The length of the mount point that is written beside it is its length.\<close>

lemma mountpoint_length: "unat (mountpoint_len (S_MountPoint_X mp)) = length (mountpoint (S_MountPoint_X mp))"
  by (simp add: S_MountPoint_X_def)

text \<open>
  A client asks for exactly one protocol, the only one it has itself, and every server offers it; each
  protocol either side offers leads to \<open>S_Lws_Callback_Http\<close> with the engine that created the context, and its
  sessions have the size the callback casts them to.
\<close>

theorem client_asks_for_an_offered_protocol:
  fixes prm :: web_socket_param and p :: connect_param
  assumes srv: "srv = offered (ci_protocols (listen_creation_info mp n txt this prm))"
    and clt: "clt = offered (ci_protocols (connect_creation_info port n' this'))"
  shows "map pr_name clt = [cc_protocol (client_connect_info ipt fullt host p)]"
    and "cc_protocol (client_connect_info ipt fullt host p) \<in> pr_name ` set srv"
    and "\<forall>q\<in>set srv. pr_callback q = Some Lws_Callback_Http \<and> pr_user q = Some this \<and> per_session_data_size q = n"
    and "\<forall>q\<in>set clt. pr_callback q = Some Lws_Callback_Http \<and> pr_user q = Some this' \<and> per_session_data_size q = n'"
  by (simp_all add: srv clt table_defs offered_def)

text \<open>
  What CONNECT gives libwebsockets is the event the model records: the address as a number, the port and
  the path are those of \<open>EvConnect\<close>.
\<close>

lemma connect_event_is_connect_info:
  assumes "\<not> is_server s" "\<not> ConnectDone_B (mWebSocketState_X s)" "\<not> mpLwsContext_X s" "ti_context_ok i"
    and "c_str (pWsCltKey_c (connect_of (mCurrentOp_X s))) \<noteq> []"
    and "length (c_str (pWsCltKey_c (connect_of (mCurrentOp_X s)))) < 128"
  shows "\<exists>a. EvConnect a (cc_port (client_connect_info ipt fullt host (connect_of (mCurrentOp_X s))))
             (cc_path (client_connect_info ipt fullt host (connect_of (mCurrentOp_X s)))) \<in> set (ws_trace (start_connect i s)) \<and>
           cc_address (client_connect_info ipt fullt host (connect_of (mCurrentOp_X s))) = ipt a"
  using assms
  by (auto simp: start_connect_def client_connect_info_def Let_def emit_def set_status_def)

section \<open>The reply of the application\<close>

text \<open>
  \<^verbatim>\<open>BOF_LWS_SPRINT_BUFFER\<close> for the full text \<open>s\<close>: what is left in the \<open>remain\<close> characters at the position of
  the buffer, before the closing zero, and the new \<^verbatim>\<open>Size_U64\<close>.  The \<^verbatim>\<open>int\<close> that \<^verbatim>\<open>snprintf\<close> returns is the
  length of the full text.
\<close>

definition LWS_SPRINT_BUFFER :: "nat \<Rightarrow> string \<Rightarrow> u64 \<Rightarrow> string \<times> u64" where
  "LWS_SPRINT_BUFFER remain s Size_U64 =
     (let len = (word_of_nat (length s) :: 32 word)
      in (snprintf_buf remain s, Size_U64 + scast len))"

text \<open>The length that is given to \<^verbatim>\<open>lws_write\<close> when a callback of the application has left a reply.\<close>

definition reply_length :: "u64 \<Rightarrow> u64 \<Rightarrow> u64" where
  "reply_length LWS_PRE Size_U64 = Size_U64 - LWS_PRE"

lemma sprint_len:
  assumes "length s < 2 ^ 31"
  shows "(scast (word_of_nat (length s) :: 32 word) :: u64) = word_of_nat (length s)"
  using assms by (simp add: scast_eq sint_uint signed_take_bit_int_eq_self unsigned_of_nat take_bit_nat_eq_self)

text \<open>
  A reply printed into an empty buffer is sent whole exactly when it fits with its closing zero; a longer
  one is cut by \<^verbatim>\<open>snprintf\<close>, but its full length is sent, so what lies behind the text goes out with it.
\<close>

theorem printed_reply_length:
  assumes "0 < remain" "length s < 2 ^ 31"
  shows "unat (reply_length pre (snd (LWS_SPRINT_BUFFER remain s pre))) = length s"
    and "length (fst (LWS_SPRINT_BUFFER remain s pre)) = min (length s) (remain - 1)"
    and "length s < remain \<longleftrightarrow>
           unat (reply_length pre (snd (LWS_SPRINT_BUFFER remain s pre))) = length (fst (LWS_SPRINT_BUFFER remain s pre))"
  using assms by (auto simp: LWS_SPRINT_BUFFER_def reply_length_def Let_def sprint_len snprintf_buf_def
      unsigned_of_nat take_bit_nat_eq_self min_def)

text \<open>A reply buffer whose size is set but below \<^verbatim>\<open>LWS_PRE\<close> makes the length wrap.\<close>

lemma short_reply_wraps:
  assumes "0 < Size_U64" "Size_U64 < pre"
  shows "unat (reply_length pre Size_U64) = 2 ^ 64 - (unat pre - unat Size_U64)"
proof -
  have "unat pre < 2 ^ LENGTH(64)" by (rule unsigned_less)
  moreover have "unat Size_U64 < unat pre" using assms by (simp add: word_less_nat_alt)
  ultimately show ?thesis
    by (simp add: reply_length_def unat_sub_if_size word_size)
qed

end
