(* ===== verification/WsEngine.thy ===== *)
theory WsEngine
  imports WsProcess
begin

text \<open>
  The engine as a transition system: turns of its thread interleaved with calls of the application.
  What a pop or a peek gives was pushed before; nothing else is assumed of the outside.  The first part
  has the frame lemmas of the callback and of the parts of a turn, the second the step relation and its
  invariants, the last the properties.
\<close>

section \<open>Frames\<close>

text \<open>The local variables of the thread that survive a turn.\<close>

definition locals :: "engine \<Rightarrow> boferr \<times> operation_result \<times> bool \<times> bool \<times> bool \<times> u32" where
  "locals s = (l_Rts_E s, l_Result_X s, l_SendResult_B s, l_IoPending_B s, l_ListeningMode_B s, l_ListenTicketId_U32 s)"

text \<open>\<open>extends P s s'\<close>: the trace of \<open>s'\<close> is that of \<open>s\<close> with events of which \<open>P\<close> holds after it.\<close>

definition extends :: "(ws_event \<Rightarrow> bool) \<Rightarrow> 'a web_socket_scheme \<Rightarrow> 'a web_socket_scheme \<Rightarrow> bool" where
  "extends P s s' \<longleftrightarrow> (\<exists>es. ws_trace s' = ws_trace s @ es \<and> (\<forall>e \<in> set es. P e))"

lemma extends_refl [simp, intro]: "ws_trace s' = ws_trace s \<Longrightarrow> extends P s s'"
  by (simp add: extends_def)

lemma extends_trans: "extends P s t \<Longrightarrow> extends P t u \<Longrightarrow> extends P s u"
  unfolding extends_def by (metis (no_types, opaque_lifting) Un_iff append.assoc set_append)

lemma extends_emit [intro]: "P e \<Longrightarrow> extends P s t \<Longrightarrow> extends P s (emit e t)"
  by (auto simp: extends_def)

lemma extends_same: "extends P s t \<Longrightarrow> ws_trace u = ws_trace t \<Longrightarrow> extends P s u"
  by (simp add: extends_def)

lemma extends_mono: "extends P s t \<Longrightarrow> (\<And>e. P e \<Longrightarrow> Q e) \<Longrightarrow> extends Q s t"
  by (auto simp: extends_def)

lemma extends_subset: "extends P s t \<Longrightarrow> set (ws_trace s) \<subseteq> set (ws_trace t)"
  by (auto simp: extends_def)

lemma extends_cases: "extends P s t \<Longrightarrow> e \<in> set (ws_trace t) \<Longrightarrow> e \<in> set (ws_trace s) \<or> P e"
  by (auto simp: extends_def)

text \<open>The events by which operations and results travel.\<close>

fun is_push :: "ws_event \<Rightarrow> bool" where
  "is_push (EvCmdPush _ _) = True"
| "is_push (EvWritePush _ _) = True"
| "is_push (EvResultPush _ _) = True"
| "is_push _ = False"

text \<open>The events that belong to one of the two roles, server or client.\<close>

fun is_role :: "ws_event \<Rightarrow> bool" where
  "is_role (EvCreateContext _) = True"
| "is_role (EvConnect _ _ _) = True"
| "is_role _ = False"

text \<open>Everything else.\<close>

definition plain :: "ws_event \<Rightarrow> bool" where
  "plain e \<longleftrightarrow> \<not> is_push e \<and> \<not> is_role e"

text \<open>What one callback may push: the result of the write it peeked.\<close>

definition callback_event :: "lws_call \<Rightarrow> ws_event \<Rightarrow> bool" where
  "callback_event cl e \<longleftrightarrow> \<not> is_role e \<and> (is_push e \<longrightarrow>
     (\<exists>r sts w. e = EvResultPush r sts \<and> lc_peek cl = Some w \<and> OpTicket_U32 r = OpTicket_U32 (wo_Result_X w) \<and>
       write_result (res_pBuffer_U8 r)))"

lemma callback_event_simple [simp]: "\<not> is_push e \<Longrightarrow> \<not> is_role e \<Longrightarrow> callback_event cl e"
  by (simp add: callback_event_def)

lemma extends_bof_assert [intro]: "extends (callback_event cl) s t \<Longrightarrow> extends (callback_event cl) s (bof_assert b t)"
  by (auto simp: bof_assert_def)

lemma locals_emit [simp]: "locals (emit e s) = locals s"
  by (simp add: locals_def emit_def)

lemma locals_base [simp]:
  "locals (s\<lparr>mWebSocketState_X := a\<rparr>) = locals s" "locals (s\<lparr>mClientCollection := b\<rparr>) = locals s"
  "locals (s\<lparr>mNbRxByServer_U64 := c\<rparr>) = locals s" "locals (s\<lparr>mNbTxByServer_U64 := c\<rparr>) = locals s"
  "locals (s\<lparr>mNbRxByClient_U64 := c\<rparr>) = locals s" "locals (s\<lparr>mNbTxByClient_U64 := c\<rparr>) = locals s"
  "locals (s\<lparr>mpLwsContext_X := d\<rparr>) = locals s" "locals (s\<lparr>mCurrentOp_X := p\<rparr>) = locals s"
  "locals (s\<lparr>mTicket_U32 := t\<rparr>) = locals s" "locals (s\<lparr>mOperationPending_B := d\<rparr>) = locals s"
  "locals (s\<lparr>mCancel_B := d\<rparr>) = locals s" "locals (s\<lparr>l_NewCommandRcv_B := d\<rparr>) = locals s"
  by (simp_all add: locals_def)

lemma extends_LWS_CLIENT_DISCONNECT [intro]:
  "extends (callback_event cl) s t \<Longrightarrow> extends (callback_event cl) s (LWS_CLIENT_DISCONNECT t)"
  by (auto simp: extends_def)

section \<open>What the callback leaves alone\<close>

text \<open>
  A view of the engine that the assignments of the callback do not change is not changed by the callback.
  The views interpreted below are the local variables of the thread, and the members only the thread and
  the application write.
\<close>

locale untouched =
  fixes f :: "'a web_socket_scheme \<Rightarrow> 'b"
  assumes f_emit [simp]: "f (emit e s) = f s"
    and f_state [simp]: "f (s\<lparr>mWebSocketState_X := a\<rparr>) = f s"
    and f_clients [simp]: "f (s\<lparr>mClientCollection := m\<rparr>) = f s"
    and f_context [simp]: "f (s\<lparr>mpLwsContext_X := d\<rparr>) = f s"
    and f_rx_server [simp]: "f (s\<lparr>mNbRxByServer_U64 := c\<rparr>) = f s"
    and f_tx_server [simp]: "f (s\<lparr>mNbTxByServer_U64 := c\<rparr>) = f s"
    and f_rx_client [simp]: "f (s\<lparr>mNbRxByClient_U64 := c\<rparr>) = f s"
    and f_tx_client [simp]: "f (s\<lparr>mNbTxByClient_U64 := c\<rparr>) = f s"
begin

lemma f_bof_assert [simp]: "f (bof_assert b s) = f s"
  by (simp add: bof_assert_def)

lemma f_LWS_CLIENT_DISCONNECT [simp]: "f (LWS_CLIENT_DISCONNECT s) = f s"
  by (simp add: LWS_CLIENT_DISCONNECT_def Let_def)

lemma f_AddClient [simp]: "f (snd (snd (AddClient k d s))) = f s"
  by (simp add: AddClient_def Let_def split: option.split)

lemma f_RemoveClient [simp]: "f (snd (snd (RemoveClient d s))) = f s"
  by (simp add: RemoveClient_def split: option.split prod.split)

lemma f_SetSocketBufferSize [simp]: "f (snd (SetSocketBufferSize fd sz sts a b s)) = f s"
  by (simp add: SetSocketBufferSize_def split: prod.split)

lemma f_call_OnOpen [simp]: "f (call_OnOpen s) = f s"
  by (simp add: call_OnOpen_def)

lemma f_read_close_info [simp]: "f (read_close_info cl s) = f s"
  by (simp add: read_close_info_def split: prod.split)

lemma f_call_OnClose [simp]: "f (call_OnClose s) = f s"
  by (simp add: call_OnClose_def)

lemma f_cb_established [simp]: "f (snd (snd (cb_established wsi cl s))) = f s"
proof (cases "SetSocketBufferSize (lc_socket_fd cl) (lc_socket_sizes cl) (lc_socket_sts cl)
    (SocketRcvBufferSize_U32 (mWebSocketParam_X s)) (SocketSndBufferSize_U32 (mWebSocketParam_X s)) s")
  case (Pair e s1)
  then have s1: "f s1 = f s" by (metis f_SetSocketBufferSize snd_conv)
  show ?thesis
  proof (cases "lc_session cl")
    case None
    then show ?thesis using Pair s1 by (simp add: cb_established_def Let_def split: option.split)
  next
    case (Some d)
    let ?s3 = "(case pWebSocket_X (mWebSocketState_X s1) of None \<Rightarrow> s1 | Some w \<Rightarrow> bof_assert (w = wsi) s1)"
    have "f (snd (snd (AddClient k d' (?s3\<lparr>mWebSocketState_X := x\<rparr>)))) = f s" for k d' x
      using s1 by (simp split: option.split)
    then show ?thesis using Pair s1 Some
      by (cases "pWebSocket_X (mWebSocketState_X s1)") (simp_all add: cb_established_def Let_def split_def)
  qed
qed

lemma f_cb_writeable [simp]: "f (cb_writeable srv wsi cl s) = f s"
  by (simp add: cb_writeable_def finish_write_def Let_def split: option.split)

lemma f_cb_receive [simp]: "f (cb_receive srv cl s) = f s"
  by (simp add: cb_receive_def Let_def)

lemma f_cb_first [simp]: "f (snd (snd (cb_first wsi cl s))) = f s"
proof -
  have a: "f (snd (cb_add_headers wsi cl s)) = f s"
    by (simp add: cb_add_headers_def Let_def)
  have c: "f (snd (cb_client_established wsi cl s)) = f s"
    using f_SetSocketBufferSize [of "lc_socket_fd cl" "lc_socket_sizes cl" "lc_socket_sts cl"
        "SocketRcvBufferSize_U32 (mWebSocketParam_X s)" "SocketSndBufferSize_U32 (mWebSocketParam_X s)" s]
    by (simp add: cb_client_established_def Let_def split_def)
  show ?thesis using a c by (simp add: cb_first_def split_def split: lws_reason.split)
qed

lemma f_cb_events [simp]: "f (cb_events wsi cl s) = f s"
proof -
  have "f (send_reply wsi cl t) = f t" for t by (simp add: send_reply_def split: option.split)
  then show ?thesis by (simp add: cb_events_def Let_def)
qed

lemma f_cb_second [simp]: "f (snd (cb_second cl d s)) = f s"
  by (simp add: cb_second_def Let_def split_def split: lws_reason.split)

lemma f_LwsCallback [simp]: "f (snd (snd (LwsCallback cl s))) = f s"
  by (simp add: LwsCallback_def Let_def split_def split: option.split)

lemma f_serve [simp]: "f (serve cls s) = f s"
  by (induction cls arbitrary: s) simp_all

end

interpretation locals: untouched locals
  by unfold_locales simp_all

text \<open>The members that are written by the thread and the application only.\<close>

definition kept :: "'a web_socket_scheme \<Rightarrow> web_socket_param \<times> u32 \<times> bool \<times> bool \<times> operation_param" where
  "kept s = (mWebSocketParam_X s, mTicket_U32 s, mCancel_B s, mOperationPending_B s, mCurrentOp_X s)"

interpretation kept: untouched kept
  by unfold_locales (simp_all add: kept_def)

lemma serve_keeps [simp]:
  "mWebSocketParam_X (serve cls s) = mWebSocketParam_X s" "mTicket_U32 (serve cls s) = mTicket_U32 s"
  "mCancel_B (serve cls s) = mCancel_B s" "mOperationPending_B (serve cls s) = mOperationPending_B s"
  "mCurrentOp_X (serve cls s) = mCurrentOp_X s"
  using kept.f_serve [of cls s] by (simp_all add: kept_def)

lemma serve_locals [simp]:
  "l_Rts_E (serve cls (s :: engine)) = l_Rts_E s" "l_Result_X (serve cls s) = l_Result_X s"
  "l_SendResult_B (serve cls s) = l_SendResult_B s" "l_IoPending_B (serve cls s) = l_IoPending_B s"
  "l_ListeningMode_B (serve cls s) = l_ListeningMode_B s" "l_ListenTicketId_U32 (serve cls s) = l_ListenTicketId_U32 s"
  using locals.f_serve [of cls s] by (simp_all add: locals_def)

section \<open>What the callback adds to the trace\<close>

text \<open>The parts of the callback never push commands or writes, and push the result of the peeked write only.\<close>

lemma extends_AddClient: "extends (callback_event cl) s (snd (snd (AddClient k d s)))"
  by (auto simp: AddClient_def Let_def extends_same [OF extends_bof_assert [OF extends_refl]] split: option.split)

lemma extends_RemoveClient: "extends (callback_event cl) s (snd (snd (RemoveClient d s)))"
  by (simp add: RemoveClient_def split: option.split prod.split)

lemma extends_SetSocketBufferSize:
  "extends (callback_event cl) s (snd (SetSocketBufferSize fd sz sts a b s))"
  by (auto simp: SetSocketBufferSize_def split: prod.split intro!: extends_emit)

lemma extends_call_OnOpen: "extends (callback_event cl) s (call_OnOpen s)"
  by (auto simp: call_OnOpen_def intro!: extends_emit)

lemma extends_call_OnClose: "extends (callback_event cl) s (call_OnClose s)"
  by (auto simp: call_OnClose_def intro!: extends_emit)

lemma extends_then:
  "extends P s t \<Longrightarrow> (\<And>u. extends P u (f u)) \<Longrightarrow> ws_trace t' = ws_trace t \<Longrightarrow> extends P s (f t')"
  by (meson extends_same extends_trans)

lemma extends_cb_established: "extends (callback_event cl) s (snd (snd (cb_established wsi cl s)))"
proof -
  let ?P = "callback_event cl"
  obtain e s1 where b: "SetSocketBufferSize (lc_socket_fd cl) (lc_socket_sizes cl) (lc_socket_sts cl)
    (SocketRcvBufferSize_U32 (mWebSocketParam_X s)) (SocketSndBufferSize_U32 (mWebSocketParam_X s)) s = (e, s1)"
    by fastforce
  have s1: "extends ?P s s1" by (metis b extends_SetSocketBufferSize snd_conv)
  let ?s2 = "(case pWebSocket_X (mWebSocketState_X s1) of None \<Rightarrow> s1 | Some w \<Rightarrow> bof_assert (w = wsi) s1)"
  have s2: "extends ?P s ?s2" using s1 by (auto split: option.split)
  let ?s3 = "?s2\<lparr>mWebSocketState_X := (mWebSocketState_X ?s2)\<lparr>pWebSocket_X := Some wsi\<rparr>\<rparr>"
  have s3: "extends ?P s ?s3" by (rule extends_same [OF s2]) simp
  show ?thesis
  proof (cases "lc_session cl")
    case None
    then show ?thesis using b s1 s3 by (auto simp: cb_established_def Let_def)
  next
    case (Some d)
    obtain e' d' s4 where a: "AddClient (c_str (lc_stack_key cl)) (Some (d\<lparr>pWebSocket_X := Some wsi\<rparr>)) ?s3 = (e', d', s4)"
      by (metis prod_cases3)
    have s4: "extends ?P s s4"
      by (rule extends_trans [OF s3]) (metis a extends_AddClient snd_conv)
    then have "extends ?P s (call_OnOpen (s4\<lparr>mWebSocketState_X := x\<rparr>))" for x
      by (rule extends_then [OF _ extends_call_OnOpen]) simp
    then show ?thesis using b s1 s4 a Some
      by (auto simp: cb_established_def Let_def)
  qed
qed

lemma extends_cb_client_established: "extends (callback_event cl) s (snd (cb_client_established wsi cl s))"
proof -
  let ?P = "callback_event cl"
  obtain e s1 where b: "SetSocketBufferSize (lc_socket_fd cl) (lc_socket_sizes cl) (lc_socket_sts cl)
    (SocketRcvBufferSize_U32 (mWebSocketParam_X s)) (SocketSndBufferSize_U32 (mWebSocketParam_X s)) s = (e, s1)"
    by fastforce
  have s1: "extends ?P s s1" by (metis b extends_SetSocketBufferSize snd_conv)
  have "extends ?P s (call_OnOpen ((bof_assert c s1)\<lparr>mWebSocketState_X := x\<rparr>))" for x c
    by (rule extends_then [OF extends_bof_assert [OF s1] extends_call_OnOpen]) simp
  then show ?thesis using b s1 by (auto simp: cb_client_established_def Let_def)
qed

lemma extends_finish_write:
  assumes "lc_peek cl = Some w" "extends (callback_event cl) s t"
  shows "extends (callback_event cl) s (finish_write cl sts w t)"
proof -
  have "callback_event cl (EvResultPush ((wo_Result_X w)\<lparr>Time_U32 := a, res_pBuffer_U8 := WriteStorage b, Sts_E := c, Size_U32 := d\<rparr>) e)"
    for a b c d e using assms(1) by (simp add: callback_event_def)
  then show ?thesis using assms(2) by (auto simp: finish_write_def Let_def intro!: extends_emit)
qed

lemma extends_cb_writeable: "extends (callback_event cl) s (cb_writeable srv wsi cl s)"
proof (cases "lc_peek cl")
  case None
  then show ?thesis by (simp add: cb_writeable_def)
next
  case (Some w)
  let ?P = "callback_event cl"
  have a: "extends ?P s (bof_assert b (emit (EvLwsWrite wsi x y) s))" for b x y
    by (auto intro!: extends_emit extends_bof_assert)
  have n: "extends ?P s ((bof_assert b (emit (EvLwsWrite wsi x y) s))\<lparr>mNbTxByServer_U64 := c\<rparr>)"
    "extends ?P s ((bof_assert b (emit (EvLwsWrite wsi x y) s))\<lparr>mNbTxByClient_U64 := c\<rparr>)" for b x y c
    by (rule extends_same [OF a], simp)+
  show ?thesis
    using n by (auto simp: cb_writeable_def Some Let_def intro!: extends_finish_write [OF Some] extends_emit)
qed

lemma extends_cb_receive: "extends (callback_event cl) s (cb_receive srv cl s)"
  by (auto simp: cb_receive_def Let_def intro!: extends_emit)

lemma extends_cb_first: "extends (callback_event cl) s (snd (snd (cb_first wsi cl s)))"
proof -
  have "extends (callback_event cl) s (snd (cb_add_headers wsi cl s))"
    by (auto simp: cb_add_headers_def Let_def intro!: extends_emit)
  then show ?thesis
    using extends_cb_established [of cl s wsi] extends_cb_client_established [of cl s wsi]
      extends_cb_writeable [of cl s _ wsi] extends_cb_receive [of cl s]
    by (simp add: cb_first_def split_def split: lws_reason.split)
qed

lemma extends_cb_events: "extends (callback_event cl) s (cb_events wsi cl s)"
proof -
  have r: "extends (callback_event cl) s (send_reply wsi cl t)" if "extends (callback_event cl) s t" for t
    using that by (auto simp: send_reply_def split: option.split)
  show ?thesis by (auto simp: cb_events_def Let_def intro!: extends_emit r extends_bof_assert)
qed

lemma extends_read_close_info: "extends (callback_event cl) s (read_close_info cl s)"
  by (auto simp: read_close_info_def split: prod.split intro!: extends_emit)

lemma extends_close:
  "extends (callback_event cl) s t \<Longrightarrow> extends (callback_event cl) s (call_OnClose (read_close_info cl t))"
  by (rule extends_trans [OF _ extends_trans [OF extends_read_close_info extends_call_OnClose]])

lemma extends_cb_second: "extends (callback_event cl) s (snd (cb_second cl d s))"
proof -
  have c: "extends (callback_event cl) s (call_OnClose (read_close_info cl (s\<lparr>mWebSocketState_X := x\<rparr>)))" for x
    by (rule extends_close) simp
  have r: "extends (callback_event cl) s
      (call_OnClose (read_close_info cl (snd (snd (RemoveClient d (s\<lparr>mWebSocketState_X := x\<rparr>))))))" for x
    by (rule extends_close, rule extends_then [OF extends_refl extends_RemoveClient]) simp_all
  show ?thesis using c r
    by (auto simp: cb_second_def Let_def split_def split: lws_reason.split intro!: extends_LWS_CLIENT_DISCONNECT extends_emit)
qed

lemma extends_LwsCallback: "extends (callback_event cl) s (snd (snd (LwsCallback cl s)))"
proof (cases "lc_wsi cl")
  case None
  then show ?thesis by (simp add: LwsCallback_def)
next
  case (Some wsi)
  have "extends (callback_event cl) s (snd (cb_second cl d (cb_events wsi cl (snd (snd (cb_first wsi cl s))))))" for d
    by (rule extends_trans [OF extends_cb_first extends_trans [OF extends_cb_events extends_cb_second]])
  then show ?thesis by (simp add: LwsCallback_def Some Let_def split_def)
qed

text \<open>A whole service of libwebsockets: only results of peeked writes.\<close>

definition served_event :: "lws_call list \<Rightarrow> ws_event \<Rightarrow> bool" where
  "served_event cls e \<longleftrightarrow> (\<exists>cl \<in> set cls. callback_event cl e)"

lemma extends_serve: "extends (served_event cls) s (serve cls s)"
proof (induction cls arbitrary: s)
  case Nil
  then show ?case by simp
next
  case (Cons cl cls)
  have "extends (served_event (cl # cls)) s (snd (snd (LwsCallback cl s)))"
    by (rule extends_mono [OF extends_LwsCallback]) (auto simp: served_event_def)
  moreover have "extends (served_event (cl # cls)) (snd (snd (LwsCallback cl s))) (serve cls (snd (snd (LwsCallback cl s))))"
    by (rule extends_mono [OF Cons.IH]) (auto simp: served_event_def)
  ultimately show ?case unfolding serve.simps by (rule extends_trans)
qed

section \<open>The parts of a turn\<close>

lemma local_frames [simp]:
  "l_Rts_E (emit e s) = l_Rts_E s" "l_Result_X (emit e s) = l_Result_X s"
  "l_SendResult_B (emit e s) = l_SendResult_B s" "l_IoPending_B (emit e s) = l_IoPending_B s"
  "l_ListeningMode_B (emit e s) = l_ListeningMode_B s" "l_ListenTicketId_U32 (emit e s) = l_ListenTicketId_U32 s"
  "l_NewCommandRcv_B (emit e s) = l_NewCommandRcv_B s"
  "l_Rts_E (LWS_CLIENT_DISCONNECT s) = l_Rts_E s" "l_Result_X (LWS_CLIENT_DISCONNECT s) = l_Result_X s"
  "l_SendResult_B (LWS_CLIENT_DISCONNECT s) = l_SendResult_B s"
  "l_IoPending_B (LWS_CLIENT_DISCONNECT s) = l_IoPending_B s"
  "l_ListeningMode_B (LWS_CLIENT_DISCONNECT s) = l_ListeningMode_B s"
  "l_ListenTicketId_U32 (LWS_CLIENT_DISCONNECT s) = l_ListenTicketId_U32 s"
  "l_NewCommandRcv_B (LWS_CLIENT_DISCONNECT s) = l_NewCommandRcv_B s"
  by (simp_all add: emit_def LWS_CLIENT_DISCONNECT_def Let_def)

lemma set_status_simps [simp]:
  "l_Result_X (set_status e s) = (l_Result_X s)\<lparr>Sts_E := e\<rparr>" "ws_trace (set_status e s) = ws_trace s"
  "l_Rts_E (set_status e s) = l_Rts_E s" "l_SendResult_B (set_status e s) = l_SendResult_B s"
  "l_IoPending_B (set_status e s) = l_IoPending_B s" "l_ListeningMode_B (set_status e s) = l_ListeningMode_B s"
  "l_ListenTicketId_U32 (set_status e s) = l_ListenTicketId_U32 s" "mCurrentOp_X (set_status e s) = mCurrentOp_X s"
  "mWebSocketParam_X (set_status e s) = mWebSocketParam_X s" "mpLwsContext_X (set_status e s) = mpLwsContext_X s"
  "mWebSocketState_X (set_status e s) = mWebSocketState_X s" "mCancel_B (set_status e s) = mCancel_B s"
  "l_NewCommandRcv_B (set_status e s) = l_NewCommandRcv_B s"
  "mClientCollection (set_status e s) = mClientCollection s" "mTicket_U32 (set_status e s) = mTicket_U32 s"
  "mOperationPending_B (set_status e s) = mOperationPending_B s"
  by (simp_all add: set_status_def)

lemmas start_defs =
  start_listen_def start_connect_def start_disconnect_def start_exit_def start_read_def start_write_def

text \<open>The start of an operation keeps the ticket of the result, and pushes at most one write of that ticket.\<close>

definition started_event :: "u32 \<Rightarrow> ws_event \<Rightarrow> bool" where
  "started_event t e \<longleftrightarrow> (is_push e \<longrightarrow> (\<exists>w sts. e = EvWritePush w sts \<and> OpTicket_U32 (wo_Result_X w) = t))"

lemma started_event_simple [simp]: "\<not> is_push e \<Longrightarrow> started_event t e"
  by (simp add: started_event_def)

lemma extends_started_DISCONNECT [intro]:
  "extends (started_event t) s u \<Longrightarrow> extends (started_event t) s (LWS_CLIENT_DISCONNECT u)"
  by (auto simp: extends_def)

lemma start_operation_ticket:
  "OpTicket_U32 (l_Result_X (start_operation i s)) = OpTicket_U32 (l_Result_X s)"
  by (simp add: start_operation_def start_defs Let_def split: operation.split)

lemma start_operation_flags:
  "l_SendResult_B (start_operation i s) = l_SendResult_B s" "l_IoPending_B (start_operation i s) = l_IoPending_B s"
  by (simp_all add: start_operation_def start_defs Let_def split: operation.split)

lemma start_operation_listen_ticket:
  "l_ListenTicketId_U32 (start_operation i s) = l_ListenTicketId_U32 s \<or>
   l_ListenTicketId_U32 (start_operation i s) = Ticket_U32 (mCurrentOp_X s)"
  by (simp add: start_operation_def start_defs Let_def split: operation.split)

lemma start_operation_op:
  "Operation_E (mCurrentOp_X (start_operation i s)) = Operation_E (mCurrentOp_X s) \<and>
   OpParam (mCurrentOp_X (start_operation i s)) = OpParam (mCurrentOp_X s) \<and>
   Ticket_U32 (mCurrentOp_X (start_operation i s)) = Ticket_U32 (mCurrentOp_X s)"
  by (simp add: start_operation_def start_defs Let_def split: operation.split)

lemma extends_start_operation:
  "extends (started_event (OpTicket_U32 (l_Result_X s))) s (start_operation i s)"
proof -
  let ?P = "started_event (OpTicket_U32 (l_Result_X s))"
  have st: "extends ?P s t \<Longrightarrow> extends ?P s (set_status e t)" for t e
    by (erule extends_same) simp
  have w: "?P (EvWritePush \<lparr>wo_TimeOut_U32 = a, wo_Timer_U32 = b, wo_payload = c, wo_pos = d,
      wo_Result_X = (l_Result_X s)\<lparr>Sts_E := e\<rparr>\<rparr> f)" for a b c d e f
    by (simp add: started_event_def)
  have l: "extends ?P s (start_listen i s)"
    by (auto simp: start_listen_def Let_def intro!: st extends_emit extends_started_DISCONNECT
        intro: extends_same [of _ s "emit (EvCreateContext True) s"])
  have c: "extends ?P s (start_connect i s)"
    by (auto simp: start_connect_def Let_def intro!: st extends_emit extends_started_DISCONNECT
        intro: extends_same [of _ s "emit (EvConnect a b d) (emit (EvCreateContext False) s)" for a b d])
  have d: "extends ?P s (start_disconnect s)" "extends ?P s (start_exit s)" "extends ?P s (start_read s)"
    by (auto simp: start_disconnect_def start_exit_def start_read_def intro!: st)
  have r: "extends ?P s (start_write i s)"
    by (auto simp: start_write_def Let_def intro!: st extends_emit w)
  show ?thesis using l c d r by (simp add: start_operation_def st split: operation.split)
qed

section \<open>The engine as a transition system\<close>

text \<open>An operation whose parameter is the union member of its kind.\<close>

fun op_matches :: "operation \<Rightarrow> op_param \<Rightarrow> bool" where
  "op_matches OPERATION_EXIT (Exit_X _) = True"
| "op_matches OPERATION_LISTEN (Listen_X _) = True"
| "op_matches OPERATION_CONNECT (Connect_X _) = True"
| "op_matches OPERATION_READ (Read_X _) = True"
| "op_matches OPERATION_WRITE (Write_X _) = True"
| "op_matches OPERATION_DISCONNECT (Disconnect_X _) = True"
| "op_matches _ _ = False"

text \<open>The queues give back what was pushed into them.\<close>

definition queues_honest :: "turn_in \<Rightarrow> engine \<Rightarrow> bool" where
  "queues_honest i s \<longleftrightarrow>
     (\<forall>op. ti_pop i = Some op \<longrightarrow> EvCmdPush op BOF_ERR_NO_ERROR \<in> set (ws_trace s)) \<and>
     (\<forall>cl \<in> set (ti_calls i). \<forall>w. lc_peek cl = Some w \<longrightarrow> EvWritePush w BOF_ERR_NO_ERROR \<in> set (ws_trace s))"

text \<open>The application programs an operation through one of the six overloads.\<close>

inductive programs :: "engine \<Rightarrow> engine \<Rightarrow> bool" where
  Exit: "programs s (snd (snd (Program_Exit a t x s)))"
| Listen: "programs s (snd (snd (Program_Listen a t l s)))"
| Connect: "programs s (snd (snd (Program_Connect a t c s)))"
| Read: "programs s (snd (snd (Program_Read a t r s)))"
| Write: "programs s (snd (snd (Program_Write a t w s)))"
| Disconnect: "programs s (snd (snd (Program_Disconnect a t d s)))"

inductive_cases programsE: "programs s s'"

lemma programs_operation: "programs s s' \<Longrightarrow> \<exists>a t op p. s' = snd (snd (program_operation a t op p s))"
  by (erule programsE) (auto simp: program_defs)

inductive engine_step :: "engine \<Rightarrow> engine \<Rightarrow> bool" where
  Turn: "queues_honest i s \<Longrightarrow> engine_step s (process_turn i s)"
| Program: "programs s s' \<Longrightarrow> engine_step s s'"
| Cancel: "engine_step s (snd (CancelWebSocketOperation e t s))"
| Clear: "engine_step s (snd (ClearWebSocketOperation s))"
| Reset: "engine_step s (snd (ResetWebSocketOperation s))"

inductive_cases engine_stepE: "engine_step s s'"

text \<open>What the thread and the application can reach together, from a new engine.\<close>

inductive reachable :: "u32 \<Rightarrow> web_socket_param \<Rightarrow> engine \<Rightarrow> bool" for junk p where
  Start: "reachable junk p (start_processing junk (BofWebSocket BOF_ERR_NO_ERROR p))"
| Step: "reachable junk p s \<Longrightarrow> engine_step s s' \<Longrightarrow> reachable junk p s'"

section \<open>The ticket invariant\<close>

definition programmed :: "'a web_socket_scheme \<Rightarrow> u32 \<Rightarrow> bool" where
  "programmed s t \<longleftrightarrow> (\<exists>op. EvCmdPush op BOF_ERR_NO_ERROR \<in> set (ws_trace s) \<and> Ticket_U32 op = t)"

definition pushes_known :: "u32 \<Rightarrow> 'a web_socket_scheme \<Rightarrow> bool" where
  "pushes_known junk s \<longleftrightarrow>
     (\<forall>r e. EvResultPush r e \<in> set (ws_trace s) \<longrightarrow> OpTicket_U32 r = junk \<or> programmed s (OpTicket_U32 r)) \<and>
     (\<forall>w e. EvWritePush w e \<in> set (ws_trace s) \<longrightarrow>
        OpTicket_U32 (wo_Result_X w) = junk \<or> programmed s (OpTicket_U32 (wo_Result_X w)))"

definition tickets_known :: "u32 \<Rightarrow> engine \<Rightarrow> bool" where
  "tickets_known junk s \<longleftrightarrow> pushes_known junk s \<and>
     (l_IoPending_B s \<or> l_SendResult_B s \<longrightarrow>
        OpTicket_U32 (l_Result_X s) = junk \<or> programmed s (OpTicket_U32 (l_Result_X s))) \<and>
     (l_ListenTicketId_U32 s = junk \<or> programmed s (l_ListenTicketId_U32 s))"

text \<open>\<open>programmed\<close> only grows; a trace extended by events that push known tickets stays known.\<close>

lemma programmed_mono: "extends P s s' \<Longrightarrow> programmed s t \<Longrightarrow> programmed s' t"
  using extends_subset [of P s s'] by (auto simp: programmed_def)

definition known_event :: "u32 \<Rightarrow> 'a web_socket_scheme \<Rightarrow> ws_event \<Rightarrow> bool" where
  "known_event junk s e \<longleftrightarrow> (case e of
     EvResultPush r _ \<Rightarrow> OpTicket_U32 r = junk \<or> programmed s (OpTicket_U32 r)
   | EvWritePush w _ \<Rightarrow> OpTicket_U32 (wo_Result_X w) = junk \<or> programmed s (OpTicket_U32 (wo_Result_X w))
   | _ \<Rightarrow> True)"

lemma known_event_simple [simp]: "\<not> is_push e \<Longrightarrow> known_event junk s e"
  by (cases e) (simp_all add: known_event_def)

lemma pushes_known_extends:
  assumes "extends (known_event junk s) s s'" "pushes_known junk s"
  shows "pushes_known junk s'"
proof -
  have p: "programmed s t \<Longrightarrow> programmed s' t" for t by (rule programmed_mono [OF assms(1)])
  have "known_event junk s' e" if "e \<in> set (ws_trace s')" for e
    using extends_cases [OF assms(1) that] assms(2) p
    by (cases e) (auto simp: known_event_def pushes_known_def)
  then show ?thesis by (fastforce simp: pushes_known_def known_event_def)
qed

lemma serve_known:
  assumes "queues_honest i s" "pushes_known junk s"
  shows "extends (known_event junk s) s (serve (ti_calls i) s)"
proof (rule extends_mono [OF extends_serve])
  fix e assume "served_event (ti_calls i) e"
  then obtain cl where cl: "cl \<in> set (ti_calls i)" "callback_event cl e" by (auto simp: served_event_def)
  show "known_event junk s e"
  proof (cases "is_push e")
    case True
    with cl(2) obtain r sts w where e: "e = EvResultPush r sts" "lc_peek cl = Some w"
        "OpTicket_U32 r = OpTicket_U32 (wo_Result_X w)" by (auto simp: callback_event_def)
    with assms cl(1) have "EvWritePush w BOF_ERR_NO_ERROR \<in> set (ws_trace s)" by (auto simp: queues_honest_def)
    with assms(2) e show ?thesis by (auto simp: known_event_def pushes_known_def)
  qed simp
qed

lemma pop_command_frame:
  "extends (known_event junk s) s (pop_command i s)" "locals (pop_command i s) = locals s"
  "l_NewCommandRcv_B (pop_command i s) \<longleftrightarrow> ti_pop i \<noteq> None"
  "ti_pop i = Some op \<Longrightarrow> mCurrentOp_X (pop_command i s) = op"
  if "queues_honest i s" "pushes_known junk s"
proof -
  let ?s1 = "if mpLwsContext_X s then serve (ti_calls i) s else s\<lparr>mCurrentOp_X := OPERATION_PARAM_Reset (mCurrentOp_X s)\<rparr>"
  have "extends (known_event junk s) s ?s1" using serve_known [OF that] by simp
  then show "extends (known_event junk s) s (pop_command i s)"
    by (rule extends_same) (simp add: pop_command_def Let_def split: option.split)
  show "locals (pop_command i s) = locals s"
    by (simp add: pop_command_def Let_def split: option.split)
  show "l_NewCommandRcv_B (pop_command i s) \<longleftrightarrow> ti_pop i \<noteq> None"
    by (simp add: pop_command_def Let_def split: option.split)
  show "ti_pop i = Some op \<Longrightarrow> mCurrentOp_X (pop_command i s) = op"
    by (simp add: pop_command_def Let_def)
qed

lemma pop_command_known:
  assumes h: "queues_honest i s" and k: "tickets_known junk s"
  shows "tickets_known junk (pop_command i s) \<and>
    (l_NewCommandRcv_B (pop_command i s) \<longrightarrow> programmed (pop_command i s) (Ticket_U32 (mCurrentOp_X (pop_command i s))))"
proof -
  have pk: "pushes_known junk s" using k by (simp add: tickets_known_def)
  note f = pop_command_frame [OF h pk]
  have l: "l_IoPending_B (pop_command i s) = l_IoPending_B s" "l_SendResult_B (pop_command i s) = l_SendResult_B s"
    "l_Result_X (pop_command i s) = l_Result_X s" "l_ListenTicketId_U32 (pop_command i s) = l_ListenTicketId_U32 s"
    using f(2) by (simp_all add: locals_def)
  have "programmed s (Ticket_U32 op)" if "ti_pop i = Some op" for op
    using h that by (auto simp: queues_honest_def programmed_def)
  then show ?thesis
    using k f l pushes_known_extends [OF f(1) pk] programmed_mono [OF f(1)]
    by (auto simp: tickets_known_def)
qed

lemma start_command_known:
  assumes k: "tickets_known junk s"
    and new: "l_NewCommandRcv_B s \<longrightarrow> programmed s (Ticket_U32 (mCurrentOp_X s))"
  shows "tickets_known junk (start_command i s)"
proof (cases "(\<not> l_IoPending_B s \<or> l_ListeningMode_B s) \<and> l_NewCommandRcv_B s")
  case False
  show ?thesis unfolding start_command_def if_not_P [OF False] by (rule k)
next
  case True
  let ?op = "mCurrentOp_X s"
  let ?s1 = "s\<lparr>l_Result_X := (OPERATION_RESULT_Reset (l_Result_X s))
      \<lparr>Sts_E := BOF_ERR_NO_ERROR, res_Operation_E := Operation_E ?op, OpTicket_U32 := Ticket_U32 ?op,
       Time_U32 := ti_elapsed_cmd i\<rparr>,
    mCurrentOp_X := ?op\<lparr>Timer_U32 := ti_now_cmd i\<rparr>, mOperationPending_B := True, l_SendResult_B := True\<rparr>"
  let ?s2 = "start_operation i ?s1"
  have known: "programmed s (Ticket_U32 ?op)" using True new by simp
  have ev: "extends (known_event junk s) s ?s2"
  proof (rule extends_trans [of _ s ?s1])
    show "extends (known_event junk s) s ?s1" by simp
    show "extends (known_event junk s) ?s1 ?s2"
    proof (rule extends_mono [OF extends_start_operation])
      fix e assume e: "started_event (OpTicket_U32 (l_Result_X ?s1)) e"
      show "known_event junk s e"
      proof (cases "is_push e")
        case True
        with e known show ?thesis by (auto simp: started_event_def known_event_def)
      qed (rule known_event_simple)
    qed
  qed
  have "OpTicket_U32 (l_Result_X ?s2) = Ticket_U32 ?op" by (simp add: start_operation_ticket)
  moreover have "l_ListenTicketId_U32 ?s2 = l_ListenTicketId_U32 s \<or> l_ListenTicketId_U32 ?s2 = Ticket_U32 ?op"
    using start_operation_listen_ticket [of i ?s1] by simp
  ultimately have "tickets_known junk ?s2"
    using k known pushes_known_extends [OF ev] programmed_mono [OF ev]
    by (auto simp: tickets_known_def)
  then have "tickets_known junk (?s2\<lparr>l_IoPending_B := True\<rparr>)"
    using \<open>OpTicket_U32 (l_Result_X ?s2) = Ticket_U32 ?op\<close> known programmed_mono [OF ev]
    by (auto simp: tickets_known_def pushes_known_def programmed_def)
  with \<open>tickets_known junk ?s2\<close> True show ?thesis by (simp add: start_command_def Let_def)
qed

lemma pending_switch_frame:
  "extends plain s (pending_switch i s)"
  "OpTicket_U32 (l_Result_X (pending_switch i s)) = OpTicket_U32 (l_Result_X s) \<or>
   OpTicket_U32 (l_Result_X (pending_switch i s)) = l_ListenTicketId_U32 s"
  "l_ListenTicketId_U32 (pending_switch i s) = l_ListenTicketId_U32 s"
proof -
  show "extends plain s (pending_switch i s)"
    by (auto simp: pending_switch_def Let_def extends_def plain_def split: operation.split prod.split)
qed (simp_all add: pending_switch_def Let_def split: operation.split prod.split)

lemma pending_timeout_frame:
  "extends plain s (pending_timeout i s)"
  "OpTicket_U32 (l_Result_X (pending_timeout i s)) = OpTicket_U32 (l_Result_X s)"
  "l_ListenTicketId_U32 (pending_timeout i s) = l_ListenTicketId_U32 s"
  by (auto simp: pending_timeout_def Let_def extends_def plain_def)

lemma check_pending_known:
  assumes k: "tickets_known junk s"
  shows "tickets_known junk (check_pending i s)"
proof (cases "l_IoPending_B s")
  case False
  then show ?thesis using k by (simp add: check_pending_def)
next
  case True
  let ?s1 = "s\<lparr>l_SendResult_B := False\<rparr>"
  let ?s2 = "pending_switch i ?s1" and ?s3 = "pending_timeout i (pending_switch i ?s1)"
  have "extends plain s ?s3"
    by (rule extends_trans [OF extends_trans [OF extends_refl [of ?s1 s] pending_switch_frame(1)]
          pending_timeout_frame(1)]) simp
  then have ev: "extends (known_event junk s) s ?s3" by (rule extends_mono) (simp add: plain_def)
  have "OpTicket_U32 (l_Result_X ?s3) = OpTicket_U32 (l_Result_X s) \<or>
      OpTicket_U32 (l_Result_X ?s3) = l_ListenTicketId_U32 s"
    using pending_switch_frame(2) [of i ?s1] by (simp add: pending_timeout_frame)
  moreover have "l_ListenTicketId_U32 ?s3 = l_ListenTicketId_U32 s"
    by (simp add: pending_timeout_frame pending_switch_frame(3))
  moreover have "pushes_known junk ?s3"
    using pushes_known_extends [OF ev] k by (simp add: tickets_known_def)
  ultimately show ?thesis
    using k True programmed_mono [OF ev] by (auto simp: tickets_known_def check_pending_def)
qed

lemma do_cancel_frame:
  "extends plain s (do_cancel s)" "l_Result_X (do_cancel s) = l_Result_X s"
  "l_ListenTicketId_U32 (do_cancel s) = l_ListenTicketId_U32 s"
  "l_IoPending_B (do_cancel s) \<longrightarrow> l_IoPending_B s" "l_SendResult_B (do_cancel s) \<longrightarrow> l_SendResult_B s"
  by (auto simp: do_cancel_def Let_def extends_def plain_def)

lemma do_cancel_known: "tickets_known junk s \<Longrightarrow> tickets_known junk (do_cancel s)"
proof -
  assume k: "tickets_known junk s"
  have ev: "extends (known_event junk s) s (do_cancel s)"
    by (rule extends_mono [OF do_cancel_frame(1)]) (simp add: plain_def)
  show ?thesis
    using k pushes_known_extends [OF ev] programmed_mono [OF ev] do_cancel_frame [of s]
    by (auto simp: tickets_known_def)
qed

lemma send_result_known:
  assumes k: "tickets_known junk s"
  shows "tickets_known junk (send_result i s) \<and> \<not> l_SendResult_B (send_result i s)"
proof (cases "l_SendResult_B s")
  case False
  then show ?thesis using k by (simp add: send_result_def)
next
  case True
  then have t: "OpTicket_U32 (l_Result_X s) = junk \<or> programmed s (OpTicket_U32 (l_Result_X s))"
    using k by (simp add: tickets_known_def)
  have ev: "extends (known_event junk s) s (send_result i s)"
    using True t by (auto simp: send_result_def Let_def extends_def known_event_def)
  have f: "OpTicket_U32 (l_Result_X (send_result i s)) = OpTicket_U32 (l_Result_X s)"
      "l_ListenTicketId_U32 (send_result i s) = l_ListenTicketId_U32 s"
      "l_IoPending_B (send_result i s) = l_IoPending_B s" "\<not> l_SendResult_B (send_result i s)"
    using True by (simp_all add: send_result_def Let_def)
  show ?thesis
    using k t f pushes_known_extends [OF ev] programmed_mono [OF ev] by (auto simp: tickets_known_def)
qed

lemma process_turn_known:
  assumes "queues_honest i s" "tickets_known junk s"
  shows "tickets_known junk (process_turn i s) \<and> \<not> l_SendResult_B (process_turn i s)"
  unfolding process_turn_def
  using pop_command_known [OF assms] start_command_known check_pending_known do_cancel_known send_result_known
  by blast

text \<open>The calls of the application leave the local variables alone and push commands at most.\<close>

lemma tickets_known_frame:
  assumes "extends (known_event junk s) s s'" "locals s' = locals s" "tickets_known junk s"
  shows "tickets_known junk s'"
  using assms pushes_known_extends [OF assms(1)] programmed_mono [OF assms(1)]
  by (auto simp: tickets_known_def locals_def)

lemma program_operation_frame:
  "extends (known_event junk s) s (snd (snd (program_operation a t op p s)))"
  "locals (snd (snd (program_operation a t op p (s :: engine)))) = locals s"
proof -
  have k: "known_event junk s (EvCmdPush op' e)" for op' e by (simp add: known_event_def)
  show "extends (known_event junk s) s (snd (snd (program_operation a t op p s)))"
    by (auto simp: program_operation_def LWS_WAKEUP_SERVICE_def Let_def extends_def k)
  show "locals (snd (snd (program_operation a t op p (s :: engine)))) = locals s"
    by (simp add: program_operation_def LWS_WAKEUP_SERVICE_def Let_def)
qed

lemma cancel_calls_frame:
  "extends (known_event junk s) s (snd (CancelWebSocketOperation e t s))"
  "locals (snd (CancelWebSocketOperation e t (s :: engine))) = locals s"
  "extends (known_event junk s) s (snd (ClearWebSocketOperation s))"
  "locals (snd (ClearWebSocketOperation (s :: engine))) = locals s"
  "extends (known_event junk s) s (snd (ResetWebSocketOperation s))"
  "locals (snd (ResetWebSocketOperation (s :: engine))) = locals s"
  by (auto simp: CancelWebSocketOperation_def ClearWebSocketOperation_def ResetWebSocketOperation_def Let_def
      extends_def)

lemma engine_step_known:
  assumes "engine_step s s'" "tickets_known junk s"
  shows "tickets_known junk s'"
  using assms(1)
proof cases
  case (Turn i)
  then show ?thesis using process_turn_known assms(2) by blast
next
  case Program
  then show ?thesis using tickets_known_frame [OF _ _ assms(2)] program_operation_frame programs_operation by metis
next
  case (Cancel e t)
  then show ?thesis using tickets_known_frame [OF _ _ assms(2)] cancel_calls_frame(1,2) by blast
next
  case Clear
  then show ?thesis using tickets_known_frame [OF _ _ assms(2)] cancel_calls_frame(3,4) by blast
next
  case Reset
  then show ?thesis using tickets_known_frame [OF _ _ assms(2)] cancel_calls_frame(5,6) by blast
qed

lemma start_known: "tickets_known junk (start_processing junk (BofWebSocket BOF_ERR_NO_ERROR p))"
  by (simp add: tickets_known_def start_processing_def web_socket.defs pushes_known_def BofWebSocket_def bof_assert_def)

lemma reachable_known: "reachable junk p s \<Longrightarrow> tickets_known junk s"
  by (induction rule: reachable.induct) (auto intro: start_known engine_step_known)

end
