(* ===== verification/WsCommands.thy ===== *)
theory WsCommands
  imports WsEngine
begin

text \<open>
  How a turn of the engine treats commands: the phases of a turn as rewriting rules, the refusals of a
  disconnected client, cancellation and exit.
\<close>

lemma DISCONNECT_members [simp]:
  "mTicket_U32 (LWS_CLIENT_DISCONNECT s) = mTicket_U32 s"
  "mOperationPending_B (LWS_CLIENT_DISCONNECT s) = mOperationPending_B s"
  by (simp_all add: LWS_CLIENT_DISCONNECT_def Let_def)

section \<open>Concrete engines\<close>

text \<open>A new engine with \<open>n\<close> seats (a client when \<open>n = 0\<close>) and the inputs of a turn in which nothing happens.\<close>

definition sample_param :: "u32 \<Rightarrow> web_socket_param" where
  "sample_param n = \<lparr>pUser = 0, SocketRcvBufferSize_U32 = 0, SocketSndBufferSize_U32 = 0,
     NbMaxOperationPending_U32 = 8, RxBufferSize_U32 = 1024, NbMaxBufferEntry_U32 = 8, OnOperation = True,
     OnEvent = False, OnOpen = True, OnClose = False, OnError = False, OnMessage = False, NbMaxClient_U32 = n,
     ServerIp_X = (''127.0.0.1'', 8080),
     WebSocketThreadParam_X = \<lparr>Name_S = ''ws'', ThreadSchedulerPolicy_E = 0, ThreadPriority_E = 0\<rparr>\<rparr>"

definition sample_engine :: "u32 \<Rightarrow> engine" where
  "sample_engine n = start_processing 77 (BofWebSocket BOF_ERR_NO_ERROR (sample_param n))"

definition quiet_turn :: turn_in where
  "quiet_turn = \<lparr>ti_calls = [], ti_pop = None, ti_elapsed_cmd = 0, ti_now_cmd = 0, ti_context_ok = True,
     ti_connect = Some 5, ti_user_bytes = [1, 2, 3], ti_write_push = BOF_ERR_NO_ERROR, ti_on_writable = 1,
     ti_now_listen = 0, ti_rx_pop = (BOF_ERR_NO_ERROR, 3), ti_elapsed_io = 0, ti_elapsed_send = 0,
     ti_result_push = BOF_ERR_NO_ERROR, ti_must_exit = False\<rparr>"

definition sample_op :: "operation \<Rightarrow> op_param \<Rightarrow> operation_param" where
  "sample_op op p = \<lparr>Operation_E = op, Ticket_U32 = 1, TimeOut_U32 = 100, Timer_U32 = 0, OpParam = p\<rparr>"

definition sample_call :: "lws_reason \<Rightarrow> lws_call" where
  "sample_call r = \<lparr>lc_wsi = Some 5, lc_reason = r, lc_session = Some \<lparr>ConnectDone_B = False, pWebSocket_X = None\<rparr>,
     lc_input = [1, 2, 3], lc_urlarg = None, lc_stack_key = ''x'', lc_socket_fd = 4, lc_socket_sizes = (0, 0),
     lc_socket_sts = BOF_ERR_NO_ERROR, lc_peek = None, lc_written = 0, lc_elapsed = 0, lc_push = BOF_ERR_NO_ERROR,
     lc_final = True, lc_rx_push = BOF_ERR_NO_ERROR, lc_raw_size1 = 3, lc_raw_contiguous = True,
     lc_on_message = BOF_ERR_NO_ERROR, lc_on_event = BOF_ERR_NO_ERROR, lc_reply = None, lc_reply_written = 0,
     lc_close_payload = None, lc_close_behind = []\<rparr>"

definition sample_connect :: op_param where
  "sample_connect = Connect_X \<lparr>pWsCltKey_c = ''k'', DstIpAddr_X = 1, DstPort_U16 = 80\<rparr>"

text \<open>A client whose CONNECT is pending, and a server that listens.\<close>

definition sample_connecting :: engine where
  "sample_connecting = (sample_engine 0)\<lparr>mpLwsContext_X := True, l_IoPending_B := True,
     mWebSocketState_X := \<lparr>ConnectDone_B = False, pWebSocket_X = Some 5\<rparr>,
     mCurrentOp_X := sample_op OPERATION_CONNECT sample_connect\<rparr>"

definition sample_listening :: engine where
  "sample_listening = (sample_engine 4)\<lparr>mpLwsContext_X := True, l_IoPending_B := True, l_ListeningMode_B := True,
     l_ListenTicketId_U32 := 1,
     mCurrentOp_X := sample_op OPERATION_LISTEN (Listen_X \<lparr>SrcIpAddr_X = 0, SrcPort_U16 = 0, li_NbMaxClient_U32 = 4\<rparr>)\<rparr>"

lemmas sample_defs = sample_connecting_def sample_listening_def sample_call_def sample_connect_def sample_engine_def sample_param_def quiet_turn_def sample_op_def start_processing_def
  BofWebSocket_def bof_assert_def web_socket.defs is_server_def

section \<open>A disconnected client\<close>

definition disconnected :: "engine \<Rightarrow> bool" where
  "disconnected s \<longleftrightarrow> \<not> is_server s \<and> \<not> mpLwsContext_X s \<and> \<not> ConnectDone_B (mWebSocketState_X s) \<and>
     \<not> l_IoPending_B s \<and> \<not> l_ListeningMode_B s \<and> \<not> l_SendResult_B s \<and> \<not> mCancel_B s"

text \<open>The status a disconnected client answers a command with; \<open>None\<close>: it is accepted.\<close>

definition refusal :: "operation_param \<Rightarrow> boferr option" where
  "refusal op = (case Operation_E op of
     OPERATION_LISTEN \<Rightarrow> Some BOF_ERR_WRONG_MODE
   | OPERATION_CONNECT \<Rightarrow>
       (if 0 < length (c_str (pWsCltKey_c (connect_of op))) \<and> length (c_str (pWsCltKey_c (connect_of op))) < 128
        then None else Some BOF_ERR_INVALID_STATE)
   | OPERATION_READ \<Rightarrow> Some BOF_ERR_ENOTCONN
   | OPERATION_WRITE \<Rightarrow> Some BOF_ERR_ENOTCONN
   | OPERATION_DISCONNECT \<Rightarrow> Some BOF_ERR_INVALID_STATE
   | OPERATION_EXIT \<Rightarrow> Some BOF_ERR_CANCEL
   | OPERATION_MAX \<Rightarrow> Some BOF_ERR_INVALID_COMMAND)"

text \<open>The events of one answer: the result is pushed, and \<open>OnOperation\<close> is told the status of the push.\<close>

definition answer :: "turn_in \<Rightarrow> engine \<Rightarrow> operation_param \<Rightarrow> operation_result \<Rightarrow> ws_event list" where
  "answer i s op r =
     EvResultPush r (ti_result_push i) #
       (if OnOperation (mWebSocketParam_X s)
        then [EvOnOperation (Operation_E op) (Ticket_U32 op) (Size_U32 r) (res_pBuffer_U8 r) (ti_result_push i)] else [])"

lemma connect_of_timer [simp]: "connect_of (op\<lparr>Timer_U32 := t\<rparr>) = connect_of op"
  by (simp add: connect_of_def)

lemma read_of_timer [simp]: "read_of (op\<lparr>Timer_U32 := t\<rparr>) = read_of op"
  by (simp add: read_of_def)

lemma is_server_simps [simp]:
  "is_server (emit e s) = is_server s" "is_server (s\<lparr>mWebSocketState_X := a\<rparr>) = is_server s"
  "is_server (s\<lparr>mpLwsContext_X := b\<rparr>) = is_server s" "is_server (s\<lparr>mCurrentOp_X := c\<rparr>) = is_server s"
  "is_server (s\<lparr>mOperationPending_B := b\<rparr>) = is_server s"
  by (simp_all add: is_server_def)

lemma is_server_locals [simp]:
  "is_server ((s :: engine)\<lparr>l_Result_X := r\<rparr>) = is_server s" "is_server (s\<lparr>l_SendResult_B := b\<rparr>) = is_server s"
  "is_server (s\<lparr>l_NewCommandRcv_B := b\<rparr>) = is_server s"
  by (simp_all add: is_server_def)

section \<open>The phases of a turn\<close>

text \<open>A command taken: the current operation, a fresh result with its ticket.\<close>

definition accepted :: "turn_in \<Rightarrow> engine \<Rightarrow> engine" where
  "accepted i s =
     s\<lparr>l_Result_X := \<lparr>res_Operation_E = Operation_E (mCurrentOp_X s), OpTicket_U32 = Ticket_U32 (mCurrentOp_X s),
          Sts_E = BOF_ERR_NO_ERROR, Size_U32 = 0, res_pBuffer_U8 = NullBuffer, Time_U32 = ti_elapsed_cmd i\<rparr>,
       mCurrentOp_X := (mCurrentOp_X s)\<lparr>Timer_U32 := ti_now_cmd i\<rparr>, mOperationPending_B := True, l_SendResult_B := True\<rparr>"

lemma accepted_simps [simp]:
  "mpLwsContext_X (accepted i s) = mpLwsContext_X s" "mWebSocketParam_X (accepted i s) = mWebSocketParam_X s"
  "mWebSocketState_X (accepted i s) = mWebSocketState_X s" "mCancel_B (accepted i s) = mCancel_B s"
  "mCurrentOp_X (accepted i s) = (mCurrentOp_X s)\<lparr>Timer_U32 := ti_now_cmd i\<rparr>" "ws_trace (accepted i s) = ws_trace s"
  "l_Rts_E (accepted i s) = l_Rts_E s" "l_SendResult_B (accepted i s)" "l_IoPending_B (accepted i s) = l_IoPending_B s"
  "l_ListeningMode_B (accepted i s) = l_ListeningMode_B s" "is_server (accepted i s) = is_server s"
  "l_ListenTicketId_U32 (accepted i s) = l_ListenTicketId_U32 s"
  "l_NewCommandRcv_B (accepted i s) = l_NewCommandRcv_B s"
  "l_Result_X (accepted i s) = \<lparr>res_Operation_E = Operation_E (mCurrentOp_X s), OpTicket_U32 = Ticket_U32 (mCurrentOp_X s),
          Sts_E = BOF_ERR_NO_ERROR, Size_U32 = 0, res_pBuffer_U8 = NullBuffer, Time_U32 = ti_elapsed_cmd i\<rparr>"
  by (simp_all add: accepted_def is_server_def)

lemma start_command_accepts:
  assumes "\<not> l_IoPending_B s \<or> l_ListeningMode_B s" "l_NewCommandRcv_B s"
  shows "start_command i s =
    (if Sts_E (l_Result_X (start_operation i (accepted i s))) = BOF_ERR_NO_ERROR
     then (start_operation i (accepted i s))\<lparr>l_IoPending_B := True\<rparr> else start_operation i (accepted i s))"
proof -
  have "accepted i s = s\<lparr>l_Result_X := (OPERATION_RESULT_Reset (l_Result_X s))
      \<lparr>Sts_E := BOF_ERR_NO_ERROR, res_Operation_E := Operation_E (mCurrentOp_X s),
       OpTicket_U32 := Ticket_U32 (mCurrentOp_X s), Time_U32 := ti_elapsed_cmd i\<rparr>,
    mCurrentOp_X := (mCurrentOp_X s)\<lparr>Timer_U32 := ti_now_cmd i\<rparr>, mOperationPending_B := True, l_SendResult_B := True\<rparr>"
    by (simp add: accepted_def OPERATION_RESULT_Reset_def)
  then show ?thesis using assms by (simp add: start_command_def Let_def)
qed

lemma start_command_ignores: "\<not> l_NewCommandRcv_B s \<Longrightarrow> start_command i s = s"
  "l_IoPending_B s \<Longrightarrow> \<not> l_ListeningMode_B s \<Longrightarrow> start_command i s = s"
  by (simp_all add: start_command_def)

lemma check_pending_idle: "\<not> l_IoPending_B s \<Longrightarrow> check_pending i s = s"
  by (simp add: check_pending_def)

lemma do_cancel_idle: "\<not> mCancel_B s \<Longrightarrow> do_cancel s = s"
  by (simp add: do_cancel_def)

lemma pop_without_context:
  "\<not> mpLwsContext_X s \<Longrightarrow> ti_pop i = Some op \<Longrightarrow> pop_command i s = s\<lparr>mCurrentOp_X := op, l_NewCommandRcv_B := True\<rparr>"
  by (simp add: pop_command_def)

lemma pop_quiet:
  "ti_calls i = [] \<Longrightarrow> mpLwsContext_X s \<Longrightarrow> ti_pop i = Some op \<Longrightarrow>
     pop_command i s = s\<lparr>mCurrentOp_X := op, l_NewCommandRcv_B := True\<rparr>"
  "ti_calls i = [] \<Longrightarrow> mpLwsContext_X s \<Longrightarrow> ti_pop i = None \<Longrightarrow> pop_command i s = s\<lparr>l_NewCommandRcv_B := False\<rparr>"
  by (simp_all add: pop_command_def)

lemma send_result_simps:
  "l_SendResult_B s \<Longrightarrow> ws_trace (send_result i s) =
     ws_trace s @ answer i s (mCurrentOp_X s) ((l_Result_X s)\<lparr>Time_U32 := ti_elapsed_send i\<rparr>)"
  "\<not> l_SendResult_B s \<Longrightarrow> send_result i s = s"
  "l_IoPending_B (send_result i s) = l_IoPending_B s" "mpLwsContext_X (send_result i s) = mpLwsContext_X s"
  "l_Rts_E (send_result i s) = l_Rts_E s" "l_ListeningMode_B (send_result i s) = l_ListeningMode_B s"
  "mWebSocketState_X (send_result i s) = mWebSocketState_X s" "is_server (send_result i s) = is_server s"
  "mCurrentOp_X (send_result i s) = mCurrentOp_X s" "mCancel_B (send_result i s) = mCancel_B s"
  "\<not> l_SendResult_B (send_result i s)" "mWebSocketParam_X (send_result i s) = mWebSocketParam_X s"
  by (simp_all add: send_result_def answer_def Let_def)

lemma pop_command_simps [simp]:
  "l_Rts_E (pop_command i s) = l_Rts_E s" "l_Result_X (pop_command i s) = l_Result_X s"
  "l_SendResult_B (pop_command i s) = l_SendResult_B s" "l_IoPending_B (pop_command i s) = l_IoPending_B s"
  "l_ListeningMode_B (pop_command i s) = l_ListeningMode_B s" "mCancel_B (pop_command i s) = mCancel_B s"
  "l_ListenTicketId_U32 (pop_command i s) = l_ListenTicketId_U32 s"
  "mWebSocketParam_X (pop_command i s) = mWebSocketParam_X s"
  "l_NewCommandRcv_B (pop_command i s) \<longleftrightarrow> ti_pop i \<noteq> None"
  "ti_pop i = Some op \<Longrightarrow> mCurrentOp_X (pop_command i s) = op"
  by (simp_all add: pop_command_def Let_def split: option.split)

lemma is_server_same: "mWebSocketParam_X s' = mWebSocketParam_X s \<Longrightarrow> is_server s' = is_server s"
  by (simp add: is_server_def)

lemma pop_command_server [simp]: "is_server (pop_command i s) = is_server s"
  by (rule is_server_same) simp

lemma start_cancel:
  "mCancel_B (start_listen i s) = mCancel_B s" "mCancel_B (start_connect i s) = mCancel_B s"
  "mCancel_B (start_disconnect s) = mCancel_B s" "mCancel_B (start_exit s) = mCancel_B s"
  "mCancel_B (start_read s) = mCancel_B s" "mCancel_B (start_write i s) = mCancel_B s"
  by (simp_all add: start_defs Let_def)

lemma start_param:
  "mWebSocketParam_X (start_listen i s) = mWebSocketParam_X s" "mWebSocketParam_X (start_connect i s) = mWebSocketParam_X s"
  "mWebSocketParam_X (start_disconnect s) = mWebSocketParam_X s" "mWebSocketParam_X (start_exit s) = mWebSocketParam_X s"
  "mWebSocketParam_X (start_read s) = mWebSocketParam_X s" "mWebSocketParam_X (start_write i s) = mWebSocketParam_X s"
  by (simp_all add: start_defs Let_def)

lemma start_listening:
  "l_ListeningMode_B s \<Longrightarrow> l_ListeningMode_B (start_listen i s)"
  "l_ListeningMode_B (start_connect i s) = l_ListeningMode_B s"
  "l_ListeningMode_B (start_disconnect s) = l_ListeningMode_B s" "l_ListeningMode_B (start_exit s) = l_ListeningMode_B s"
  "l_ListeningMode_B (start_read s) = l_ListeningMode_B s" "l_ListeningMode_B (start_write i s) = l_ListeningMode_B s"
  by (simp_all add: start_defs Let_def)

lemma start_operation_frame [simp]:
  "mCancel_B (start_operation i s) = mCancel_B s" "mWebSocketParam_X (start_operation i s) = mWebSocketParam_X s"
  "l_ListeningMode_B s \<Longrightarrow> l_ListeningMode_B (start_operation i s)"
  by (simp_all add: start_operation_def start_cancel start_param start_listening split: operation.split)

lemma start_command_frame [simp]:
  "mCancel_B (start_command i s) = mCancel_B s" "mWebSocketParam_X (start_command i s) = mWebSocketParam_X s"
  "l_ListeningMode_B s \<Longrightarrow> l_ListeningMode_B (start_command i s)"
  by (simp_all add: start_command_def Let_def)

lemma pending_switch_simps [simp]:
  "mCancel_B (pending_switch i s) = mCancel_B s" "mWebSocketParam_X (pending_switch i s) = mWebSocketParam_X s"
  "l_ListeningMode_B (pending_switch i s) = l_ListeningMode_B s" "l_Rts_E (pending_switch i s) = l_Rts_E s"
  "mpLwsContext_X (pending_switch i s) = mpLwsContext_X s"
  by (simp_all add: pending_switch_def Let_def split: operation.split prod.split)

lemma pending_timeout_simps [simp]:
  "mCancel_B (pending_timeout i s) = mCancel_B s" "mWebSocketParam_X (pending_timeout i s) = mWebSocketParam_X s"
  "l_ListeningMode_B (pending_timeout i s) = l_ListeningMode_B s" "l_Rts_E (pending_timeout i s) = l_Rts_E s"
  by (simp_all add: pending_timeout_def Let_def)

lemma check_pending_simps [simp]:
  "mCancel_B (check_pending i s) = mCancel_B s" "mWebSocketParam_X (check_pending i s) = mWebSocketParam_X s"
  "l_ListeningMode_B (check_pending i s) = l_ListeningMode_B s" "l_Rts_E (check_pending i s) = l_Rts_E s"
  by (simp_all add: check_pending_def)

lemma do_cancel_simps [simp]:
  "mWebSocketParam_X (do_cancel s) = mWebSocketParam_X s" "l_ListeningMode_B (do_cancel s) = l_ListeningMode_B s"
  "l_Rts_E (do_cancel s) = l_Rts_E s"
  by (simp_all add: do_cancel_def Let_def)

text \<open>A command refused is answered at once, and nothing is left pending.\<close>

lemma refused_start:
  assumes "disconnected s" "refusal (mCurrentOp_X s) = Some e"
  shows "l_Result_X (start_operation i (accepted i s)) = (l_Result_X (accepted i s))\<lparr>Sts_E := e\<rparr>"
    "ws_trace (start_operation i (accepted i s)) = ws_trace s"
    "mCurrentOp_X (start_operation i (accepted i s)) = mCurrentOp_X (accepted i s)"
    "mWebSocketParam_X (start_operation i (accepted i s)) = mWebSocketParam_X s"
    "\<not> mpLwsContext_X (start_operation i (accepted i s))" "\<not> mCancel_B (start_operation i (accepted i s))"
    "l_Rts_E (start_operation i (accepted i s)) = (if Operation_E (mCurrentOp_X s) = OPERATION_EXIT then BOF_ERR_CANCEL else l_Rts_E s)"
    "e \<noteq> BOF_ERR_NO_ERROR"
  using assms by (cases "Operation_E (mCurrentOp_X s)";
    simp add: start_operation_def start_defs disconnected_def refusal_def io_ready_def Let_def split: if_split_asm)+

text \<open>C23. A disconnected client answers every command it cannot accept at once, with one result that has
  the command's ticket and the status of the refusal, and stays idle without a context.\<close>

theorem refused_command_is_answered:
  assumes "disconnected s" "ti_pop i = Some op" "refusal op = Some e"
  shows "ws_trace (process_turn i s) = ws_trace s @
      answer i s op \<lparr>res_Operation_E = Operation_E op, OpTicket_U32 = Ticket_U32 op, Sts_E = e,
        Size_U32 = 0, res_pBuffer_U8 = NullBuffer, Time_U32 = ti_elapsed_send i\<rparr> \<and>
    \<not> l_IoPending_B (process_turn i s) \<and> mpLwsContext_X (process_turn i s) = False"
proof -
  let ?s1 = "s\<lparr>mCurrentOp_X := op, l_NewCommandRcv_B := True\<rparr>"
  let ?s2 = "start_operation i (accepted i ?s1)"
  have d: "disconnected ?s1" using assms(1) by (simp add: disconnected_def is_server_def)
  have p: "pop_command i s = ?s1" using assms(1,2) by (simp add: pop_without_context disconnected_def)
  have r: "refusal (mCurrentOp_X ?s1) = Some e" using assms(3) by simp
  note f = refused_start [OF d r]
  have fl: "\<not> l_IoPending_B ?s2" "l_SendResult_B ?s2"
    using d by (simp_all add: start_operation_flags disconnected_def)
  have "start_command i ?s1 = ?s2"
    using d f(1,8) by (simp add: start_command_accepts disconnected_def)
  then have "process_turn i s = send_result i ?s2"
    using p f(6) fl by (simp add: process_turn_def check_pending_idle do_cancel_idle)
  then show ?thesis
    using f fl by (simp add: send_result_simps answer_def)
qed

theorem refused_command_is_answered_witness:
  "ws_trace (process_turn (quiet_turn\<lparr>ti_pop := Some (sample_op OPERATION_READ (Read_X \<lparr>Nb_U32 = 3, io_pBuffer_U8 = 9\<rparr>))\<rparr>)
     (sample_engine 0)) =
   [EvResultPush \<lparr>res_Operation_E = OPERATION_READ, OpTicket_U32 = 1, Sts_E = BOF_ERR_ENOTCONN, Size_U32 = 0,
      res_pBuffer_U8 = NullBuffer, Time_U32 = 0\<rparr> BOF_ERR_NO_ERROR,
    EvOnOperation OPERATION_READ 1 0 NullBuffer BOF_ERR_NO_ERROR]"
  using refused_command_is_answered [of "sample_engine 0"
      "quiet_turn\<lparr>ti_pop := Some (sample_op OPERATION_READ (Read_X \<lparr>Nb_U32 = 3, io_pBuffer_U8 = 9\<rparr>))\<rparr>"
      "sample_op OPERATION_READ (Read_X \<lparr>Nb_U32 = 3, io_pBuffer_U8 = 9\<rparr>)" BOF_ERR_ENOTCONN]
  by (simp add: sample_defs disconnected_def refusal_def answer_def)

section \<open>Cancellation and exit\<close>

lemma cancelled_turn:
  assumes "mCancel_B s"
  shows "process_turn i s = do_cancel (check_pending i (start_command i (pop_command i s)))"
proof -
  have "\<not> l_SendResult_B (do_cancel (check_pending i (start_command i (pop_command i s))))"
    using assms by (simp add: do_cancel_def Let_def)
  then show ?thesis by (simp add: process_turn_def send_result_simps(2))
qed

text \<open>C27. A cancellation ends the pending operation without a result, whatever it is, and empties the
  queues; the listening mode survives it.\<close>

theorem cancel_drops_everything:
  assumes "mCancel_B s"
  shows "\<not> mCancel_B (process_turn i s) \<and> \<not> mOperationPending_B (process_turn i s) \<and>
    \<not> l_IoPending_B (process_turn i s) \<and> \<not> l_SendResult_B (process_turn i s) \<and>
    mWebSocketState_X (process_turn i s) = \<lparr>ConnectDone_B = False, pWebSocket_X = None\<rparr> \<and>
    Operation_E (mCurrentOp_X (process_turn i s)) = OPERATION_MAX \<and>
    mNbRxByServer_U64 (process_turn i s) = 0 \<and> mNbTxByServer_U64 (process_turn i s) = 0 \<and>
    (\<exists>es. ws_trace (process_turn i s) =
       es @ [EvCmdReset, EvResultReset, EvWriteReset, EvRxReset, EvCancelSignal]) \<and>
    (l_ListeningMode_B s \<longrightarrow> l_ListeningMode_B (process_turn i s))"
  using assms
  by (simp add: cancelled_turn do_cancel_def Let_def OPERATION_PARAM_Reset_def SESSION_Reset_def)

text \<open>A CONNECT is pending when the cancellation comes.\<close>

theorem cancel_drops_everything_witness:
  "\<exists>s. s = process_turn (quiet_turn\<lparr>ti_pop := Some (sample_op OPERATION_CONNECT sample_connect)\<rparr>) (sample_engine 0) \<and>
     l_IoPending_B s \<and> mpLwsContext_X s \<and> Operation_E (mCurrentOp_X s) = OPERATION_CONNECT \<and>
     \<not> l_IoPending_B (process_turn quiet_turn (s\<lparr>mCancel_B := True\<rparr>)) \<and>
     Operation_E (mCurrentOp_X (process_turn quiet_turn (s\<lparr>mCancel_B := True\<rparr>))) = OPERATION_MAX"
proof -
  let ?s = "process_turn (quiet_turn\<lparr>ti_pop := Some (sample_op OPERATION_CONNECT sample_connect)\<rparr>) (sample_engine 0)"
  have "l_IoPending_B ?s" "mpLwsContext_X ?s" "Operation_E (mCurrentOp_X ?s) = OPERATION_CONNECT" by code_simp+
  then show ?thesis using cancel_drops_everything [of "?s\<lparr>mCancel_B := True\<rparr>" quiet_turn] by simp
qed

text \<open>A server that listens cannot be told to listen again.\<close>

lemma relisten_turn:
  assumes "is_server s" "l_ListeningMode_B s" "\<not> l_IoPending_B s" "\<not> mCancel_B s"
    "ti_pop i = Some op" "Operation_E op = OPERATION_LISTEN"
  shows "\<exists>es. ws_trace (process_turn i s) = es @ answer i s op
      \<lparr>res_Operation_E = OPERATION_LISTEN, OpTicket_U32 = Ticket_U32 op, Sts_E = BOF_ERR_INVALID_STATE,
       Size_U32 = 0, res_pBuffer_U8 = NullBuffer, Time_U32 = ti_elapsed_send i\<rparr>"
proof -
  let ?s1 = "pop_command i s"
  let ?s2 = "set_status BOF_ERR_INVALID_STATE (accepted i ?s1)"
  have "start_operation i (accepted i ?s1) = ?s2"
    using assms by (simp add: start_operation_def start_listen_def)
  then have "start_command i ?s1 = ?s2" using assms by (simp add: start_command_accepts)
  then have "process_turn i s = send_result i ?s2"
    using assms by (simp add: process_turn_def check_pending_idle do_cancel_idle)
  then show ?thesis using assms by (simp add: send_result_simps answer_def)
qed

text \<open>After a cancellation a listening server can not be made to listen again: the next LISTEN is
  answered with an invalid state, though nothing is pending.\<close>

theorem relisten_after_cancel_is_refused:
  assumes "mCancel_B s" "is_server s" "l_ListeningMode_B s"
    "ti_pop i' = Some op" "Operation_E op = OPERATION_LISTEN"
  shows "\<exists>es. ws_trace (process_turn i' (process_turn i s)) = es @ answer i' s op
      \<lparr>res_Operation_E = OPERATION_LISTEN, OpTicket_U32 = Ticket_U32 op, Sts_E = BOF_ERR_INVALID_STATE,
       Size_U32 = 0, res_pBuffer_U8 = NullBuffer, Time_U32 = ti_elapsed_send i'\<rparr>"
proof -
  let ?s' = "process_turn i s"
  have p: "mWebSocketParam_X ?s' = mWebSocketParam_X s" using assms(1) by (simp add: cancelled_turn)
  have "is_server ?s'" "l_ListeningMode_B ?s'" "\<not> l_IoPending_B ?s'" "\<not> mCancel_B ?s'"
    using assms p by (simp_all add: is_server_def cancelled_turn do_cancel_def Let_def)
  from relisten_turn [OF this assms(4,5)] p show ?thesis by (simp add: answer_def)
qed

theorem relisten_after_cancel_is_refused_witness:
  "\<exists>es. ws_trace (process_turn
      (quiet_turn\<lparr>ti_pop := Some (sample_op OPERATION_LISTEN (Listen_X \<lparr>SrcIpAddr_X = 0, SrcPort_U16 = 0, li_NbMaxClient_U32 = 4\<rparr>))\<rparr>)
      (process_turn quiet_turn ((sample_engine 4)\<lparr>mCancel_B := True, l_ListeningMode_B := True\<rparr>))) =
    es @ [EvResultPush \<lparr>res_Operation_E = OPERATION_LISTEN, OpTicket_U32 = 1, Sts_E = BOF_ERR_INVALID_STATE,
       Size_U32 = 0, res_pBuffer_U8 = NullBuffer, Time_U32 = 0\<rparr> BOF_ERR_NO_ERROR,
     EvOnOperation OPERATION_LISTEN 1 0 NullBuffer BOF_ERR_NO_ERROR]"
  using relisten_after_cancel_is_refused [of "(sample_engine 4)\<lparr>mCancel_B := True, l_ListeningMode_B := True\<rparr>"
      "quiet_turn\<lparr>ti_pop := Some (sample_op OPERATION_LISTEN (Listen_X \<lparr>SrcIpAddr_X = 0, SrcPort_U16 = 0, li_NbMaxClient_U32 = 4\<rparr>))\<rparr>"
      "sample_op OPERATION_LISTEN (Listen_X \<lparr>SrcIpAddr_X = 0, SrcPort_U16 = 0, li_NbMaxClient_U32 = 4\<rparr>)" quiet_turn]
  by (simp add: sample_defs answer_def)

text \<open>C28. An EXIT popped while the thread can start commands ends the thread with the cancel status and
  the connection dropped.\<close>

theorem exit_ends_the_thread:
  assumes "\<not> l_IoPending_B s \<or> l_ListeningMode_B s" "ti_pop i = Some op" "Operation_E op = OPERATION_EXIT"
  shows "V_OnProcessing (i # is) s = Some (BOF_ERR_CANCEL, LWS_CLIENT_DISCONNECT (process_turn i s))"
proof -
  have "l_Rts_E (start_command i (pop_command i s)) = BOF_ERR_CANCEL"
    using assms by (simp add: start_command_accepts start_operation_def start_exit_def)
  then have "l_Rts_E (process_turn i s) = BOF_ERR_CANCEL"
    by (simp add: process_turn_def send_result_simps)
  then show ?thesis by (simp add: loop_goes_on_def Let_def)
qed



theorem exit_ends_the_thread_witness:
  "V_OnProcessing [quiet_turn\<lparr>ti_pop := Some (sample_op OPERATION_EXIT (Exit_X \<lparr>ex_Unused_U32 = 0\<rparr>))\<rparr>] (sample_engine 0) =
   Some (BOF_ERR_CANCEL, LWS_CLIENT_DISCONNECT (process_turn
     (quiet_turn\<lparr>ti_pop := Some (sample_op OPERATION_EXIT (Exit_X \<lparr>ex_Unused_U32 = 0\<rparr>))\<rparr>) (sample_engine 0)))"
  using exit_ends_the_thread [of "sample_engine 0"
      "quiet_turn\<lparr>ti_pop := Some (sample_op OPERATION_EXIT (Exit_X \<lparr>ex_Unused_U32 = 0\<rparr>))\<rparr>"
      "sample_op OPERATION_EXIT (Exit_X \<lparr>ex_Unused_U32 = 0\<rparr>)" "[]"]
  by (simp add: sample_defs)

end
