(* ===== verification/WsConnection.thy ===== *)
theory WsConnection
  imports WsCommands
begin

text \<open>
  Connections of the engine: how a client's CONNECT ends (established, refused, timed out), how a server
  reports its clients, and the commands that are lost or misread while an operation is pending.
\<close>

section \<open>Turns with an operation pending\<close>

text \<open>The turn after its service, when no command can be started in it.\<close>

lemma turn_without_start:
  assumes "ti_pop i = None \<or> l_IoPending_B s \<and> \<not> l_ListeningMode_B s" "\<not> mCancel_B s"
  shows "process_turn i s = send_result i (check_pending i (pop_command i s))"
proof -
  have "start_command i (pop_command i s) = pop_command i s"
    using assms(1) by (auto intro: start_command_ignores)
  then show ?thesis using assms(2) by (simp add: process_turn_def do_cancel_idle)
qed

text \<open>Several turns.\<close>

definition run_turns :: "turn_in list \<Rightarrow> engine \<Rightarrow> engine" where
  "run_turns = fold process_turn"

lemma run_turns_simps [simp]:
  "run_turns [] s = s" "run_turns (i # is) s = run_turns is (process_turn i s)"
  by (simp_all add: run_turns_def)

lemma pop_nothing:
  "mpLwsContext_X s \<Longrightarrow> ti_pop i = None \<Longrightarrow> pop_command i s = (serve (ti_calls i) s)\<lparr>l_NewCommandRcv_B := False\<rparr>"
  "mpLwsContext_X s \<Longrightarrow> ti_pop i = Some op \<Longrightarrow>
     pop_command i s = (serve (ti_calls i) s)\<lparr>mCurrentOp_X := op, l_NewCommandRcv_B := True\<rparr>"
  by (simp_all add: pop_command_def)

text \<open>The end of the check: in time, too late.\<close>

lemma in_time:
  assumes "l_ListeningMode_B s \<or> Operation_E (mCurrentOp_X s) = OPERATION_WRITE \<or>
    ti_elapsed_io i \<le> TimeOut_U32 (mCurrentOp_X s)"
  shows "pending_timeout i s = s\<lparr>l_Result_X := (l_Result_X s)\<lparr>Time_U32 := ti_elapsed_io i\<rparr>\<rparr>"
  using assms by (auto simp: pending_timeout_def Let_def not_less)

lemma too_late:
  assumes "\<not> l_ListeningMode_B s" "Operation_E (mCurrentOp_X s) \<noteq> OPERATION_WRITE"
    "TimeOut_U32 (mCurrentOp_X s) < ti_elapsed_io i"
  shows "pending_timeout i s =
    (set_status BOF_ERR_ETIMEDOUT
      (if Operation_E (mCurrentOp_X s) = OPERATION_CONNECT
       then LWS_CLIENT_DISCONNECT (s\<lparr>l_Result_X := (l_Result_X s)\<lparr>Time_U32 := ti_elapsed_io i\<rparr>\<rparr>)
       else s\<lparr>l_Result_X := (l_Result_X s)\<lparr>Time_U32 := ti_elapsed_io i\<rparr>\<rparr>))\<lparr>l_SendResult_B := True, l_IoPending_B := False\<rparr>"
  using assms by (simp add: pending_timeout_def Let_def)

lemma check_pending_busy:
  "l_IoPending_B s \<Longrightarrow> check_pending i s = pending_timeout i (pending_switch i (s\<lparr>l_SendResult_B := False\<rparr>))"
  by (simp add: check_pending_def)

text \<open>The operation that is pending on a client.\<close>

lemma answer_param: "mWebSocketParam_X s' = mWebSocketParam_X s \<Longrightarrow> answer i s' op r = answer i s op r"
  by (simp add: answer_def)

definition pending_client :: "operation \<Rightarrow> engine \<Rightarrow> bool" where
  "pending_client op s \<longleftrightarrow> mpLwsContext_X s \<and> l_IoPending_B s \<and> \<not> l_ListeningMode_B s \<and> \<not> mCancel_B s \<and>
     Operation_E (mCurrentOp_X s) = op"

section \<open>A connection is established\<close>

text \<open>Whatever else was served in the turn, the flag \<open>ConnectDone_B\<close> decides.\<close>

lemma connect_done_turn:
  assumes "pending_client OPERATION_CONNECT s" "ti_pop i = None"
    and "ConnectDone_B (mWebSocketState_X (serve (ti_calls i) s))"
    and "ti_elapsed_io i \<le> TimeOut_U32 (mCurrentOp_X s)"
  shows "ws_trace (process_turn i s) = ws_trace (serve (ti_calls i) s) @
      answer i s (mCurrentOp_X s) ((l_Result_X s)\<lparr>Sts_E := BOF_ERR_NO_ERROR, Time_U32 := ti_elapsed_send i\<rparr>) \<and>
    \<not> l_IoPending_B (process_turn i s) \<and>
    mWebSocketState_X (process_turn i s) = mWebSocketState_X (serve (ti_calls i) s) \<and>
    mpLwsContext_X (process_turn i s) = mpLwsContext_X (serve (ti_calls i) s)"
proof -
  let ?s1 = "(serve (ti_calls i) s)\<lparr>l_NewCommandRcv_B := False\<rparr>"
  have c: "check_pending i ?s1 = ?s1\<lparr>l_SendResult_B := True, l_IoPending_B := False,
      l_Result_X := (l_Result_X s)\<lparr>Sts_E := BOF_ERR_NO_ERROR, Time_U32 := ti_elapsed_io i\<rparr>\<rparr>"
    using assms by (simp add: check_pending_busy pending_client_def pending_switch_def in_time set_status_def)
  have "process_turn i s = send_result i (check_pending i ?s1)"
    using assms(1,2) by (simp add: turn_without_start pop_nothing pending_client_def)
  then show ?thesis unfolding c by (simp add: send_result_simps answer_def)
qed

text \<open>The callback of an established client connection.\<close>

definition established_call :: "nat \<Rightarrow> lws_call \<Rightarrow> bool" where
  "established_call wsi cl \<longleftrightarrow> lc_wsi cl = Some wsi \<and> lc_reason cl = LWS_CALLBACK_CLIENT_ESTABLISHED \<and>
     0 \<le> lc_socket_fd cl \<and> lc_socket_sts cl = BOF_ERR_NO_ERROR"

lemma send_reply_members [simp]:
  "mWebSocketState_X (send_reply wsi cl s) = mWebSocketState_X s" "mpLwsContext_X (send_reply wsi cl s) = mpLwsContext_X s"
  "mClientCollection (send_reply wsi cl s) = mClientCollection s"
  "mWebSocketParam_X (send_reply wsi cl s) = mWebSocketParam_X s"
  by (simp_all add: send_reply_def split: option.split)

lemma bof_assert_members [simp]:
  "mWebSocketState_X (bof_assert b s) = mWebSocketState_X s" "mpLwsContext_X (bof_assert b s) = mpLwsContext_X s"
  "mClientCollection (bof_assert b s) = mClientCollection s" "mWebSocketParam_X (bof_assert b s) = mWebSocketParam_X s"
  by (simp_all add: bof_assert_def)

lemma cb_events_members [simp]:
  "mWebSocketState_X (cb_events wsi cl s) = mWebSocketState_X s" "mpLwsContext_X (cb_events wsi cl s) = mpLwsContext_X s"
  "mClientCollection (cb_events wsi cl s) = mClientCollection s"
  "mWebSocketParam_X (cb_events wsi cl s) = mWebSocketParam_X s"
  by (simp_all add: cb_events_def Let_def)

lemma call_OnOpen_members [simp]:
  "mWebSocketState_X (call_OnOpen s) = mWebSocketState_X s" "mpLwsContext_X (call_OnOpen s) = mpLwsContext_X s"
  "mClientCollection (call_OnOpen s) = mClientCollection s" "mWebSocketParam_X (call_OnOpen s) = mWebSocketParam_X s"
  by (simp_all add: call_OnOpen_def)

lemma established_callback:
  assumes "established_call wsi cl"
  shows "mWebSocketState_X (snd (snd (LwsCallback cl s))) = (mWebSocketState_X s)\<lparr>ConnectDone_B := True\<rparr>"
    "mpLwsContext_X (snd (snd (LwsCallback cl s))) = mpLwsContext_X s"
  using assms by (simp_all add: LwsCallback_def cb_first_def cb_client_established_def cb_second_def
      SetSocketBufferSize_def established_call_def Let_def split_def)

text \<open>When libwebsockets establishes the connection a CONNECT waits for, in time, the same turn answers
  the CONNECT without error and with its ticket, and the client is connected.\<close>

theorem established_connection_is_reported:
  assumes "pending_client OPERATION_CONNECT s" "ti_pop i = None" "ti_calls i = [cl]" "established_call wsi cl"
    and "ti_elapsed_io i \<le> TimeOut_U32 (mCurrentOp_X s)"
  shows "EvResultPush ((l_Result_X s)\<lparr>Sts_E := BOF_ERR_NO_ERROR, Time_U32 := ti_elapsed_send i\<rparr>) (ti_result_push i)
      \<in> set (ws_trace (process_turn i s)) \<and>
    \<not> l_IoPending_B (process_turn i s) \<and> mpLwsContext_X (process_turn i s) \<and>
    ConnectDone_B (mWebSocketState_X (process_turn i s)) \<and>
    pWebSocket_X (mWebSocketState_X (process_turn i s)) = pWebSocket_X (mWebSocketState_X s)"
proof -
  have v: "serve (ti_calls i) s = snd (snd (LwsCallback cl s))" using assms(3) by simp
  from connect_done_turn [OF assms(1,2) _ assms(5)] assms(1) show ?thesis
    unfolding v established_callback [OF assms(4)] by (auto simp: answer_def pending_client_def)
qed

theorem established_connection_is_reported_witness:
  "EvResultPush (new_result\<lparr>Sts_E := BOF_ERR_NO_ERROR\<rparr>) BOF_ERR_NO_ERROR \<in> set (ws_trace
     (process_turn (quiet_turn\<lparr>ti_calls := [sample_call LWS_CALLBACK_CLIENT_ESTABLISHED]\<rparr>) sample_connecting))"
  using established_connection_is_reported [of sample_connecting
      "quiet_turn\<lparr>ti_calls := [sample_call LWS_CALLBACK_CLIENT_ESTABLISHED]\<rparr>"
      "sample_call LWS_CALLBACK_CLIENT_ESTABLISHED" 5]
  by (simp add: sample_defs pending_client_def established_call_def new_result_def)

section \<open>A connection times out\<close>

text \<open>A CONNECT that is not established within its timeout is answered with a timeout; the context
  is destroyed, and the client can connect again.\<close>

theorem connect_times_out:
  assumes "pending_client OPERATION_CONNECT s" "ti_pop i = None" "ti_calls i = []" "\<not> is_server s"
    and "\<not> ConnectDone_B (mWebSocketState_X s)" "TimeOut_U32 (mCurrentOp_X s) < ti_elapsed_io i"
  shows "ws_trace (process_turn i s) = ws_trace s @ [EvDestroyContext, EvRxReset] @
      answer i s (mCurrentOp_X s) ((l_Result_X s)\<lparr>Sts_E := BOF_ERR_ETIMEDOUT, Time_U32 := ti_elapsed_send i\<rparr>) \<and>
    disconnected (process_turn i s)"
proof -
  let ?s1 = "s\<lparr>l_NewCommandRcv_B := False\<rparr>"
  let ?s2 = "check_pending i ?s1"
  have p: "process_turn i s = send_result i ?s2"
    using assms(1-3) by (simp add: turn_without_start pop_nothing pending_client_def)
  have d: "pending_switch i (?s1\<lparr>l_SendResult_B := False\<rparr>) = ?s1\<lparr>l_SendResult_B := False\<rparr>"
    using assms by (simp add: pending_switch_def pending_client_def)
  have e: "?s2 = (set_status BOF_ERR_ETIMEDOUT (LWS_CLIENT_DISCONNECT
      (?s1\<lparr>l_SendResult_B := False, l_Result_X := (l_Result_X s)\<lparr>Time_U32 := ti_elapsed_io i\<rparr>\<rparr>)))
      \<lparr>l_SendResult_B := True, l_IoPending_B := False\<rparr>"
    using assms(1,6) by (simp add: check_pending_busy d too_late pending_client_def)
  have c: "l_SendResult_B ?s2" "\<not> l_IoPending_B ?s2" "\<not> l_ListeningMode_B ?s2" "\<not> mCancel_B ?s2"
      "mCurrentOp_X ?s2 = mCurrentOp_X s" "\<not> mpLwsContext_X ?s2"
      "mWebSocketState_X ?s2 = \<lparr>ConnectDone_B = False, pWebSocket_X = None\<rparr>" "mWebSocketParam_X ?s2 = mWebSocketParam_X s"
      "l_Result_X ?s2 = (l_Result_X s)\<lparr>Sts_E := BOF_ERR_ETIMEDOUT, Time_U32 := ti_elapsed_io i\<rparr>"
      "ws_trace ?s2 = ws_trace s @ [EvDestroyContext, EvRxReset]"
    unfolding e using assms(1) by (simp_all add: pending_client_def)
  show ?thesis
    unfolding p using c assms(4) is_server_same [OF c(8)]
    by (simp add: send_result_simps answer_def disconnected_def)
qed

theorem connect_times_out_witness:
  "disconnected (process_turn (quiet_turn\<lparr>ti_elapsed_io := 101\<rparr>) sample_connecting)"
  using connect_times_out [of sample_connecting "quiet_turn\<lparr>ti_elapsed_io := 101\<rparr>"]
  by (simp add: sample_defs pending_client_def)

section \<open>The connection fails\<close>

text \<open>The callback of a failed client connection drops the context under the operation that waits for it.\<close>

definition failed_call :: "nat \<Rightarrow> lws_call \<Rightarrow> bool" where
  "failed_call wsi cl \<longleftrightarrow> lc_wsi cl = Some wsi \<and> lc_reason cl = LWS_CALLBACK_CLIENT_CONNECTION_ERROR"

lemma failed_callback:
  assumes "failed_call wsi cl"
  shows "mpLwsContext_X (snd (snd (LwsCallback cl s))) = False"
    "mWebSocketState_X (snd (snd (LwsCallback cl s))) = \<lparr>ConnectDone_B = False, pWebSocket_X = None\<rparr>"
  using assms by (simp_all add: LwsCallback_def cb_first_def cb_second_def failed_call_def Let_def split_def)

text \<open>A turn without a context forgets the operation in progress, and answers it as out of time.\<close>

lemma forgotten_turn:
  assumes "\<not> mpLwsContext_X s" "l_IoPending_B s" "\<not> l_ListeningMode_B s" "\<not> mCancel_B s"
    "ti_pop i = None" "0 < ti_elapsed_io i"
  shows "ws_trace (process_turn i s) = ws_trace s @ answer i s (OPERATION_PARAM_Reset (mCurrentOp_X s))
      ((l_Result_X s)\<lparr>Sts_E := BOF_ERR_ETIMEDOUT, Time_U32 := ti_elapsed_send i\<rparr>) \<and>
    \<not> l_IoPending_B (process_turn i s)"
proof -
  let ?s1 = "s\<lparr>mCurrentOp_X := OPERATION_PARAM_Reset (mCurrentOp_X s), l_NewCommandRcv_B := False\<rparr>"
  let ?s2 = "check_pending i ?s1"
  have p: "process_turn i s = send_result i ?s2"
    using assms by (simp add: turn_without_start pop_command_def)
  have e: "?s2 = (set_status BOF_ERR_ETIMEDOUT
      (?s1\<lparr>l_SendResult_B := False, l_IoPending_B := False,
         l_Result_X := (l_Result_X s)\<lparr>Sts_E := BOF_ERR_BAD_ID, Time_U32 := ti_elapsed_io i\<rparr>\<rparr>))\<lparr>l_SendResult_B := True\<rparr>"
    using assms by (simp add: check_pending_busy pending_switch_def too_late OPERATION_PARAM_Reset_def set_status_def)
  show ?thesis unfolding p e by (simp add: send_result_simps answer_def)
qed

text \<open>C36. A connection that fails is not reported as such: the failing turn says nothing, the next one
  answers the CONNECT as timed out, whatever its timeout, and \<open>OnOperation\<close> is told of an operation
  \<open>OPERATION_MAX\<close> with ticket zero.\<close>

theorem failed_connection_is_reported_as_timeout:
  assumes "pending_client OPERATION_CONNECT s" "ti_pop i = None" "ti_calls i = [cl]" "failed_call wsi cl"
    and "ti_elapsed_io i \<le> TimeOut_U32 (mCurrentOp_X s)" "ti_pop i' = None" "0 < ti_elapsed_io i'"
  shows "ws_trace (process_turn i s) = ws_trace (serve (ti_calls i) s) \<and>
    ws_trace (process_turn i' (process_turn i s)) = ws_trace (process_turn i s) @
       EvResultPush ((l_Result_X s)\<lparr>Sts_E := BOF_ERR_ETIMEDOUT, Time_U32 := ti_elapsed_send i'\<rparr>) (ti_result_push i') #
       (if OnOperation (mWebSocketParam_X s)
        then [EvOnOperation OPERATION_MAX 0 (Size_U32 (l_Result_X s)) (res_pBuffer_U8 (l_Result_X s)) (ti_result_push i')]
        else [])"
proof -
  let ?t = "serve (ti_calls i) s"
  let ?s1 = "?t\<lparr>l_NewCommandRcv_B := False\<rparr>"
  let ?s' = "process_turn i s"
  have v: "\<not> mpLwsContext_X ?t" "\<not> ConnectDone_B (mWebSocketState_X ?t)"
    using assms(3) by (simp_all add: failed_callback [OF assms(4)])
  have "check_pending i ?s1 = ?s1\<lparr>l_SendResult_B := False, l_Result_X := (l_Result_X s)\<lparr>Time_U32 := ti_elapsed_io i\<rparr>\<rparr>"
    using assms(1,5) v(2) by (simp add: check_pending_busy pending_switch_def in_time pending_client_def)
  then have p: "?s' = ?s1\<lparr>l_SendResult_B := False, l_Result_X := (l_Result_X s)\<lparr>Time_U32 := ti_elapsed_io i\<rparr>\<rparr>"
    using assms(1,2) by (simp add: turn_without_start pop_nothing pending_client_def send_result_simps(2))
  have "\<not> mpLwsContext_X ?s'" "l_IoPending_B ?s'" "\<not> l_ListeningMode_B ?s'" "\<not> mCancel_B ?s'"
    unfolding p using v assms(1) by (simp_all add: pending_client_def)
  from forgotten_turn [OF this assms(6,7)] show ?thesis
    by (simp add: p answer_def OPERATION_PARAM_Reset_def)
qed

theorem failed_connection_is_reported_as_timeout_witness:
  "\<exists>es. ws_trace (process_turn (quiet_turn\<lparr>ti_elapsed_io := 5\<rparr>)
       (process_turn (quiet_turn\<lparr>ti_calls := [sample_call LWS_CALLBACK_CLIENT_CONNECTION_ERROR]\<rparr>) sample_connecting)) =
     es @ [EvResultPush (new_result\<lparr>Sts_E := BOF_ERR_ETIMEDOUT\<rparr>) BOF_ERR_NO_ERROR,
       EvOnOperation OPERATION_MAX 0 0 NullBuffer BOF_ERR_NO_ERROR]"
  using failed_connection_is_reported_as_timeout [of sample_connecting
      "quiet_turn\<lparr>ti_calls := [sample_call LWS_CALLBACK_CLIENT_CONNECTION_ERROR]\<rparr>"
      "sample_call LWS_CALLBACK_CLIENT_CONNECTION_ERROR" 5 "quiet_turn\<lparr>ti_elapsed_io := 5\<rparr>"]
  by (simp add: sample_defs pending_client_def failed_call_def new_result_def)

text \<open>When the connection cannot even be started, the CONNECT is answered as not connected, but the
  context stays, so the next CONNECT is refused for the state of the client.\<close>

theorem failed_start_blocks_reconnection:
  assumes "disconnected s" "ti_pop i = Some op" "Operation_E op = OPERATION_CONNECT" "refusal op = None"
    "ti_context_ok i" "ti_connect i = None"
    and "ti_pop i' = Some op'" "Operation_E op' = OPERATION_CONNECT" "ti_calls i' = []"
  shows "\<exists>es. ws_trace (process_turn i' (process_turn i s)) = es @ answer i' s op'
      \<lparr>res_Operation_E = OPERATION_CONNECT, OpTicket_U32 = Ticket_U32 op', Sts_E = BOF_ERR_INVALID_STATE,
       Size_U32 = 0, res_pBuffer_U8 = NullBuffer, Time_U32 = ti_elapsed_send i'\<rparr>"
proof -
  let ?s1 = "s\<lparr>mCurrentOp_X := op, l_NewCommandRcv_B := True\<rparr>"
  let ?s2 = "start_operation i (accepted i ?s1)"
  have k: "c_str (pWsCltKey_c (connect_of op)) \<noteq> []" "length (c_str (pWsCltKey_c (connect_of op))) < 128"
    using assms(3,4) by (auto simp: refusal_def split: if_splits)
  have s: "\<not> mpLwsContext_X s" "\<not> is_server s" "\<not> ConnectDone_B (mWebSocketState_X s)" "\<not> l_IoPending_B s"
    "\<not> l_ListeningMode_B s" "\<not> mCancel_B s" using assms(1) by (simp_all add: disconnected_def)
  have st: "start_operation i (accepted i ?s1) = start_connect i (accepted i ?s1)"
    using assms(3) by (simp add: start_operation_def)
  have f: "mpLwsContext_X ?s2" "\<not> l_IoPending_B ?s2" "\<not> l_ListeningMode_B ?s2" "\<not> mCancel_B ?s2"
      "mWebSocketParam_X ?s2 = mWebSocketParam_X s" "Sts_E (l_Result_X ?s2) = BOF_ERR_ENOTCONN"
    unfolding st using s k assms(5,6) by (simp_all add: start_connect_def Let_def)
  have p: "process_turn i s = send_result i ?s2"
    using s f assms(2) by (simp add: process_turn_def pop_without_context start_command_accepts
        check_pending_idle do_cancel_idle)
  let ?t = "process_turn i s"
  let ?t1 = "?t\<lparr>mCurrentOp_X := op', l_NewCommandRcv_B := True\<rparr>"
  have t: "mpLwsContext_X ?t" "\<not> l_IoPending_B ?t" "\<not> l_ListeningMode_B ?t" "\<not> mCancel_B ?t"
      "mWebSocketParam_X ?t = mWebSocketParam_X s"
    unfolding p using f by (simp_all add: send_result_simps)
  then have "\<not> is_server ?t" using s(2) by (simp add: is_server_def)
  then have "start_operation i' (accepted i' ?t1) = set_status BOF_ERR_INVALID_STATE (accepted i' ?t1)"
    using t assms(8) by (simp add: start_operation_def start_connect_def)
  then have "process_turn i' ?t = send_result i' (set_status BOF_ERR_INVALID_STATE (accepted i' ?t1))"
    using t assms(7,9) by (simp add: process_turn_def pop_quiet start_command_accepts
        check_pending_idle do_cancel_idle)
  then show ?thesis using t(5) assms(8) by (simp add: send_result_simps answer_def)
qed

theorem failed_start_blocks_reconnection_witness:
  "\<exists>es. ws_trace (process_turn (quiet_turn\<lparr>ti_pop := Some (sample_op OPERATION_CONNECT sample_connect)\<rparr>)
       (process_turn (quiet_turn\<lparr>ti_pop := Some (sample_op OPERATION_CONNECT sample_connect), ti_connect := None\<rparr>)
         (sample_engine 0))) =
     es @ answer quiet_turn (sample_engine 0) (sample_op OPERATION_CONNECT sample_connect)
       \<lparr>res_Operation_E = OPERATION_CONNECT, OpTicket_U32 = 1, Sts_E = BOF_ERR_INVALID_STATE,
        Size_U32 = 0, res_pBuffer_U8 = NullBuffer, Time_U32 = 0\<rparr>"
  using failed_start_blocks_reconnection [of "sample_engine 0"
      "quiet_turn\<lparr>ti_pop := Some (sample_op OPERATION_CONNECT sample_connect), ti_connect := None\<rparr>"
      "sample_op OPERATION_CONNECT sample_connect"
      "quiet_turn\<lparr>ti_pop := Some (sample_op OPERATION_CONNECT sample_connect)\<rparr>"
      "sample_op OPERATION_CONNECT sample_connect"]
  by (simp add: sample_defs disconnected_def refusal_def connect_of_def c_str_def answer_def)

section \<open>Commands that arrive while an operation is pending\<close>

text \<open>The turn in which a command is popped while an operation of a client is pending: it replaces the
  current operation, and the pending operation is looked at as if it were of that kind.\<close>

lemma overtaken_turn:
  assumes "pending_client op0 s" "ti_pop i = Some op"
  shows "process_turn i s = send_result i (pending_timeout i (pending_switch i
      ((serve (ti_calls i) s)\<lparr>mCurrentOp_X := op, l_NewCommandRcv_B := True, l_SendResult_B := False\<rparr>)))"
  using assms by (simp add: turn_without_start pop_nothing pending_client_def check_pending_busy)

text \<open>C34. A command that arrives while an operation of a client is pending is lost with that operation when
  it is an EXIT or a WRITE: neither gets a result, nothing stays pending, and the EXIT does not end the
  thread.\<close>

theorem command_while_pending_is_lost:
  assumes "pending_client op0 s" "ti_pop i = Some op"
    and "Operation_E op = OPERATION_WRITE \<or> Operation_E op = OPERATION_EXIT \<and> ti_elapsed_io i \<le> TimeOut_U32 op"
  shows "ws_trace (process_turn i s) = ws_trace (serve (ti_calls i) s) \<and> \<not> l_IoPending_B (process_turn i s) \<and>
    loop_goes_on i (process_turn i s) = loop_goes_on i s"
proof -
  let ?s1 = "(serve (ti_calls i) s)\<lparr>mCurrentOp_X := op, l_NewCommandRcv_B := True, l_SendResult_B := False\<rparr>"
  let ?s2 = "pending_switch i ?s1"
  have sw: "\<not> l_SendResult_B ?s2" "\<not> l_IoPending_B ?s2" "mCurrentOp_X ?s2 = op"
      "ws_trace ?s2 = ws_trace (serve (ti_calls i) s)"
    using assms(3) by (auto simp: pending_switch_def)
  have t: "pending_timeout i ?s2 = ?s2\<lparr>l_Result_X := (l_Result_X ?s2)\<lparr>Time_U32 := ti_elapsed_io i\<rparr>\<rparr>"
    by (rule in_time) (use assms(3) sw(3) in auto)
  have "process_turn i s = ?s2\<lparr>l_Result_X := (l_Result_X ?s2)\<lparr>Time_U32 := ti_elapsed_io i\<rparr>\<rparr>"
    using assms(1,2) sw(1) by (simp add: overtaken_turn t send_result_simps(2))
  then show ?thesis using sw by (simp add: loop_goes_on_def)
qed

theorem command_while_pending_is_lost_witness:
  "ws_trace (process_turn (quiet_turn\<lparr>ti_pop := Some (sample_op OPERATION_EXIT (Exit_X \<lparr>ex_Unused_U32 = 0\<rparr>))\<rparr>) sample_connecting) =
   ws_trace sample_connecting"
  using command_while_pending_is_lost [of OPERATION_CONNECT sample_connecting
      "quiet_turn\<lparr>ti_pop := Some (sample_op OPERATION_EXIT (Exit_X \<lparr>ex_Unused_U32 = 0\<rparr>))\<rparr>"
      "sample_op OPERATION_EXIT (Exit_X \<lparr>ex_Unused_U32 = 0\<rparr>)"]
  by (simp add: sample_defs pending_client_def)

text \<open>A LISTEN that arrives while the CONNECT of a client is pending makes the connection be reported
  under the ticket of a LISTEN that was never started: the value of an uninitialised variable.\<close>

theorem overtaking_listen_reports_junk_ticket:
  assumes "pending_client OPERATION_CONNECT s" "ti_pop i = Some op" "Operation_E op = OPERATION_LISTEN"
    and "ti_calls i = [cl]" "established_call wsi cl" "ti_elapsed_io i \<le> TimeOut_U32 op"
  shows "EvResultPush ((l_Result_X s)\<lparr>res_Operation_E := OPERATION_CONNECT, OpTicket_U32 := l_ListenTicketId_U32 s,
        Sts_E := BOF_ERR_NO_ERROR, Time_U32 := ti_elapsed_send i\<rparr>) (ti_result_push i)
      \<in> set (ws_trace (process_turn i s)) \<and> l_IoPending_B (process_turn i s)"
proof -
  let ?s1 = "(serve (ti_calls i) s)\<lparr>mCurrentOp_X := op, l_NewCommandRcv_B := True, l_SendResult_B := False\<rparr>"
  let ?s2 = "pending_switch i ?s1"
  have c: "ConnectDone_B (mWebSocketState_X ?s1)"
    using assms(4) by (simp add: established_callback [OF assms(5)])
  then have sw: "l_SendResult_B ?s2" "l_IoPending_B ?s2" "TimeOut_U32 (mCurrentOp_X ?s2) = TimeOut_U32 op"
      "l_Result_X ?s2 = (l_Result_X s)\<lparr>res_Operation_E := OPERATION_CONNECT, OpTicket_U32 := l_ListenTicketId_U32 s,
        Sts_E := BOF_ERR_NO_ERROR\<rparr>"
    using assms(3) by (simp_all add: pending_switch_def)
  have t: "pending_timeout i ?s2 = ?s2\<lparr>l_Result_X := (l_Result_X ?s2)\<lparr>Time_U32 := ti_elapsed_io i\<rparr>\<rparr>"
    by (rule in_time) (use assms(6) sw(3) in simp)
  have p: "process_turn i s = send_result i (?s2\<lparr>l_Result_X := (l_Result_X ?s2)\<lparr>Time_U32 := ti_elapsed_io i\<rparr>\<rparr>)"
    using assms(1,2) by (simp add: overtaken_turn t)
  show ?thesis unfolding p using sw by (simp add: send_result_simps answer_def)
qed

theorem overtaking_listen_reports_junk_ticket_witness:
  "EvResultPush (new_result\<lparr>res_Operation_E := OPERATION_CONNECT, OpTicket_U32 := 77, Sts_E := BOF_ERR_NO_ERROR\<rparr>)
     BOF_ERR_NO_ERROR \<in> set (ws_trace (process_turn
       (quiet_turn\<lparr>ti_calls := [sample_call LWS_CALLBACK_CLIENT_ESTABLISHED],
          ti_pop := Some (sample_op OPERATION_LISTEN NoParam)\<rparr>) sample_connecting))"
  using overtaking_listen_reports_junk_ticket [of sample_connecting
      "quiet_turn\<lparr>ti_calls := [sample_call LWS_CALLBACK_CLIENT_ESTABLISHED],
          ti_pop := Some (sample_op OPERATION_LISTEN NoParam)\<rparr>"
      "sample_op OPERATION_LISTEN NoParam" "sample_call LWS_CALLBACK_CLIENT_ESTABLISHED" 5]
  by (simp add: sample_defs pending_client_def established_call_def new_result_def)

section \<open>A server that listens\<close>

definition listening_server :: "engine \<Rightarrow> bool" where
  "listening_server s \<longleftrightarrow> mpLwsContext_X s \<and> l_IoPending_B s \<and> l_ListeningMode_B s \<and> \<not> mCancel_B s \<and> is_server s \<and>
     Operation_E (mCurrentOp_X s) = OPERATION_LISTEN"

text \<open>The turn of a listening server that is given no command.\<close>

lemma listening_turn:
  assumes "listening_server s" "ti_pop i = None" "ConnectDone_B (mWebSocketState_X (serve (ti_calls i) s))"
  shows "ws_trace (process_turn i s) = ws_trace (serve (ti_calls i) s) @
      answer i s (mCurrentOp_X s) ((l_Result_X s)\<lparr>res_Operation_E := OPERATION_CONNECT,
        OpTicket_U32 := l_ListenTicketId_U32 s, Sts_E := BOF_ERR_NO_ERROR, Time_U32 := ti_elapsed_send i\<rparr>) \<and>
    \<not> ConnectDone_B (mWebSocketState_X (process_turn i s)) \<and>
    (mpLwsContext_X (serve (ti_calls i) s) \<longrightarrow> listening_server (process_turn i s))"
proof -
  let ?s1 = "(serve (ti_calls i) s)\<lparr>l_NewCommandRcv_B := False, l_SendResult_B := False\<rparr>"
  let ?s2 = "pending_switch i ?s1"
  have sw: "l_SendResult_B ?s2" "l_IoPending_B ?s2" "l_ListeningMode_B ?s2"
      "mCurrentOp_X ?s2 = (mCurrentOp_X s)\<lparr>Timer_U32 := ti_now_listen i\<rparr>"
      "l_Result_X ?s2 = (l_Result_X s)\<lparr>res_Operation_E := OPERATION_CONNECT, OpTicket_U32 := l_ListenTicketId_U32 s,
        Sts_E := BOF_ERR_NO_ERROR\<rparr>" "\<not> ConnectDone_B (mWebSocketState_X ?s2)"
      "ws_trace ?s2 = ws_trace (serve (ti_calls i) s)" "mpLwsContext_X ?s2 = mpLwsContext_X (serve (ti_calls i) s)"
    using assms by (simp_all add: pending_switch_def listening_server_def)
  let ?s3 = "?s2\<lparr>l_Result_X := (l_Result_X ?s2)\<lparr>Time_U32 := ti_elapsed_io i\<rparr>\<rparr>"
  have t: "pending_timeout i ?s2 = ?s3"
    by (rule in_time) (use sw(3) in simp)
  have p: "process_turn i s = send_result i ?s3"
    using assms(1,2) by (simp add: turn_without_start pop_nothing listening_server_def check_pending_busy t)
  have v: "is_server ?s3 = is_server s" by (rule is_server_same) simp
  show ?thesis unfolding p using sw v assms(1)
    by (simp add: send_result_simps answer_def listening_server_def)
qed

text \<open>C19. A listening server reports the connections of a turn with one result that has the ticket of the
  LISTEN, however many clients came in, and goes on listening.\<close>

theorem listening_server_reports_connections:
  assumes "listening_server s" "ti_pop i = None" "ConnectDone_B (mWebSocketState_X (serve (ti_calls i) s))"
  shows "ws_trace (process_turn i s) = ws_trace (serve (ti_calls i) s) @
      answer i s (mCurrentOp_X s) ((l_Result_X s)\<lparr>res_Operation_E := OPERATION_CONNECT,
        OpTicket_U32 := l_ListenTicketId_U32 s, Sts_E := BOF_ERR_NO_ERROR, Time_U32 := ti_elapsed_send i\<rparr>) \<and>
    \<not> ConnectDone_B (mWebSocketState_X (process_turn i s)) \<and>
    (mpLwsContext_X (serve (ti_calls i) s) \<longrightarrow> listening_server (process_turn i s))"
  by (rule listening_turn [OF assms])

theorem listening_server_reports_connections_witness:
  "\<not> ConnectDone_B (mWebSocketState_X (process_turn
     (quiet_turn\<lparr>ti_calls := [sample_call LWS_CALLBACK_ESTABLISHED]\<rparr>) sample_listening))"
  using listening_server_reports_connections [of sample_listening
      "quiet_turn\<lparr>ti_calls := [sample_call LWS_CALLBACK_ESTABLISHED]\<rparr>"]
  by (simp add: sample_defs listening_server_def LwsCallback_def cb_first_def cb_established_def cb_second_def
      SetSocketBufferSize_def AddClient_def c_str_def Let_def)

text \<open>A command popped by a listening server: it is started, and since LISTEN keeps \<open>IoPending_B\<close> set, it is
  then treated as pending whatever its start said.\<close>

lemma listening_command_turn:
  assumes "listening_server s" "ti_pop i = Some op"
  shows "process_turn i s = send_result i (pending_timeout i (pending_switch i
    ((start_operation i (accepted i (pop_command i s)))\<lparr>l_IoPending_B := True, l_SendResult_B := False\<rparr>)))"
proof -
  let ?s1 = "accepted i (pop_command i s)"
  have io: "l_IoPending_B (start_operation i ?s1)"
    using assms(1) by (simp add: start_operation_flags listening_server_def)
  then have st: "start_command i (pop_command i s) = (start_operation i ?s1)\<lparr>l_IoPending_B := True\<rparr>"
    using assms by (simp add: start_command_accepts listening_server_def)
  show ?thesis
    using assms(1) by (simp add: process_turn_def st check_pending_busy do_cancel_idle listening_server_def)
qed

lemma accepted_is_ok [simp]: "Sts_E (l_Result_X (accepted i s)) = BOF_ERR_NO_ERROR"
  by simp

text \<open>The events of the start of a write.\<close>

definition not_result :: "ws_event \<Rightarrow> bool" where
  "not_result e \<longleftrightarrow> (case e of EvResultPush _ _ \<Rightarrow> False | _ \<Rightarrow> True)"

text \<open>The results in a trace.\<close>

definition results_of :: "ws_event list \<Rightarrow> ws_event list" where
  "results_of tr = filter (\<lambda>e. \<not> not_result e) tr"

lemma results_of_append [simp]: "results_of (tr @ tr') = results_of tr @ results_of tr'"
  by (simp add: results_of_def)

lemma results_of_extends: "extends not_result s s' \<Longrightarrow> results_of (ws_trace s') = results_of (ws_trace s)"
  by (auto simp: extends_def results_of_def filter_empty_conv)

lemma results_of_answer [simp]: "results_of (answer i s op r) = [EvResultPush r (ti_result_push i)]"
  by (simp add: results_of_def answer_def not_result_def)

lemma callback_without_results:
  assumes "lc_peek cl = None"
  shows "results_of (ws_trace (snd (snd (LwsCallback cl s)))) = results_of (ws_trace s)"
proof (rule results_of_extends [OF extends_mono [OF extends_LwsCallback]])
  show "callback_event cl e \<Longrightarrow> not_result e" for e
    using assms by (cases e) (auto simp: callback_event_def not_result_def)
qed

lemma start_write_silent: "extends not_result s (start_write i s)"
  by (auto simp: start_write_def Let_def extends_def not_result_def)

text \<open>The turn of a WRITE on a listening server: what its start did, and nothing pending or to be sent.\<close>

lemma listening_write_turn:
  assumes "listening_server s" "ti_pop i = Some op" "Operation_E op = OPERATION_WRITE"
  shows "ws_trace (process_turn i s) = ws_trace (start_write i (accepted i (pop_command i s)))"
    "\<not> l_SendResult_B (process_turn i s)" "\<not> l_IoPending_B (process_turn i s)" "\<not> mCancel_B (process_turn i s)"
    "l_ListeningMode_B (process_turn i s)"
proof -
  let ?s1 = "accepted i (pop_command i s)"
  let ?s2 = "start_write i ?s1"
  let ?s3 = "pending_switch i (?s2\<lparr>l_IoPending_B := True, l_SendResult_B := False\<rparr>)"
  have op: "Operation_E (mCurrentOp_X ?s2) = OPERATION_WRITE"
    using assms(2,3) start_operation_op [of i ?s1] by (simp add: start_operation_def)
  have lis: "l_ListeningMode_B ?s2" using assms(1) by (simp add: start_listening listening_server_def)
  have st: "start_operation i ?s1 = ?s2" using assms(2,3) by (simp add: start_operation_def)
  have sw: "\<not> l_SendResult_B ?s3" "\<not> l_IoPending_B ?s3" "l_ListeningMode_B ?s3" "ws_trace ?s3 = ws_trace ?s2"
      "mCancel_B ?s3 = mCancel_B s"
    using op lis by (simp_all add: pending_switch_def start_cancel)
  have t: "pending_timeout i ?s3 = ?s3\<lparr>l_Result_X := (l_Result_X ?s3)\<lparr>Time_U32 := ti_elapsed_io i\<rparr>\<rparr>"
    by (rule in_time) (use sw(3) in simp)
  have p: "process_turn i s = ?s3\<lparr>l_Result_X := (l_Result_X ?s3)\<lparr>Time_U32 := ti_elapsed_io i\<rparr>\<rparr>"
    using sw(1) by (simp add: listening_command_turn [OF assms(1,2)] st t send_result_simps(2))
  show "ws_trace (process_turn i s) = ws_trace ?s2" "\<not> l_SendResult_B (process_turn i s)"
    "\<not> l_IoPending_B (process_turn i s)" "\<not> mCancel_B (process_turn i s)" "l_ListeningMode_B (process_turn i s)"
    unfolding p using sw assms(1) by (simp_all add: listening_server_def)
qed

text \<open>Results the thread itself pushes: those of finished writes, which the callback pushes, point into the storage of
  writes.\<close>

definition of_thread :: "ws_event \<Rightarrow> bool" where
  "of_thread e \<longleftrightarrow> (case e of EvResultPush r _ \<Rightarrow> \<not> write_result (res_pBuffer_U8 r) | _ \<Rightarrow> False)"

lemma served_not_of_thread: "served_event cls e \<Longrightarrow> \<not> of_thread e"
  by (cases e) (auto simp: of_thread_def served_event_def callback_event_def)

lemma serve_not_of_thread: "extends (\<lambda>e. \<not> of_thread e) s (serve cls s)"
  by (rule extends_mono [OF extends_serve served_not_of_thread])

lemma pop_not_of_thread: "extends (\<lambda>e. \<not> of_thread e) s (pop_command i s)"
proof (cases "mpLwsContext_X s")
  case True
  then show ?thesis using serve_not_of_thread [of s "ti_calls i"]
    by (auto simp: pop_command_def Let_def extends_def split: option.split)
qed (auto simp: pop_command_def Let_def split: option.split)

text \<open>With nothing pending and no command given, the thread serves libwebsockets and does nothing else.\<close>

lemma deaf_turns:
  assumes "\<not> l_IoPending_B s" "\<not> l_SendResult_B s" "\<not> mCancel_B s" "\<forall>j \<in> set js. ti_pop j = None"
  shows "extends (\<lambda>e. \<not> of_thread e) s (run_turns js s) \<and> l_ListeningMode_B (run_turns js s) = l_ListeningMode_B s"
  using assms
proof (induction js arbitrary: s)
  case Nil
  then show ?case by simp
next
  case (Cons j js)
  have p: "process_turn j s = pop_command j s"
    using Cons.prems by (simp add: turn_without_start check_pending_idle send_result_simps(2))
  have e: "extends (\<lambda>e. \<not> of_thread e) s (process_turn j s)" unfolding p by (rule pop_not_of_thread)
  have "extends (\<lambda>e. \<not> of_thread e) (process_turn j s) (run_turns js (process_turn j s)) \<and>
      l_ListeningMode_B (run_turns js (process_turn j s)) = l_ListeningMode_B (process_turn j s)"
    by (rule Cons.IH) (use Cons.prems p in simp_all)
  with extends_trans [OF e] show ?case by (simp add: p)
qed

text \<open>C35. A WRITE makes a listening server deaf: the thread does not answer it, even when it is refused, and
  as long as no other command is given it reports nothing any more, in however many turns and whatever
  clients they bring, although it is still in listening mode.  The only results are those the callback gives
  of finished writes.\<close>

theorem write_makes_server_deaf:
  assumes "listening_server s" "ti_pop i = Some op" "Operation_E op = OPERATION_WRITE"
    and "\<forall>j \<in> set js. ti_pop j = None"
  shows "extends (\<lambda>e. \<not> of_thread e) s (run_turns (i # js) s) \<and> l_ListeningMode_B (run_turns (i # js) s)"
proof -
  note t = listening_write_turn [OF assms(1-3)]
  have "extends (\<lambda>e. \<not> of_thread e) (accepted i (pop_command i s)) (start_write i (accepted i (pop_command i s)))"
    by (rule extends_mono [OF start_write_silent]) (auto simp: not_result_def of_thread_def split: ws_event.splits)
  then have "extends (\<lambda>e. \<not> of_thread e) (pop_command i s) (process_turn i s)"
    using t(1) by (simp add: extends_def)
  then have e: "extends (\<lambda>e. \<not> of_thread e) s (process_turn i s)"
    by (rule extends_trans [OF pop_not_of_thread])
  show ?thesis using deaf_turns [OF t(3,2,4) assms(4)] extends_trans [OF e] t(5) by simp
qed

text \<open>A WRITE, then a client that comes in: it is registered, and nobody is told.\<close>

lemma sample_written:
  "process_turn (quiet_turn\<lparr>ti_pop := Some (sample_op OPERATION_WRITE (Write_X \<lparr>Nb_U32 = 3, io_pBuffer_U8 = 9\<rparr>))\<rparr>)
     sample_listening =
   sample_listening\<lparr>mCurrentOp_X := sample_op OPERATION_WRITE (Write_X \<lparr>Nb_U32 = 3, io_pBuffer_U8 = 9\<rparr>),
     mOperationPending_B := True, l_NewCommandRcv_B := True, l_IoPending_B := False,
     l_Result_X := new_result\<lparr>res_Operation_E := OPERATION_WRITE, OpTicket_U32 := 1, Sts_E := BOF_ERR_NO_ERROR\<rparr>\<rparr>"
  by (simp add: process_turn_def pop_command_def start_command_accepts start_operation_def start_write_def io_ready_def
      check_pending_busy pending_switch_def pending_timeout_def do_cancel_idle send_result_simps accepted_def
      set_status_def new_result_def sample_defs Let_def)

theorem write_makes_server_deaf_witness:
  "\<exists>s. s = run_turns [quiet_turn\<lparr>ti_pop := Some (sample_op OPERATION_WRITE (Write_X \<lparr>Nb_U32 = 3, io_pBuffer_U8 = 9\<rparr>))\<rparr>,
      quiet_turn\<lparr>ti_calls := [sample_call LWS_CALLBACK_ESTABLISHED]\<rparr>] sample_listening \<and>
    extends (\<lambda>e. \<not> of_thread e) sample_listening s \<and> length (mClientCollection s) = 1 \<and>
    ConnectDone_B (mWebSocketState_X s)"
proof -
  let ?i = "quiet_turn\<lparr>ti_pop := Some (sample_op OPERATION_WRITE (Write_X \<lparr>Nb_U32 = 3, io_pBuffer_U8 = 9\<rparr>))\<rparr>"
  let ?j = "quiet_turn\<lparr>ti_calls := [sample_call LWS_CALLBACK_ESTABLISHED]\<rparr>"
  let ?s = "run_turns [?i, ?j] sample_listening"
  have l: "listening_server sample_listening" by (simp add: listening_server_def sample_defs)
  have "extends (\<lambda>e. \<not> of_thread e) sample_listening ?s"
    using write_makes_server_deaf [OF l, of ?i _ "[?j]"] by (simp add: sample_op_def quiet_turn_def)
  moreover have "length (mClientCollection ?s) = 1 \<and> ConnectDone_B (mWebSocketState_X ?s)"
    unfolding run_turns_simps sample_written
    by (subst (1 2) turn_without_start)
      (simp_all add: check_pending_idle send_result_simps pop_command_def LwsCallback_def cb_first_def cb_established_def
        cb_events_def cb_second_def SetSocketBufferSize_def AddClient_def is_receive_def c_str_def call_OnOpen_def
        sample_defs emit_def Let_def)
  ultimately show ?thesis by blast
qed

text \<open>A READ on a listening server is carried out even when it was rejected: with a null buffer, or no
  client, the receive buffer is popped to the given address and the answer has no error.\<close>

theorem listening_server_carries_out_rejected_read:
  assumes "listening_server s" "ti_pop i = Some op" "Operation_E op = OPERATION_READ" "ti_rx_pop i = (BOF_ERR_NO_ERROR, n)"
  shows "\<exists>es. ws_trace (process_turn i s) = es @
      EvRxPop (Nb_U32 (read_of op)) (io_pBuffer_U8 (read_of op)) BOF_ERR_NO_ERROR n # answer i s op
      \<lparr>res_Operation_E = OPERATION_READ, OpTicket_U32 = Ticket_U32 op, Sts_E = BOF_ERR_NO_ERROR, Size_U32 = n,
       res_pBuffer_U8 = UserBuffer (io_pBuffer_U8 (read_of op)), Time_U32 = ti_elapsed_send i\<rparr>"
proof -
  let ?s1 = "accepted i (pop_command i s)"
  let ?s2 = "start_read ?s1"
  let ?s3 = "pending_switch i (?s2\<lparr>l_IoPending_B := True, l_SendResult_B := False\<rparr>)"
  have st: "start_operation i ?s1 = ?s2" using assms(2,3) by (simp add: start_operation_def)
  have f: "mCurrentOp_X ?s2 = op\<lparr>Timer_U32 := ti_now_cmd i\<rparr>" "ws_trace ?s2 = ws_trace (pop_command i s)"
      "l_Result_X ?s2 = (l_Result_X ?s1)\<lparr>Sts_E := Sts_E (l_Result_X ?s2)\<rparr>" "l_ListeningMode_B ?s2"
    using assms(1,2) by (auto simp: start_read_def listening_server_def)
  have sw: "l_SendResult_B ?s3" "l_ListeningMode_B ?s3"
      "mCurrentOp_X ?s3 = op\<lparr>Timer_U32 := ti_now_cmd i\<rparr>"
      "ws_trace ?s3 = ws_trace (pop_command i s) @ [EvRxPop (Nb_U32 (read_of op)) (io_pBuffer_U8 (read_of op)) BOF_ERR_NO_ERROR n]"
      "l_Result_X ?s3 = (l_Result_X ?s2)\<lparr>Sts_E := BOF_ERR_NO_ERROR, Size_U32 := n,
         res_pBuffer_U8 := UserBuffer (io_pBuffer_U8 (read_of op))\<rparr>"
    using assms(3,4) f(1,2,4) by (simp_all add: pending_switch_def Let_def)
  have r: "l_Result_X ?s3 = \<lparr>res_Operation_E = OPERATION_READ, OpTicket_U32 = Ticket_U32 op, Sts_E = BOF_ERR_NO_ERROR,
       Size_U32 = n, res_pBuffer_U8 = UserBuffer (io_pBuffer_U8 (read_of op)), Time_U32 = ti_elapsed_cmd i\<rparr>"
    unfolding sw(5) by (subst f(3)) (use assms(2,3) in simp)
  let ?s4 = "?s3\<lparr>l_Result_X := (l_Result_X ?s3)\<lparr>Time_U32 := ti_elapsed_io i\<rparr>\<rparr>"
  have t: "pending_timeout i ?s3 = ?s4" by (rule in_time) (use sw(2) in simp)
  have p: "process_turn i s = send_result i ?s4"
    by (simp add: listening_command_turn [OF assms(1,2)] st t)
  have v: "mWebSocketParam_X ?s2 = mWebSocketParam_X s" by (simp add: start_param)
  show ?thesis unfolding p using sw(1,3,4) v by (simp add: send_result_simps r answer_def)
qed

theorem listening_server_carries_out_rejected_read_witness:
  "\<exists>es. ws_trace (process_turn (quiet_turn\<lparr>ti_pop := Some (sample_op OPERATION_READ (Read_X \<lparr>Nb_U32 = 3, io_pBuffer_U8 = 0\<rparr>))\<rparr>)
       sample_listening) =
     es @ EvRxPop 3 0 BOF_ERR_NO_ERROR 3 # answer quiet_turn sample_listening (sample_op OPERATION_READ NoParam)
       \<lparr>res_Operation_E = OPERATION_READ, OpTicket_U32 = 1, Sts_E = BOF_ERR_NO_ERROR, Size_U32 = 3,
        res_pBuffer_U8 = UserBuffer 0, Time_U32 = 0\<rparr>"
  using listening_server_carries_out_rejected_read [of sample_listening
      "quiet_turn\<lparr>ti_pop := Some (sample_op OPERATION_READ (Read_X \<lparr>Nb_U32 = 3, io_pBuffer_U8 = 0\<rparr>))\<rparr>"
      "sample_op OPERATION_READ (Read_X \<lparr>Nb_U32 = 3, io_pBuffer_U8 = 0\<rparr>)" 3]
  by (simp add: sample_defs listening_server_def read_of_def answer_def)

end
