(* ===== verification/WsTransfer.thy ===== *)
theory WsTransfer
  imports WsConnection
begin

text \<open>
  Writing through the engine: the write operations and what libwebsockets is given form an outbox, read off
  the calls the engine makes; the start of a WRITE and the writeable callbacks refine its operations.
  Writes that could not be scheduled do not.
\<close>

section \<open>The outbox\<close>

text \<open>The writes waiting (ticket and bytes), the bytes libwebsockets took, the tickets the callback has answered.  The
  answers of the thread are not in it; \<open>results_of\<close> has all of them.\<close>

record outbox =
  ob_queue :: "(u32 \<times> byte list) list"
  ob_sent :: "byte list"
  ob_done :: "u32 list"

definition ob_enqueue :: "u32 \<times> byte list \<Rightarrow> outbox \<Rightarrow> outbox" where
  "ob_enqueue w ob = ob\<lparr>ob_queue := ob_queue ob @ [w]\<rparr>"

text \<open>The first write is sent as a whole and answered.\<close>

definition ob_send :: "outbox \<Rightarrow> outbox" where
  "ob_send ob = (case ob_queue ob of
     [] \<Rightarrow> ob
   | (t, bs) # r \<Rightarrow> \<lparr>ob_queue = r, ob_sent = ob_sent ob @ bs, ob_done = ob_done ob @ [t]\<rparr>)"

text \<open>The outbox of the calls made so far.\<close>

fun outbox_step :: "ws_event \<Rightarrow> outbox \<Rightarrow> outbox" where
  "outbox_step (EvWritePush w sts) ob =
     (if sts = BOF_ERR_NO_ERROR then ob_enqueue (OpTicket_U32 (wo_Result_X w), RemainToRead w) ob else ob)"
| "outbox_step EvWriteSkip ob = ob\<lparr>ob_queue := tl (ob_queue ob)\<rparr>"
| "outbox_step EvWriteReset ob = ob\<lparr>ob_queue := []\<rparr>"
| "outbox_step (EvLwsWrite wsi bs n) ob = ob\<lparr>ob_sent := ob_sent ob @ take (nat n) bs\<rparr>"
| "outbox_step (EvResultPush r sts) ob =
     (if write_result (res_pBuffer_U8 r) then ob\<lparr>ob_done := ob_done ob @ [OpTicket_U32 r]\<rparr> else ob)"
| "outbox_step _ ob = ob"

definition outbox :: "'a web_socket_scheme \<Rightarrow> outbox" where
  "outbox s = fold outbox_step (ws_trace s) \<lparr>ob_queue = [], ob_sent = [], ob_done = []\<rparr>"

lemma outbox_emit [simp]: "outbox (emit e s) = outbox_step e (outbox s)"
  by (simp add: outbox_def)

lemma outbox_same: "ws_trace s' = ws_trace s \<Longrightarrow> outbox s' = outbox s"
  by (simp add: outbox_def)

lemma outbox_updates [simp]:
  "outbox (s\<lparr>mWebSocketState_X := a\<rparr>) = outbox s" "outbox (s\<lparr>mNbTxByServer_U64 := c\<rparr>) = outbox s"
  "outbox (s\<lparr>mNbTxByClient_U64 := c\<rparr>) = outbox s" "outbox (bof_assert b s) = outbox s"
  by (simp_all add: outbox_def bof_assert_def)

lemma outbox_set_status [simp]: "outbox (set_status e s) = outbox s"
  by (rule outbox_same) simp

section \<open>Concrete writes\<close>

definition sample_connected :: engine where
  "sample_connected = (sample_engine 0)\<lparr>mpLwsContext_X := True,
     mWebSocketState_X := \<lparr>ConnectDone_B = True, pWebSocket_X = Some 5\<rparr>\<rparr>"

definition sample_write :: write_op where
  "sample_write = \<lparr>wo_TimeOut_U32 = 100, wo_Timer_U32 = 0, wo_payload = [1, 2, 3], wo_pos = 0,
     wo_Result_X = new_result\<lparr>res_Operation_E := OPERATION_WRITE, OpTicket_U32 := 1, Sts_E := BOF_ERR_NO_ERROR\<rparr>\<rparr>"

definition sample_writeable :: "int \<Rightarrow> lws_call" where
  "sample_writeable n = (sample_call LWS_CALLBACK_CLIENT_WRITEABLE)\<lparr>lc_peek := Some sample_write, lc_written := n\<rparr>"

definition sample_write_op :: operation_param where
  "sample_write_op = sample_op OPERATION_WRITE (Write_X \<lparr>Nb_U32 = 3, io_pBuffer_U8 = 9\<rparr>)"

lemmas sample_write_defs = sample_connected_def sample_write_def sample_writeable_def sample_write_op_def
  RemainToRead_def new_result_def

section \<open>Whole writes\<close>

text \<open>A writeable callback that finds the first write of the outbox and sends all of it.\<close>

definition complete_write :: "lws_call \<Rightarrow> 'a web_socket_scheme \<Rightarrow> bool" where
  "complete_write cl s \<longleftrightarrow> lc_wsi cl \<noteq> None \<and> lc_reply cl = None \<and>
     (lc_reason cl = LWS_CALLBACK_SERVER_WRITEABLE \<or> lc_reason cl = LWS_CALLBACK_CLIENT_WRITEABLE) \<and>
     (case (lc_peek cl, ob_queue (outbox s)) of
        (Some w, (t, bs) # r) \<Rightarrow> t = OpTicket_U32 (wo_Result_X w) \<and> bs = RemainToRead w \<and> bs \<noteq> [] \<and>
          lc_written cl = int (length bs) \<and> length bs < 2 ^ 64
      | _ \<Rightarrow> False)"

lemma unat_written: "length bs < 2 ^ 64 \<Longrightarrow> unat (word_of_int (int (length bs)) :: u64) = length bs"
  by (simp add: unat_of_nat_lt)

lemma outbox_finish_write:
  "outbox (finish_write cl sts w s) =
     (outbox s)\<lparr>ob_done := ob_done (outbox s) @ [OpTicket_U32 (wo_Result_X w)], ob_queue := tl (ob_queue (outbox s))\<rparr>"
  by (simp add: finish_write_def Let_def)

lemma cb_writeable_complete:
  assumes "lc_peek cl = Some w" "RemainToRead w \<noteq> []" "lc_written cl = int (length (RemainToRead w))"
    "length (RemainToRead w) < 2 ^ 64" "ob_queue (outbox s) = (OpTicket_U32 (wo_Result_X w), RemainToRead w) # r"
  shows "outbox (cb_writeable srv wsi cl s) = ob_send (outbox s)"
proof -
  have n: "unat (word_of_int (lc_written cl) :: u64) = length (RemainToRead w)"
    using assms(3) unat_written [OF assms(4)] by simp
  show ?thesis
    using assms n by (simp add: cb_writeable_def Let_def outbox_finish_write ob_send_def)
qed

lemma outbox_cb_events:
  assumes "\<not> is_receive (lc_reason cl)" "lc_reply cl = None"
  shows "outbox (cb_events wsi cl s) = outbox s"
  using assms by (simp add: cb_events_def send_reply_def Let_def)

lemma LwsCallback_complete:
  assumes "complete_write cl s"
  shows "outbox (snd (snd (LwsCallback cl s))) = ob_send (outbox s)"
proof -
  from assms obtain wsi w r where w: "lc_wsi cl = Some wsi" "lc_peek cl = Some w" "RemainToRead w \<noteq> []"
      "lc_written cl = int (length (RemainToRead w))" "length (RemainToRead w) < 2 ^ 64"
      "ob_queue (outbox s) = (OpTicket_U32 (wo_Result_X w), RemainToRead w) # r" "lc_reply cl = None"
      "lc_reason cl = LWS_CALLBACK_SERVER_WRITEABLE \<or> lc_reason cl = LWS_CALLBACK_CLIENT_WRITEABLE"
    by (auto simp: complete_write_def split: option.splits list.splits)
  have c: "outbox (cb_writeable srv wsi cl s) = ob_send (outbox s)" for srv
    by (rule cb_writeable_complete [OF w(2-6)])
  have e: "outbox (cb_events wsi cl t) = outbox t" for t :: "'a web_socket_scheme"
    by (rule outbox_cb_events) (use w(7,8) in \<open>auto simp: is_receive_def\<close>)
  show ?thesis using w(1,8) c e
    by (auto simp: LwsCallback_def cb_first_def cb_second_def Let_def)
qed

text \<open>And it answers with one result, the one of that write: no error, all its bytes.\<close>

lemma results_of_complete:
  assumes "complete_write cl s" "lc_peek cl = Some w"
  shows "results_of (ws_trace (snd (snd (LwsCallback cl s)))) = results_of (ws_trace s) @
    [EvResultPush ((wo_Result_X w)\<lparr>Time_U32 := lc_elapsed cl, res_pBuffer_U8 := WriteStorage (wo_payload w),
       Sts_E := BOF_ERR_NO_ERROR, Size_U32 := word_of_nat (length (wo_payload w))\<rparr>) (lc_push cl)]"
proof -
  let ?r = "EvResultPush ((wo_Result_X w)\<lparr>Time_U32 := lc_elapsed cl, res_pBuffer_U8 := WriteStorage (wo_payload w),
       Sts_E := BOF_ERR_NO_ERROR, Size_U32 := word_of_nat (length (wo_payload w))\<rparr>) (lc_push cl)"
  from assms obtain wsi where w: "lc_wsi cl = Some wsi" "RemainToRead w \<noteq> []" "lc_reply cl = None"
      "lc_written cl = int (length (RemainToRead w))" "length (RemainToRead w) < 2 ^ 64"
      "lc_reason cl = LWS_CALLBACK_SERVER_WRITEABLE \<or> lc_reason cl = LWS_CALLBACK_CLIENT_WRITEABLE"
    by (auto simp: complete_write_def split: option.splits list.splits)
  have n: "unat (word_of_int (lc_written cl) :: u64) = length (RemainToRead w)"
    using w(4) unat_written [OF w(5)] by simp
  have c: "results_of (ws_trace (cb_writeable srv wsi cl s)) = results_of (ws_trace s) @ [?r]" for srv
    using assms(2) w(2,4) n
    by (simp add: cb_writeable_def finish_write_def Let_def bof_assert_def results_of_def not_result_def)
  have e: "results_of (ws_trace (cb_events wsi cl t)) = results_of (ws_trace t)" for t :: "'a web_socket_scheme"
    using w(3,6) by (auto simp: cb_events_def is_receive_def send_reply_def Let_def results_of_def not_result_def)
  show ?thesis using w(1,6) c e
    by (auto simp: LwsCallback_def cb_first_def cb_second_def Let_def)
qed

fun complete_run :: "lws_call list \<Rightarrow> 'a web_socket_scheme \<Rightarrow> bool" where
  "complete_run [] s \<longleftrightarrow> True"
| "complete_run (cl # cls) s \<longleftrightarrow> complete_write cl s \<and> complete_run cls (snd (snd (LwsCallback cl s)))"

text \<open>Writeable callbacks that each send the first write completely refine the outbox: every one sends
  one write as a whole and answers it once, in the order of the queue.\<close>

theorem whole_writes_refine_outbox:
  assumes "complete_run cls s"
  shows "outbox (serve cls s) = (ob_send ^^ length cls) (outbox s)"
  using assms
proof (induction cls arbitrary: s)
  case Nil
  then show ?case by simp
next
  case (Cons cl cls)
  then show ?case by (simp add: LwsCallback_complete funpow_swap1)
qed

theorem whole_writes_refine_outbox_witness:
  "outbox (serve [sample_writeable 3] (emit (EvWritePush sample_write BOF_ERR_NO_ERROR) sample_connected)) =
     \<lparr>ob_queue = [], ob_sent = [1, 2, 3], ob_done = [1]\<rparr>"
  using whole_writes_refine_outbox [of "[sample_writeable 3]" "emit (EvWritePush sample_write BOF_ERR_NO_ERROR) sample_connected"]
  by (simp add: sample_write_defs sample_defs complete_write_def outbox_def ob_send_def ob_enqueue_def)

section \<open>The start of a write\<close>

text \<open>The write a command asks for: its ticket and the bytes of the user's buffer.\<close>

definition asked_write :: "turn_in \<Rightarrow> operation_param \<Rightarrow> u32 \<times> byte list" where
  "asked_write i op = (Ticket_U32 op, take (unat (Nb_U32 (write_of op))) (ti_user_bytes i))"

definition valid_write :: "operation_param \<Rightarrow> bool" where
  "valid_write op \<longleftrightarrow> Operation_E op = OPERATION_WRITE \<and> io_pBuffer_U8 (write_of op) \<noteq> 0 \<and> Nb_U32 (write_of op) \<noteq> 0"

text \<open>A connected client with nothing pending.\<close>

definition idle_connected :: "engine \<Rightarrow> bool" where
  "idle_connected s \<longleftrightarrow> mpLwsContext_X s \<and> io_ready s \<and> \<not> l_IoPending_B s \<and> \<not> l_ListeningMode_B s \<and> \<not> mCancel_B s"

lemma write_of_timer [simp]: "write_of (op\<lparr>Timer_U32 := t\<rparr>) = write_of op"
  by (simp add: write_of_def)

lemma io_ready_same:
  "mWebSocketParam_X s' = mWebSocketParam_X s \<Longrightarrow> mWebSocketState_X s' = mWebSocketState_X s \<Longrightarrow> io_ready s' = io_ready s"
  by (simp add: io_ready_def is_server_def)

lemma start_write_outbox:
  assumes "io_ready s" "valid_write (mCurrentOp_X s)"
  shows "outbox (start_write i s) =
    (if ti_write_push i = BOF_ERR_NO_ERROR
     then ob_enqueue (OpTicket_U32 (l_Result_X s), snd (asked_write i (mCurrentOp_X s))) (outbox s) else outbox s)"
    "Sts_E (l_Result_X (start_write i s)) =
      (if ti_write_push i \<noteq> BOF_ERR_NO_ERROR then ti_write_push i
       else if 0 < ti_on_writable i then BOF_ERR_NO_ERROR else BOF_ERR_OPERATION_FAILED)"
    "l_Result_X (start_write i s) = (l_Result_X s)\<lparr>Sts_E := Sts_E (l_Result_X (start_write i s))\<rparr>"
  using assms by (simp_all add: start_write_def valid_write_def asked_write_def RemainToRead_def Let_def)

text \<open>The turn of a valid WRITE on an idle connected client.\<close>

lemma write_turn:
  assumes "idle_connected s" "ti_calls i = []" "ti_pop i = Some op" "valid_write op" "ti_write_push i = BOF_ERR_NO_ERROR"
  shows "outbox (process_turn i s) = ob_enqueue (asked_write i op) (outbox s) \<and> \<not> l_IoPending_B (process_turn i s) \<and>
    (\<exists>es. ws_trace (process_turn i s) = es @
       (if 0 < ti_on_writable i then [] else answer i s op
          \<lparr>res_Operation_E = OPERATION_WRITE, OpTicket_U32 = Ticket_U32 op, Sts_E = BOF_ERR_OPERATION_FAILED,
           Size_U32 = 0, res_pBuffer_U8 = NullBuffer, Time_U32 = ti_elapsed_send i\<rparr>)) \<and>
    (0 < ti_on_writable i \<longrightarrow> results_of (ws_trace (process_turn i s)) = results_of (ws_trace s))"
proof -
  let ?s1 = "s\<lparr>mCurrentOp_X := op, l_NewCommandRcv_B := True\<rparr>"
  let ?a = "accepted i ?s1"
  let ?s2 = "start_write i ?a"
  have s: "mpLwsContext_X s" "io_ready s" "\<not> l_IoPending_B s" "\<not> l_ListeningMode_B s" "\<not> mCancel_B s"
    using assms(1) by (simp_all add: idle_connected_def)
  have st: "start_operation i ?a = ?s2" using assms(4) by (simp add: start_operation_def valid_write_def)
  have io: "io_ready ?a" using s(2) by (subst io_ready_same [of _ s]) simp_all
  have v: "valid_write (mCurrentOp_X ?a)" using assms(4) by (simp add: valid_write_def)
  note o = start_write_outbox [OF io v, of i]
  have "outbox ?a = outbox s" by (rule outbox_same) simp
  then have ob: "outbox ?s2 = ob_enqueue (asked_write i op) (outbox s)"
    using o(1) assms(5) by (simp add: asked_write_def)
  have op: "mCurrentOp_X ?s2 = op\<lparr>Timer_U32 := ti_now_cmd i\<rparr>" "\<not> l_ListeningMode_B ?s2"
      "l_SendResult_B ?s2" "\<not> l_IoPending_B ?s2" "mWebSocketParam_X ?s2 = mWebSocketParam_X s" "\<not> mCancel_B ?s2"
    using s by (simp_all add: start_write_def start_listening start_param Let_def)
  have sc: "start_command i ?s1 = (if 0 < ti_on_writable i then ?s2\<lparr>l_IoPending_B := True\<rparr> else ?s2)"
    using s o(2) assms(5) by (simp add: start_command_accepts st)
  have pop: "pop_command i s = ?s1" using s assms(2,3) by (simp add: pop_quiet)
  have silent: "results_of (ws_trace ?s2) = results_of (ws_trace s)"
    using results_of_extends [OF start_write_silent, of i ?a] by simp
  show ?thesis
  proof (cases "0 < ti_on_writable i")
    case True
    let ?s3 = "pending_switch i (?s2\<lparr>l_IoPending_B := True, l_SendResult_B := False\<rparr>)"
    let ?s4 = "?s3\<lparr>l_Result_X := (l_Result_X ?s3)\<lparr>Time_U32 := ti_elapsed_io i\<rparr>\<rparr>"
    have sw: "\<not> l_SendResult_B ?s3" "\<not> l_IoPending_B ?s3" "mCurrentOp_X ?s3 = mCurrentOp_X ?s2" "ws_trace ?s3 = ws_trace ?s2"
      using op(1) assms(4) by (simp_all add: pending_switch_def valid_write_def)
    have t: "pending_timeout i ?s3 = ?s4"
      by (rule in_time) (use sw(3) op(1) assms(4) in \<open>simp add: valid_write_def\<close>)
    have "process_turn i s = ?s4"
      using sw(1) True op(6)
      by (simp add: process_turn_def pop sc check_pending_busy t do_cancel_idle send_result_simps(2))
    moreover have "outbox ?s4 = outbox ?s2" by (rule outbox_same) (use sw(4) in simp)
    ultimately show ?thesis using ob sw(2,4) True silent by simp
  next
    case False
    have p: "process_turn i s = send_result i ?s2"
      using False op by (simp add: process_turn_def pop sc check_pending_idle do_cancel_idle)
    have r: "l_Result_X ?s2 = \<lparr>res_Operation_E = OPERATION_WRITE, OpTicket_U32 = Ticket_U32 op,
        Sts_E = BOF_ERR_OPERATION_FAILED, Size_U32 = 0, res_pBuffer_U8 = NullBuffer, Time_U32 = ti_elapsed_cmd i\<rparr>"
      by (subst o(3), subst o(2)) (use False assms(4,5) in \<open>simp add: valid_write_def\<close>)
    have "outbox (send_result i ?s2) = outbox ?s2"
      by (simp add: outbox_def send_result_simps(1) [OF op(3)] answer_def r)
    then show ?thesis unfolding p using ob False op by (simp add: send_result_simps r answer_def)
  qed
qed

text \<open>A valid WRITE of an idle connected client that libwebsockets can schedule refines the enqueuing of
  the outbox, and is not answered by the turn itself.\<close>

theorem write_refines_enqueue:
  assumes "idle_connected s" "ti_calls i = []" "ti_pop i = Some op" "valid_write op"
    "ti_write_push i = BOF_ERR_NO_ERROR" "0 < ti_on_writable i"
  shows "outbox (process_turn i s) = ob_enqueue (asked_write i op) (outbox s) \<and> \<not> l_IoPending_B (process_turn i s)"
  using write_turn [OF assms(1-5)] by blast

theorem write_refines_enqueue_witness:
  "ob_queue (outbox (process_turn (quiet_turn\<lparr>ti_pop := Some sample_write_op\<rparr>) sample_connected)) = [(1, [1, 2, 3])]"
  using write_refines_enqueue [of sample_connected "quiet_turn\<lparr>ti_pop := Some sample_write_op\<rparr>" sample_write_op]
  by (simp add: sample_write_defs sample_defs idle_connected_def valid_write_def write_of_def asked_write_def
      io_ready_def outbox_def ob_enqueue_def)

text \<open>C32. A WRITE that libwebsockets cannot schedule is answered as failed but stays in the queue: the next
  writeable callback sends it and answers the same ticket again.\<close>

theorem failed_write_is_still_sent:
  assumes "idle_connected s" "ti_calls i = []" "ti_pop i = Some op" "valid_write op"
    "ti_write_push i = BOF_ERR_NO_ERROR" "ti_on_writable i \<le> 0" "ob_queue (outbox s) = []"
    and "complete_write cl (process_turn i s)"
  shows "(\<exists>es. ws_trace (process_turn i s) = es @ answer i s op
       \<lparr>res_Operation_E = OPERATION_WRITE, OpTicket_U32 = Ticket_U32 op, Sts_E = BOF_ERR_OPERATION_FAILED,
        Size_U32 = 0, res_pBuffer_U8 = NullBuffer, Time_U32 = ti_elapsed_send i\<rparr>) \<and>
    outbox (serve [cl] (process_turn i s)) = (outbox s)\<lparr>ob_sent := ob_sent (outbox s) @ snd (asked_write i op),
      ob_done := ob_done (outbox s) @ [Ticket_U32 op]\<rparr>"
proof -
  from write_turn [OF assms(1-5)] assms(6)
  have ob: "outbox (process_turn i s) = ob_enqueue (asked_write i op) (outbox s)"
    and tr: "\<exists>es. ws_trace (process_turn i s) = es @ answer i s op
       \<lparr>res_Operation_E = OPERATION_WRITE, OpTicket_U32 = Ticket_U32 op, Sts_E = BOF_ERR_OPERATION_FAILED,
        Size_U32 = 0, res_pBuffer_U8 = NullBuffer, Time_U32 = ti_elapsed_send i\<rparr>"
    by simp_all
  have "outbox (serve [cl] (process_turn i s)) = ob_send (ob_enqueue (asked_write i op) (outbox s))"
    using LwsCallback_complete [OF assms(8)] ob by simp
  also have "\<dots> = (outbox s)\<lparr>ob_sent := ob_sent (outbox s) @ snd (asked_write i op),
      ob_done := ob_done (outbox s) @ [Ticket_U32 op]\<rparr>"
    using assms(7) by (cases "outbox s") (simp add: ob_send_def ob_enqueue_def asked_write_def)
  finally show ?thesis using tr by blast
qed

theorem failed_write_is_still_sent_witness:
  "ob_done (outbox (serve [sample_writeable 3]
     (process_turn (quiet_turn\<lparr>ti_pop := Some sample_write_op, ti_on_writable := 0\<rparr>) sample_connected))) = [1]"
proof -
  let ?i = "quiet_turn\<lparr>ti_pop := Some sample_write_op, ti_on_writable := 0\<rparr>"
  have v: "idle_connected sample_connected" "ti_calls ?i = []" "ti_pop ?i = Some sample_write_op" "valid_write sample_write_op"
    "ti_write_push ?i = BOF_ERR_NO_ERROR" "ti_on_writable ?i \<le> 0" "ob_queue (outbox sample_connected) = []"
    by (simp_all add: sample_write_defs sample_defs idle_connected_def valid_write_def write_of_def io_ready_def outbox_def)
  have "outbox (process_turn ?i sample_connected) = ob_enqueue (asked_write ?i sample_write_op) (outbox sample_connected)"
    using write_turn [OF v(1-5)] by blast
  then have "complete_write (sample_writeable 3) (process_turn ?i sample_connected)"
    by (simp add: complete_write_def ob_enqueue_def asked_write_def outbox_def sample_write_defs sample_defs write_of_def)
  from failed_write_is_still_sent [OF v this] show ?thesis
    by (simp add: outbox_def sample_write_defs sample_defs)
qed

end
