(* ===== verification/WsServer.thy ===== *)
theory WsServer
  imports WsConnection
begin

text \<open>
  Invariants of every reachable state of the engine: the clients of a server stay within its seats, the
  operation in progress has a parameter of its kind, results carry tickets that were programmed.  Then the
  behaviours of the callback around names and closing.
\<close>

section \<open>The clients stay within the seats\<close>

definition registry_view :: "'a web_socket_scheme \<Rightarrow> client_map \<times> web_socket_param" where
  "registry_view s = (mClientCollection s, mWebSocketParam_X s)"

lemma registry_inv_view: "registry_view s' = registry_view s \<Longrightarrow> registry_inv s' = registry_inv s"
  by (simp add: registry_view_def registry_inv_def)

lemma registry_view_base [simp]:
  "registry_view (emit e s) = registry_view s" "registry_view (bof_assert b s) = registry_view s"
  "registry_view (s\<lparr>mWebSocketState_X := a\<rparr>) = registry_view s"
  "registry_view (s\<lparr>mpLwsContext_X := d\<rparr>) = registry_view s"
  "registry_view (s\<lparr>mNbRxByServer_U64 := c\<rparr>) = registry_view s" "registry_view (s\<lparr>mNbTxByServer_U64 := c\<rparr>) = registry_view s"
  "registry_view (s\<lparr>mNbRxByClient_U64 := c\<rparr>) = registry_view s" "registry_view (s\<lparr>mNbTxByClient_U64 := c\<rparr>) = registry_view s"
  "registry_view (LWS_CLIENT_DISCONNECT s) = registry_view s"
  by (simp_all add: registry_view_def)

lemma registry_view_helpers [simp]:
  "registry_view (call_OnOpen s) = registry_view s" "registry_view (call_OnClose s) = registry_view s"
  "registry_view (read_close_info cl s) = registry_view s" "registry_view (send_reply wsi cl s) = registry_view s"
  "registry_view (snd (SetSocketBufferSize fd sz sts a b s)) = registry_view s"
  by (simp_all add: call_OnOpen_def call_OnClose_def read_close_info_def send_reply_def SetSocketBufferSize_def
      split: prod.split option.split)

lemma registry_view_parts [simp]:
  "registry_view (cb_writeable srv wsi cl s) = registry_view s" "registry_view (cb_receive srv cl s) = registry_view s"
  "registry_view (cb_events wsi cl s) = registry_view s" "registry_view (snd (cb_add_headers wsi cl s)) = registry_view s"
  "registry_view (snd (cb_client_established wsi cl s)) = registry_view s"
  by (simp_all add: cb_writeable_def finish_write_def cb_receive_def cb_events_def cb_add_headers_def
      cb_client_established_def Let_def split_def split: option.split)

text \<open>Taking a client in and letting one go.\<close>

lemma AddClient_inv:
  assumes "registry_inv s"
  shows "registry_inv (snd (snd (AddClient k d s)))"
proof (cases d)
  case None
  then show ?thesis using assms by (simp add: AddClient_def)
next
  case (Some x)
  have inv: "kv_inv (mClientCollection s)" using assms by (simp add: registry_inv_def)
  show ?thesis
    using assms kv_inv_put [OF inv] kv.count_put_new [OF inv, of k "x\<lparr>ConnectDone_B := True\<rparr>"]
    by (auto simp: Some AddClient_def registry_inv_def Let_def split: option.split)
qed

lemma RemoveClient_inv:
  assumes "registry_inv s"
  shows "registry_inv (snd (snd (RemoveClient d s)))"
proof -
  have "kv_inv (mClientCollection s)" using assms by (simp add: registry_inv_def)
  then have "kv_inv (kv_erase k (mClientCollection s))" "length (kv_erase k (mClientCollection s)) \<le> length (mClientCollection s)" for k
    using kv_inv_erase kv.count_erase_le by auto
  then show ?thesis
    using assms by (auto simp: RemoveClient_def registry_inv_def split: option.split intro: order_trans)
qed

lemma cb_established_inv:
  assumes "registry_inv s"
  shows "registry_inv (snd (snd (cb_established wsi cl s)))"
proof -
  obtain e s1 where b: "SetSocketBufferSize (lc_socket_fd cl) (lc_socket_sizes cl) (lc_socket_sts cl)
    (SocketRcvBufferSize_U32 (mWebSocketParam_X s)) (SocketSndBufferSize_U32 (mWebSocketParam_X s)) s = (e, s1)"
    by fastforce
  then have s1: "registry_view s1 = registry_view s" by (metis registry_view_helpers(5) snd_conv)
  let ?s2 = "(case pWebSocket_X (mWebSocketState_X s1) of None \<Rightarrow> s1 | Some w \<Rightarrow> bof_assert (w = wsi) s1)"
  let ?s3 = "?s2\<lparr>mWebSocketState_X := (mWebSocketState_X ?s2)\<lparr>pWebSocket_X := Some wsi\<rparr>\<rparr>"
  have s3: "registry_view ?s3 = registry_view s" using s1 by (simp split: option.split)
  then have i3: "registry_inv ?s3" using assms registry_inv_view by blast
  have i1: "registry_inv s1" using s1 assms registry_inv_view by blast
  show ?thesis
  proof (cases "lc_session cl")
    case None
    then show ?thesis using b i1 i3 registry_inv_view [of "emit EvNullSession ?s3" ?s3]
      by (auto simp: cb_established_def Let_def)
  next
    case (Some d)
    obtain e' d' s4 where a: "AddClient (c_str (lc_stack_key cl)) (Some (d\<lparr>pWebSocket_X := Some wsi\<rparr>)) ?s3 = (e', d', s4)"
      by (metis prod_cases3)
    have i4: "registry_inv s4" using AddClient_inv [OF i3] a by (metis snd_conv)
    have o: "registry_inv (call_OnOpen (s4\<lparr>mWebSocketState_X := x\<rparr>))" for x
      by (rule registry_inv_view [THEN iffD2, OF _ i4]) simp
    have "registry_inv (emit x s4)" for x by (rule registry_inv_view [THEN iffD2, OF _ i4]) simp
    then show ?thesis using b i1 a o Some by (auto simp: cb_established_def Let_def)
  qed
qed

lemma LwsCallback_inv:
  assumes "registry_inv s"
  shows "registry_inv (snd (snd (LwsCallback cl s)))"
proof (cases "lc_wsi cl")
  case None
  then show ?thesis using assms by (simp add: LwsCallback_def)
next
  case (Some wsi)
  have v: "registry_inv t'" if "registry_view t' = registry_view t" "registry_inv t" for t t' :: "'a web_socket_scheme"
    using that registry_inv_view by blast
  have first: "registry_inv (snd (snd (cb_first wsi cl s)))"
  proof (cases "lc_reason cl = LWS_CALLBACK_ESTABLISHED")
    case True
    then show ?thesis using cb_established_inv [OF assms] by (simp add: cb_first_def)
  next
    case False
    then show ?thesis
      by (intro v [OF _ assms]) (simp add: cb_first_def split_def split: lws_reason.split)
  qed
  let ?s1 = "cb_events wsi cl (snd (snd (cb_first wsi cl s)))"
  have ev: "registry_inv ?s1" by (rule v [OF _ first]) simp
  have "registry_inv (snd (cb_second cl d ?s1))" for d
  proof (cases "lc_reason cl = LWS_CALLBACK_CLOSED")
    case True
    let ?s2 = "?s1\<lparr>mWebSocketState_X := (mWebSocketState_X ?s1)\<lparr>ConnectDone_B := False\<rparr>\<rparr>"
    have "registry_inv (snd (snd (RemoveClient d ?s2)))"
      by (rule RemoveClient_inv, rule v [OF _ ev]) simp
    then have "registry_inv (call_OnClose (read_close_info cl (snd (snd (RemoveClient d ?s2)))))"
      by (rule v [rotated]) simp
    then show ?thesis using True by (simp add: cb_second_def split_def)
  next
    case False
    then show ?thesis
      by (intro v [OF _ ev]) (simp add: cb_second_def Let_def split_def split: lws_reason.split)
  qed
  then show ?thesis by (simp add: LwsCallback_def Some Let_def split_def)
qed

lemma serve_inv: "registry_inv s \<Longrightarrow> registry_inv (serve cls s)"
  by (induction cls arbitrary: s) (simp_all add: LwsCallback_inv)

text \<open>The thread and the application leave the clients alone, apart from the service.\<close>

lemma start_parts_view:
  "registry_view (start_listen i s) = registry_view s" "registry_view (start_connect i s) = registry_view s"
  "registry_view (start_disconnect s) = registry_view s" "registry_view (start_exit s) = registry_view s"
  "registry_view (start_read s) = registry_view s" "registry_view (start_write i s) = registry_view s"
  by (simp_all add: registry_view_def start_defs Let_def)

lemma start_command_view: "registry_view (start_command i s) = registry_view s"
proof (cases "(\<not> l_IoPending_B s \<or> l_ListeningMode_B s) \<and> l_NewCommandRcv_B s")
  case True
  have o: "registry_view (start_operation i t) = registry_view t" for t
    by (simp add: start_operation_def start_parts_view split: operation.split) (simp add: registry_view_def)
  have "registry_view (accepted i s) = registry_view s" by (simp add: registry_view_def accepted_def)
  with o True show ?thesis by (simp add: start_command_accepts) (simp add: registry_view_def)
qed (simp only: start_command_def if_False)

lemma pending_view:
  "registry_view (pending_switch i s) = registry_view s" "registry_view (pending_timeout i s) = registry_view s"
  "registry_view (do_cancel s) = registry_view s" "registry_view (send_result i s) = registry_view s"
  by (simp_all add: registry_view_def pending_switch_def pending_timeout_def do_cancel_def send_result_def Let_def
      split: operation.split prod.split)

lemma process_turn_view: "registry_view (process_turn i s) = registry_view (pop_command i s)"
proof -
  have "registry_view (check_pending i t) = registry_view t" for t
    by (simp add: check_pending_def pending_view) (simp add: registry_view_def)
  then show ?thesis by (simp add: process_turn_def pending_view start_command_view)
qed

lemma process_turn_inv:
  assumes "registry_inv s"
  shows "registry_inv (process_turn i s)"
proof -
  have "registry_inv (pop_command i s)"
    using serve_inv [OF assms] assms by (auto simp: pop_command_def Let_def registry_inv_def split: option.split)
  then show ?thesis using registry_inv_view [OF process_turn_view] by blast
qed

lemma engine_step_inv:
  assumes "engine_step s s'" "registry_inv s"
  shows "registry_inv s'"
  using assms(1)
proof cases
  case (Turn i)
  then show ?thesis using process_turn_inv assms(2) by simp
next
  case Program
  then show ?thesis using assms(2) programs_operation [OF Program]
    by (auto simp: registry_inv_def program_operation_def LWS_WAKEUP_SERVICE_def Let_def)
next
  case (Cancel e t)
  then show ?thesis using assms(2) by (auto simp: registry_inv_def CancelWebSocketOperation_def Let_def)
next
  case Clear
  then show ?thesis using assms(2) by (simp add: registry_inv_def ClearWebSocketOperation_def)
next
  case Reset
  then show ?thesis using assms(2) by (simp add: registry_inv_def ResetWebSocketOperation_def ClearWebSocketOperation_def)
qed

text \<open>C13. In every state the thread and the application can reach, the clients are in the order of their
  keys, each key once, and no more than the seats of the server.\<close>

theorem clients_within_seats:
  assumes "reachable junk p s"
  shows "kv_inv (mClientCollection s) \<and> length (mClientCollection s) \<le> unat (NbMaxClient_U32 (mWebSocketParam_X s))"
proof -
  have "registry_inv s"
    using assms
  proof induction
    case Start
    then show ?case
      by (simp add: registry_inv_def start_processing_def web_socket.defs BofWebSocket_def bof_assert_def kv_inv_def)
  next
    case (Step s s')
    then show ?case using engine_step_inv by blast
  qed
  then show ?thesis by (simp add: registry_inv_def)
qed

section \<open>The operation in progress has a parameter of its kind\<close>

definition typed_op :: "operation_param \<Rightarrow> bool" where
  "typed_op op \<longleftrightarrow> Operation_E op = OPERATION_MAX \<or> op_matches (Operation_E op) (OpParam op)"

definition well_typed :: "engine \<Rightarrow> bool" where
  "well_typed s \<longleftrightarrow> typed_op (mCurrentOp_X s) \<and> (\<forall>op e. EvCmdPush op e \<in> set (ws_trace s) \<longrightarrow> typed_op op)"

text \<open>The commands pushed are those the application pushed.\<close>

definition no_command :: "ws_event \<Rightarrow> bool" where
  "no_command e \<longleftrightarrow> (case e of EvCmdPush _ _ \<Rightarrow> False | _ \<Rightarrow> True)"

lemma no_command_simple [simp]: "\<not> is_push e \<Longrightarrow> no_command e"
  by (cases e) (simp_all add: no_command_def)

lemma well_typed_extends:
  assumes "extends no_command s s'" "well_typed s" "typed_op (mCurrentOp_X s')"
  shows "well_typed s'"
proof -
  have "EvCmdPush op e \<in> set (ws_trace s)" if "EvCmdPush op e \<in> set (ws_trace s')" for op e
    using extends_cases [OF assms(1) that] by (auto simp: no_command_def)
  then show ?thesis using assms(2,3) by (auto simp: well_typed_def)
qed

lemma pop_command_typed:
  assumes "queues_honest i s" "well_typed s"
  shows "well_typed (pop_command i s)"
proof -
  have "extends no_command s (serve (ti_calls i) s)"
    by (rule extends_mono [OF extends_serve])
      (auto simp: served_event_def callback_event_def no_command_def split: ws_event.split)
  then have e: "extends no_command s (pop_command i s)"
    by (auto simp: pop_command_def Let_def extends_def split: option.split)
  have "typed_op (mCurrentOp_X (pop_command i s))"
  proof (cases "ti_pop i")
    case None
    then show ?thesis using assms(2)
      by (simp add: pop_command_def Let_def well_typed_def) (simp add: OPERATION_PARAM_Reset_def typed_op_def)
  next
    case (Some op)
    then have "EvCmdPush op BOF_ERR_NO_ERROR \<in> set (ws_trace s)" using assms(1) by (simp add: queues_honest_def)
    then show ?thesis using Some assms(2) by (auto simp: well_typed_def)
  qed
  with e assms(2) show ?thesis by (rule well_typed_extends)
qed

lemma start_command_typed:
  assumes "well_typed s"
  shows "well_typed (start_command i s)"
proof (cases "(\<not> l_IoPending_B s \<or> l_ListeningMode_B s) \<and> l_NewCommandRcv_B s")
  case False
  show ?thesis unfolding start_command_def if_not_P [OF False] by (rule assms)
next
  case True
  let ?t = "start_operation i (accepted i s)"
  have "extends (started_event (OpTicket_U32 (l_Result_X (accepted i s)))) (accepted i s) ?t"
    by (rule extends_start_operation)
  then have "extends no_command (accepted i s) ?t"
    by (rule extends_mono) (auto simp: started_event_def no_command_def split: ws_event.splits)
  then have e: "extends no_command s ?t" by (simp add: extends_def)
  have "typed_op (mCurrentOp_X ?t)"
    using assms start_operation_op [of i "accepted i s"] by (auto simp: typed_op_def well_typed_def)
  from well_typed_extends [OF e assms this] True show ?thesis
    by (simp add: start_command_accepts well_typed_def)
qed

lemma typed_op_same:
  "Operation_E op' = Operation_E op \<Longrightarrow> OpParam op' = OpParam op \<Longrightarrow> typed_op op \<Longrightarrow> typed_op op'"
  by (simp add: typed_op_def)

lemma pending_op:
  "Operation_E (mCurrentOp_X (pending_switch i s)) = Operation_E (mCurrentOp_X s)"
  "OpParam (mCurrentOp_X (pending_switch i s)) = OpParam (mCurrentOp_X s)"
  "mCurrentOp_X (pending_timeout i s) = mCurrentOp_X s" "mCurrentOp_X (send_result i s) = mCurrentOp_X s"
  by (simp_all add: pending_switch_def pending_timeout_def send_result_def Let_def split: operation.split prod.split)

lemma check_pending_typed:
  assumes "well_typed s"
  shows "well_typed (check_pending i s)"
proof (cases "l_IoPending_B s")
  case False
  then show ?thesis using assms by (simp add: check_pending_def)
next
  case True
  let ?s1 = "s\<lparr>l_SendResult_B := False\<rparr>"
  have "extends plain ?s1 (check_pending i s)"
    using extends_trans [OF pending_switch_frame(1) pending_timeout_frame(1)] True by (simp add: check_pending_busy)
  then have "extends no_command ?s1 (check_pending i s)" by (rule extends_mono) (simp add: plain_def)
  moreover have "well_typed ?s1" using assms by (simp add: well_typed_def)
  moreover have "typed_op (mCurrentOp_X (check_pending i s))"
    by (rule typed_op_same [of _ "mCurrentOp_X s"])
      (use True assms in \<open>simp_all add: check_pending_busy pending_op well_typed_def\<close>)
  ultimately show ?thesis by (rule well_typed_extends)
qed

lemma process_turn_typed:
  assumes "queues_honest i s" "well_typed s"
  shows "well_typed (process_turn i s)"
proof -
  let ?t = "check_pending i (start_command i (pop_command i s))"
  have t: "well_typed ?t"
    using assms by (intro check_pending_typed start_command_typed pop_command_typed)
  have "extends no_command ?t (do_cancel ?t)"
    by (rule extends_mono [OF do_cancel_frame(1)]) (simp add: plain_def)
  moreover have "typed_op (mCurrentOp_X (do_cancel ?t))"
  proof (cases "mCancel_B ?t")
    case True
    then show ?thesis by (simp only: do_cancel_def if_True Let_def) (simp add: typed_op_def OPERATION_PARAM_Reset_def)
  next
    case False
    show ?thesis unfolding do_cancel_idle [OF False] using t by (simp add: well_typed_def)
  qed
  ultimately have c: "well_typed (do_cancel ?t)" using t well_typed_extends by blast
  have "extends no_command (do_cancel ?t) (send_result i (do_cancel ?t))"
    by (cases "l_SendResult_B (do_cancel ?t)")
      (simp_all add: extends_def send_result_simps(1,2) answer_def no_command_def)
  then show ?thesis
    unfolding process_turn_def by (rule well_typed_extends [OF _ c]) (use c in \<open>simp add: pending_op well_typed_def\<close>)
qed

lemma program_typed:
  assumes "op_matches op p" "well_typed s"
  shows "well_typed (snd (snd (program_operation a t op p s)))"
proof -
  let ?o = "\<lparr>Operation_E = op, Ticket_U32 = mTicket_U32 s, TimeOut_U32 = t, Timer_U32 = ai_now a, OpParam = p\<rparr>"
  have "typed_op ?o" using assms(1) by (simp add: typed_op_def)
  moreover have "set (ws_trace (snd (snd (program_operation a t op p s)))) \<subseteq>
      insert (EvCmdPush ?o (ai_push a)) (insert EvWakeup (set (ws_trace s)))"
    by (simp add: program_operation_def LWS_WAKEUP_SERVICE_def Let_def) blast
  moreover have "mCurrentOp_X (snd (snd (program_operation a t op p s))) = mCurrentOp_X s"
    by (simp add: program_operation_def LWS_WAKEUP_SERVICE_def Let_def)
  ultimately show ?thesis using assms(2) by (auto simp: well_typed_def)
qed

text \<open>Each overload writes the member of its own kind.\<close>

lemma programs_typed: "programs s s' \<Longrightarrow> well_typed s \<Longrightarrow> well_typed s'"
  by (erule programsE) (simp_all add: program_defs program_typed)

lemma engine_step_typed:
  assumes "engine_step s s'" "well_typed s"
  shows "well_typed s'"
  using assms(1)
proof cases
  case (Turn i)
  then show ?thesis using process_turn_typed assms(2) by simp
next
  case Program
  then show ?thesis using programs_typed assms(2) by blast
next
  case (Cancel e t)
  then show ?thesis using assms(2) by (auto simp: well_typed_def CancelWebSocketOperation_def Let_def)
next
  case Clear
  then show ?thesis using assms(2) by (simp add: well_typed_def ClearWebSocketOperation_def)
next
  case Reset
  then show ?thesis using assms(2) by (simp add: well_typed_def ResetWebSocketOperation_def ClearWebSocketOperation_def)
qed

lemma reachable_typed: "reachable junk p s \<Longrightarrow> well_typed s"
proof (induction rule: reachable.induct)
  case Start
  then show ?case
    by (simp add: well_typed_def typed_op_def start_processing_def web_socket.defs BofWebSocket_def bof_assert_def)
next
  case (Step s s')
  then show ?case using engine_step_typed by blast
qed

text \<open>C15. In every reachable state the parameter of the operation in progress is the union member of its
  kind, so no member is read that was not written.\<close>

theorem current_operation_is_typed:
  assumes "reachable junk p s"
  shows "Operation_E (mCurrentOp_X s) = OPERATION_MAX \<or>
    op_matches (Operation_E (mCurrentOp_X s)) (OpParam (mCurrentOp_X s))"
  using reachable_typed [OF assms] by (simp add: well_typed_def typed_op_def)

text \<open>C12. Whatever the application programs and libwebsockets does, the ticket of a result is that of a
  command that was programmed, or the value the uninitialised ticket of the listen operation had.\<close>

theorem results_have_programmed_tickets:
  assumes "reachable junk p s" "EvResultPush r e \<in> set (ws_trace s)"
  shows "OpTicket_U32 r = junk \<or>
    (\<exists>op. EvCmdPush op BOF_ERR_NO_ERROR \<in> set (ws_trace s) \<and> Ticket_U32 op = OpTicket_U32 r)"
  using reachable_known [OF assms(1)] assms(2) by (auto simp: tickets_known_def pushes_known_def programmed_def)

section \<open>A server never connects, a client never listens\<close>

text \<open>The commands the application programmed, and the connection one of them asks for: its address and port,
  and the whole name in the path.\<close>

definition commands :: "'a web_socket_scheme \<Rightarrow> operation_param set" where
  "commands s = {op. EvCmdPush op BOF_ERR_NO_ERROR \<in> set (ws_trace s)}"

definition asks_connection :: "operation_param \<Rightarrow> u32 \<Rightarrow> u16 \<Rightarrow> string \<Rightarrow> bool" where
  "asks_connection op ip port path \<longleftrightarrow> Operation_E op = OPERATION_CONNECT \<and>
     (let p = connect_of op; key = c_str (pWsCltKey_c p)
      in ip = DstIpAddr_X p \<and> port = DstPort_U16 p \<and> path = ''/?bof_ws_clt_key='' @ key \<and>
         0 < length key \<and> length key < 128)"

text \<open>What each role may do, for the commands given to it.\<close>

definition role_ok :: "bool \<Rightarrow> operation_param set \<Rightarrow> ws_event \<Rightarrow> bool" where
  "role_ok server ops e \<longleftrightarrow> (case e of
     EvCreateContext listens \<Rightarrow> listens = server
   | EvConnect ip port path \<Rightarrow> \<not> server \<and> (\<exists>op \<in> ops. asks_connection op ip port path)
   | _ \<Rightarrow> True)"

lemma role_ok_other [simp]: "\<not> is_role e \<Longrightarrow> role_ok server ops e"
  by (cases e) (simp_all add: role_ok_def)

lemma role_ok_mono: "role_ok server ops e \<Longrightarrow> ops \<subseteq> ops' \<Longrightarrow> role_ok server ops' e"
  by (cases e) (auto simp: role_ok_def)

lemma asks_connection_timer [simp]: "asks_connection (op\<lparr>Timer_U32 := t\<rparr>) = asks_connection op"
  by (simp add: asks_connection_def fun_eq_iff)

lemma role_ok_timer: "role_ok server {op\<lparr>Timer_U32 := t\<rparr>} e \<Longrightarrow> role_ok server {op} e"
  by (cases e) (auto simp: role_ok_def)

definition roles_inv :: "engine \<Rightarrow> bool" where
  "roles_inv s \<longleftrightarrow> (\<forall>e \<in> set (ws_trace s). role_ok (is_server s) (commands s) e) \<and> (l_ListeningMode_B s \<longrightarrow> is_server s)"

lemma commands_extends: "extends P s s' \<Longrightarrow> commands s \<subseteq> commands s'"
  using extends_subset by (fastforce simp: commands_def)

lemma roles_extends:
  assumes "extends (role_ok (is_server s) (commands s)) s s'" "roles_inv s" "mWebSocketParam_X s' = mWebSocketParam_X s"
    and "l_ListeningMode_B s' \<longrightarrow> l_ListeningMode_B s \<or> is_server s"
  shows "roles_inv s'"
proof -
  have "role_ok (is_server s) (commands s') e" if "e \<in> set (ws_trace s')" for e
    using extends_cases [OF assms(1) that] assms(2) role_ok_mono [OF _ commands_extends [OF assms(1)]]
    by (auto simp: roles_inv_def)
  then show ?thesis using assms(2,4) is_server_same [OF assms(3)] by (auto simp: roles_inv_def)
qed

lemma connect_path_whole: "length key < 128 \<Longrightarrow> connect_path key = ''/?bof_ws_clt_key='' @ key"
  by (simp add: connect_path_def snprintf_buf_def)

lemma start_operation_roles:
  "extends (role_ok (is_server s) {mCurrentOp_X s}) s (start_operation i s)"
  "l_ListeningMode_B (start_operation i s) \<longrightarrow> l_ListeningMode_B s \<or> is_server s"
proof -
  let ?P = "role_ok (is_server s) {mCurrentOp_X s}"
  have l: "extends ?P s (start_listen i s)"
    by (simp add: start_listen_def Let_def extends_def role_ok_def)
  have c: "extends ?P s (start_connect i s)" if "Operation_E (mCurrentOp_X s) = OPERATION_CONNECT"
  proof (cases "is_server s")
    case False
    then show ?thesis using that
      by (auto simp: start_connect_def Let_def extends_def role_ok_def asks_connection_def connect_path_whole)
  qed (simp add: start_connect_def)
  have d: "extends ?P s (start_disconnect s)" "extends ?P s (start_exit s)" "extends ?P s (start_read s)"
      "extends ?P s (start_write i s)"
    by (auto simp: start_disconnect_def start_exit_def start_read_def start_write_def Let_def extends_def)
  show "extends ?P s (start_operation i s)"
    using l c d by (simp add: start_operation_def split: operation.split)
  have "l_ListeningMode_B (start_listen i s) \<longrightarrow> l_ListeningMode_B s \<or> is_server s"
    by (simp add: start_listen_def Let_def)
  then show "l_ListeningMode_B (start_operation i s) \<longrightarrow> l_ListeningMode_B s \<or> is_server s"
    by (simp add: start_operation_def start_listening split: operation.split)
qed

lemma process_turn_roles:
  assumes h: "queues_honest i s" and inv: "roles_inv s"
  shows "roles_inv (process_turn i s)"
proof -
  let ?s1 = "pop_command i s"
  have "extends (role_ok (is_server s) (commands s)) s (serve (ti_calls i) s)"
    by (rule extends_mono [OF extends_serve]) (auto simp: served_event_def callback_event_def)
  then have e1: "extends (role_ok (is_server s) (commands s)) s ?s1"
    by (auto simp: pop_command_def Let_def extends_def split: option.split)
  then have s1: "roles_inv ?s1" using inv by (rule roles_extends) simp_all
  let ?s2 = "start_command i ?s1"
  have s2: "roles_inv ?s2"
  proof (cases "(\<not> l_IoPending_B ?s1 \<or> l_ListeningMode_B ?s1) \<and> l_NewCommandRcv_B ?s1")
    case False
    show ?thesis unfolding start_command_def [of i ?s1] if_not_P [OF False] by (rule s1)
  next
    case True
    obtain op where op: "ti_pop i = Some op" using True by (cases "ti_pop i") simp_all
    then have "op \<in> commands s" using h by (simp add: queues_honest_def commands_def)
    then have sub: "{op} \<subseteq> commands ?s1" using commands_extends [OF e1] by blast
    have "extends (role_ok (is_server ?s1) {op\<lparr>Timer_U32 := ti_now_cmd i\<rparr>}) ?s1 (start_operation i (accepted i ?s1))"
      using start_operation_roles(1) [of "accepted i ?s1" i] op by (simp add: extends_def)
    then have "extends (role_ok (is_server ?s1) (commands ?s1)) ?s1 (start_operation i (accepted i ?s1))"
      by (rule extends_mono) (rule role_ok_mono [OF role_ok_timer sub])
    then have "roles_inv (start_operation i (accepted i ?s1))"
      using s1 by (rule roles_extends) (use start_operation_roles(2) [of i "accepted i ?s1"] in simp_all)
    then have "roles_inv ((start_operation i (accepted i ?s1))\<lparr>l_IoPending_B := True\<rparr>)"
      by (simp add: roles_inv_def is_server_def commands_def)
    with \<open>roles_inv (start_operation i (accepted i ?s1))\<close> True show ?thesis by (simp add: start_command_accepts)
  qed
  let ?s3 = "check_pending i ?s2"
  have "extends (role_ok (is_server ?s2) (commands ?s2)) ?s2 ?s3"
  proof (cases "l_IoPending_B ?s2")
    case True
    have "extends plain (?s2\<lparr>l_SendResult_B := False\<rparr>) ?s3"
      using extends_trans [OF pending_switch_frame(1) pending_timeout_frame(1)] True by (simp add: check_pending_busy)
    then have "extends plain ?s2 ?s3" by (simp add: extends_def)
    then show ?thesis by (rule extends_mono) (simp add: plain_def)
  qed (simp add: check_pending_idle)
  then have s3: "roles_inv ?s3" using s2 by (rule roles_extends) simp_all
  let ?s4 = "do_cancel ?s3"
  have "extends (role_ok (is_server ?s3) (commands ?s3)) ?s3 ?s4"
    by (rule extends_mono [OF do_cancel_frame(1)]) (simp add: plain_def)
  then have s4: "roles_inv ?s4" using s3 by (rule roles_extends) simp_all
  have "extends (role_ok (is_server ?s4) (commands ?s4)) ?s4 (send_result i ?s4)"
    by (cases "l_SendResult_B ?s4") (simp_all add: extends_def send_result_simps(1,2) answer_def)
  then show ?thesis unfolding process_turn_def using s4
    by (rule roles_extends) (simp_all add: send_result_simps)
qed

lemma api_roles:
  assumes "extends (\<lambda>e. \<not> is_role e) s s'" "locals s' = locals s" "mWebSocketParam_X s' = mWebSocketParam_X s" "roles_inv s"
  shows "roles_inv s'"
  by (rule roles_extends [OF _ assms(4,3)])
    (use assms(2) in \<open>auto simp: locals_def intro: extends_mono [OF assms(1)]\<close>)

lemma engine_step_roles:
  assumes "engine_step s s'" "roles_inv s"
  shows "roles_inv s'"
  using assms(1)
proof cases
  case (Turn i)
  then show ?thesis using process_turn_roles assms(2) by simp
next
  case Program
  then show ?thesis using programs_operation [OF Program]
    by (intro api_roles [OF _ _ _ assms(2)])
      (auto simp: program_operation_def LWS_WAKEUP_SERVICE_def Let_def extends_def)
next
  case (Cancel e t)
  then show ?thesis
    by (intro api_roles [OF _ _ _ assms(2)]) (auto simp: CancelWebSocketOperation_def Let_def)
next
  case Clear
  then show ?thesis
    by (intro api_roles [OF _ _ _ assms(2)]) (auto simp: ClearWebSocketOperation_def extends_def)
next
  case Reset
  then show ?thesis
    by (intro api_roles [OF _ _ _ assms(2)])
      (auto simp: ResetWebSocketOperation_def ClearWebSocketOperation_def extends_def)
qed

text \<open>The parameters never change.\<close>

lemma process_turn_param [simp]: "mWebSocketParam_X (process_turn i s) = mWebSocketParam_X s"
  by (simp add: process_turn_def send_result_simps)

lemma engine_step_param: "engine_step s s' \<Longrightarrow> mWebSocketParam_X s' = mWebSocketParam_X s"
  by (erule engine_stepE)
    (auto dest!: programs_operation simp: program_operation_def LWS_WAKEUP_SERVICE_def CancelWebSocketOperation_def ClearWebSocketOperation_def
      ResetWebSocketOperation_def Let_def)

text \<open>C14. Whatever happens, an engine keeps the role of its parameters: with seats it only ever creates a
  context to listen and never connects, without it never listens, and every connection it asks for is that of
  a CONNECT the application programmed: its address, its port, and in the path the whole name it gave.\<close>

theorem roles_are_kept:
  assumes "reachable junk p s"
  shows "(l_ListeningMode_B s \<longrightarrow> NbMaxClient_U32 p \<noteq> 0) \<and>
    (\<forall>b. EvCreateContext b \<in> set (ws_trace s) \<longrightarrow> b = (NbMaxClient_U32 p \<noteq> 0)) \<and>
    (\<forall>ip port path. EvConnect ip port path \<in> set (ws_trace s) \<longrightarrow> NbMaxClient_U32 p = 0 \<and>
       (\<exists>op c. EvCmdPush op BOF_ERR_NO_ERROR \<in> set (ws_trace s) \<and> Operation_E op = OPERATION_CONNECT \<and>
          OpParam op = Connect_X c \<and> ip = DstIpAddr_X c \<and> port = DstPort_U16 c \<and>
          path = ''/?bof_ws_clt_key='' @ c_str (pWsCltKey_c c) \<and> c_str (pWsCltKey_c c) \<noteq> []))"
proof -
  have "roles_inv s \<and> mWebSocketParam_X s = p"
    using assms
  proof induction
    case Start
    then show ?case
      by (simp add: roles_inv_def start_processing_def web_socket.defs BofWebSocket_def bof_assert_def)
  next
    case (Step s s')
    then show ?case using engine_step_roles engine_step_param by metis
  qed
  then have r: "\<forall>e \<in> set (ws_trace s). role_ok (NbMaxClient_U32 p \<noteq> 0) (commands s) e"
      "l_ListeningMode_B s \<longrightarrow> NbMaxClient_U32 p \<noteq> 0"
    by (auto simp: roles_inv_def is_server_def)
  have "NbMaxClient_U32 p = 0 \<and>
       (\<exists>op c. EvCmdPush op BOF_ERR_NO_ERROR \<in> set (ws_trace s) \<and> Operation_E op = OPERATION_CONNECT \<and>
          OpParam op = Connect_X c \<and> ip = DstIpAddr_X c \<and> port = DstPort_U16 c \<and>
          path = ''/?bof_ws_clt_key='' @ c_str (pWsCltKey_c c) \<and> c_str (pWsCltKey_c c) \<noteq> [])"
    if e: "EvConnect ip port path \<in> set (ws_trace s)" for ip port path
  proof -
    obtain op where op: "NbMaxClient_U32 p = 0" "op \<in> commands s" "asks_connection op ip port path"
      using bspec [OF r(1) e] by (auto simp: role_ok_def)
    have "op_matches OPERATION_CONNECT (OpParam op)"
      using reachable_typed [OF assms] op(2,3)
      by (auto simp: well_typed_def typed_op_def commands_def asks_connection_def Let_def)
    then obtain c where "OpParam op = Connect_X c" by (cases "OpParam op") simp_all
    then show ?thesis using op by (auto simp: asks_connection_def commands_def connect_of_def Let_def)
  qed
  moreover have "b = (NbMaxClient_U32 p \<noteq> 0)" if "EvCreateContext b \<in> set (ws_trace s)" for b
    using bspec [OF r(1) that] by (simp add: role_ok_def)
  ultimately show ?thesis using r(2) by blast
qed

section \<open>A concrete run\<close>

text \<open>A new client: a READ is programmed and refused in the next turn.\<close>

definition sample_api :: api_in where
  "sample_api = \<lparr>ai_inc_ticket = (\<lambda>t. t + 1), ai_now = 0, ai_push = BOF_ERR_NO_ERROR\<rparr>"

definition sample_read :: operation_param where
  "sample_read = sample_op OPERATION_READ (Read_X \<lparr>Nb_U32 = 3, io_pBuffer_U8 = 9\<rparr>)"

definition sample_programmed :: engine where
  "sample_programmed = snd (snd (Program_Read sample_api 100 \<lparr>Nb_U32 = 3, io_pBuffer_U8 = 9\<rparr> (sample_engine 0)))"

definition sample_answered :: engine where
  "sample_answered = process_turn (quiet_turn\<lparr>ti_pop := Some sample_read\<rparr>) sample_programmed"

lemma sample_programmed_simps:
  "sample_programmed = (sample_engine 0)\<lparr>mTicket_U32 := 2, mOperationPending_B := True,
     ws_trace := [EvCmdPush sample_read BOF_ERR_NO_ERROR]\<rparr>"
  by (simp add: sample_programmed_def Program_Read_def program_operation_def LWS_WAKEUP_SERVICE_def sample_api_def sample_read_def
      sample_defs emit_def)

lemma sample_answered_reachable: "reachable 77 (sample_param 0) sample_answered"
proof -
  have "reachable 77 (sample_param 0) (sample_engine 0)" unfolding sample_engine_def by (rule reachable.Start)
  then have "reachable 77 (sample_param 0) sample_programmed"
    unfolding sample_programmed_def by (rule reachable.Step) (intro engine_step.Program programs.Read)
  then show ?thesis
    unfolding sample_answered_def
    by (rule reachable.Step, intro engine_step.Turn)
      (simp add: queues_honest_def sample_programmed_simps quiet_turn_def)
qed

lemma sample_answered_trace:
  "EvResultPush \<lparr>res_Operation_E = OPERATION_READ, OpTicket_U32 = 1, Sts_E = BOF_ERR_ENOTCONN, Size_U32 = 0,
     res_pBuffer_U8 = NullBuffer, Time_U32 = 0\<rparr> BOF_ERR_NO_ERROR \<in> set (ws_trace sample_answered)"
  by (simp add: sample_answered_def sample_programmed_simps sample_read_def process_turn_def pop_without_context
      start_command_accepts start_operation_def start_read_def io_ready_def check_pending_idle do_cancel_idle
      send_result_simps answer_def sample_defs)

theorem current_operation_is_typed_witness:
  "op_matches (Operation_E (mCurrentOp_X sample_answered)) (OpParam (mCurrentOp_X sample_answered))"
  using current_operation_is_typed [OF sample_answered_reachable]
  by (simp add: sample_answered_def sample_programmed_simps sample_read_def process_turn_def pop_without_context
      start_command_accepts start_operation_def start_read_def io_ready_def check_pending_idle do_cancel_idle
      send_result_simps sample_defs)

theorem results_have_programmed_tickets_witness:
  "\<exists>op. EvCmdPush op BOF_ERR_NO_ERROR \<in> set (ws_trace sample_answered) \<and> Ticket_U32 op = 1"
  using results_have_programmed_tickets [OF sample_answered_reachable sample_answered_trace] by simp

text \<open>A server that listens and has let a client in.\<close>

definition sample_listen :: listen_param where
  "sample_listen = \<lparr>SrcIpAddr_X = 0, SrcPort_U16 = 0, li_NbMaxClient_U32 = 4\<rparr>"

definition sample_server :: engine where
  "sample_server = process_turn (quiet_turn\<lparr>ti_calls := [sample_call LWS_CALLBACK_ESTABLISHED]\<rparr>)
     (process_turn (quiet_turn\<lparr>ti_pop := Some (sample_op OPERATION_LISTEN (Listen_X sample_listen))\<rparr>)
       (snd (snd (Program_Listen sample_api 100 sample_listen (sample_engine 4)))))"

lemma sample_listens:
  "process_turn (quiet_turn\<lparr>ti_pop := Some (sample_op OPERATION_LISTEN (Listen_X sample_listen))\<rparr>)
     (snd (snd (Program_Listen sample_api 100 sample_listen (sample_engine 4)))) =
   (sample_engine 4)\<lparr>mTicket_U32 := 2, mOperationPending_B := True, mpLwsContext_X := True,
     mCurrentOp_X := (sample_op OPERATION_LISTEN (Listen_X sample_listen))\<lparr>TimeOut_U32 := PUSH_POP_TIMEOUT\<rparr>,
     l_Result_X := new_result\<lparr>res_Operation_E := OPERATION_LISTEN, OpTicket_U32 := 1, Sts_E := BOF_ERR_NO_ERROR\<rparr>,
     l_NewCommandRcv_B := True, l_IoPending_B := True, l_ListeningMode_B := True, l_ListenTicketId_U32 := 1,
     ws_trace := [EvCmdPush (sample_op OPERATION_LISTEN (Listen_X sample_listen)) BOF_ERR_NO_ERROR, EvCreateContext True]\<rparr>"
  by (simp add: Program_Listen_def program_operation_def LWS_WAKEUP_SERVICE_def sample_api_def process_turn_def
      pop_without_context start_command_accepts start_operation_def start_listen_def check_pending_busy
      pending_switch_def pending_timeout_def do_cancel_idle send_result_simps new_result_def accepted_def set_status_def
      sample_defs emit_def Let_def)

lemma sample_server_reachable: "reachable 77 (sample_param 4) sample_server"
proof -
  let ?s = "snd (snd (Program_Listen sample_api 100 sample_listen (sample_engine 4)))"
  have "reachable 77 (sample_param 4) (sample_engine 4)" unfolding sample_engine_def by (rule reachable.Start)
  then have "reachable 77 (sample_param 4) ?s" by (rule reachable.Step) (intro engine_step.Program programs.Listen)
  then have "reachable 77 (sample_param 4) (process_turn (quiet_turn\<lparr>ti_pop := Some (sample_op OPERATION_LISTEN (Listen_X sample_listen))\<rparr>) ?s)"
    by (rule reachable.Step, intro engine_step.Turn)
      (simp add: queues_honest_def Program_Listen_def program_operation_def LWS_WAKEUP_SERVICE_def emit_def sample_api_def
        sample_defs Let_def)
  then show ?thesis
    unfolding sample_server_def by (rule reachable.Step, intro engine_step.Turn) (simp add: queues_honest_def sample_defs)
qed

lemma sample_server_clients: "length (mClientCollection sample_server) = 1"
proof -
  have v: "mClientCollection (process_turn i s) = mClientCollection (pop_command i s)" for i s
    using process_turn_view [of i s] by (simp add: registry_view_def)
  show ?thesis
    unfolding sample_server_def sample_listens v
    by (simp add: pop_command_def LwsCallback_def cb_first_def cb_established_def cb_events_def cb_second_def
        SetSocketBufferSize_def AddClient_def is_receive_def c_str_def call_OnOpen_def sample_defs emit_def Let_def)
qed

theorem clients_within_seats_witness:
  "length (mClientCollection sample_server) = 1 \<and> kv_inv (mClientCollection sample_server)"
  using clients_within_seats [OF sample_server_reachable] sample_server_clients by simp

text \<open>A client that has asked for its connection.\<close>

definition sample_asked :: engine where
  "sample_asked = process_turn (quiet_turn\<lparr>ti_pop := Some (sample_op OPERATION_CONNECT sample_connect)\<rparr>)
     (snd (snd (Program_Connect sample_api 100 \<lparr>pWsCltKey_c = ''k'', DstIpAddr_X = 1, DstPort_U16 = 80\<rparr> (sample_engine 0))))"

lemma sample_asked_reachable: "reachable 77 (sample_param 0) sample_asked"
proof -
  let ?s = "snd (snd (Program_Connect sample_api 100 \<lparr>pWsCltKey_c = ''k'', DstIpAddr_X = 1, DstPort_U16 = 80\<rparr> (sample_engine 0)))"
  have "reachable 77 (sample_param 0) (sample_engine 0)" unfolding sample_engine_def by (rule reachable.Start)
  then have "reachable 77 (sample_param 0) ?s" by (rule reachable.Step) (intro engine_step.Program programs.Connect)
  then show ?thesis
    unfolding sample_asked_def
    by (rule reachable.Step, intro engine_step.Turn)
      (simp add: queues_honest_def Program_Connect_def program_operation_def LWS_WAKEUP_SERVICE_def emit_def sample_api_def
        sample_defs Let_def)
qed

lemma sample_asked_trace:
  "ws_trace sample_asked = [EvCmdPush (sample_op OPERATION_CONNECT sample_connect) BOF_ERR_NO_ERROR,
     EvCreateContext False, EvConnect 1 80 (connect_path ''k'')]"
  by (simp add: sample_asked_def Program_Connect_def program_operation_def LWS_WAKEUP_SERVICE_def sample_api_def
      process_turn_def pop_without_context start_command_accepts start_operation_def start_connect_def connect_of_def
      c_str_def check_pending_busy pending_switch_def pending_timeout_def do_cancel_idle send_result_simps sample_defs
      emit_def Let_def)

theorem roles_are_kept_witness:
  "connect_path ''k'' = ''/?bof_ws_clt_key='' @ ''k'' \<and> \<not> l_ListeningMode_B sample_asked"
  using roles_are_kept [OF sample_asked_reachable] unfolding sample_asked_trace
  by (auto simp: sample_param_def sample_op_def sample_connect_def c_str_def)

end
