(* ===== verification/WsCalls.thy ===== *)
theory WsCalls
  imports WsServer
begin

text \<open>
  The blocking calls of the application against the engine, and the callback around names and closing: under
  which name a client is registered, what the closing of a connection writes and calls.
\<close>

section \<open>Blocking calls\<close>

text \<open>The answers a call passes over: results of other tickets.\<close>

definition passed_over :: "u32 \<Rightarrow> (boferr + operation_result) \<Rightarrow> bool" where
  "passed_over t a \<longleftrightarrow> fst (GetWebSocketOperationResult a) = BOF_ERR_NO_ERROR \<and>
     OpTicket_U32 (snd (GetWebSocketOperationResult a)) \<noteq> t"

text \<open>The loop as a search: the first answer that is not passed over ends it.\<close>

definition first_answer ::
    "u32 \<Rightarrow> (boferr + operation_result) list \<Rightarrow> (boferr \<times> operation_result \<times> operation_result list) option" where
  "first_answer t as =
     (case dropWhile (passed_over t) as of
        [] \<Rightarrow> None
      | a # _ \<Rightarrow> Some (fst (GetWebSocketOperationResult a), snd (GetWebSocketOperationResult a),
                     map (snd \<circ> GetWebSocketOperationResult) (takeWhile (passed_over t) as)))"

text \<open>C29. The loop the four blocking calls share is the search for the first answer that is a failure or has
  the ticket of the call; the results of other tickets before it are lost for everyone.\<close>

theorem wait_result_is_first_answer: "wait_result t as = first_answer t as"
proof (induction as)
  case Nil
  show ?case by (simp add: first_answer_def)
next
  case (Cons a as)
  show ?case
  proof (cases "passed_over t a")
    case True
    then have "wait_result t (a # as) =
        (case first_answer t as of
           None \<Rightarrow> None | Some (e, r, lost) \<Rightarrow> Some (e, r, snd (GetWebSocketOperationResult a) # lost))"
      using Cons.IH by (simp add: passed_over_def split_def)
    also have "\<dots> = first_answer t (a # as)"
      using True by (cases "dropWhile (passed_over t) as") (simp_all add: first_answer_def del: dropWhile_eq_Nil_conv)
    finally show ?thesis .
  next
    case False
    then show ?thesis by (auto simp: first_answer_def passed_over_def split_def)
  qed
qed

lemma first_answer_found:
  assumes "list_all (\<lambda>r. OpTicket_U32 r \<noteq> t) lost" "OpTicket_U32 r = t"
  shows "wait_result t (map Inr lost @ Inr r # as) = Some (BOF_ERR_NO_ERROR, r, lost)"
  using assms by (induction lost) (simp_all add: GetWebSocketOperationResult_def)

text \<open>C37. Write, Read and Connect report what happened to the result queue, not to the operation: with a
  result of their ticket they return no error whatever status the result has, and the results of other
  tickets on the way are gone.\<close>

theorem blocking_calls_hide_the_status:
  assumes "ai_push i = BOF_ERR_NO_ERROR" "list_all (\<lambda>x. OpTicket_U32 x \<noteq> mTicket_U32 s) lost"
    and "OpTicket_U32 r = mTicket_U32 s"
  shows "\<exists>s1 s2 s3 s4.
    BofWebSocket_Write i (map Inr lost @ Inr r # as) to nb dat s = Some (BOF_ERR_NO_ERROR, Size_U32 r, lost, s1) \<and>
    BofWebSocket_Read i (map Inr lost @ Inr r # as) to nb dat s = Some (BOF_ERR_NO_ERROR, Size_U32 r, lost, s2) \<and>
    BofWebSocket_Connect i (map Inr lost @ Inr r # as) to ep url key s = Some (BOF_ERR_NO_ERROR, lost, s3) \<and>
    BofWebSocket_Disconnect i (map Inr lost @ Inr r # as) to s = Some (BOF_ERR_NO_ERROR, lost, s4)"
proof -
  have w: "wait_result (mTicket_U32 s) (map Inr lost @ Inr r # as) = Some (BOF_ERR_NO_ERROR, r, lost)"
    by (rule first_answer_found [OF assms(2,3)])
  show ?thesis
    using assms(1) w
    by (simp add: BofWebSocket_Write_def BofWebSocket_Read_def BofWebSocket_Connect_def BofWebSocket_Disconnect_def
        program_and_wait_def program_defs program_operation_def Let_def split_def)
qed

theorem blocking_calls_hide_the_status_witness:
  "\<exists>s'. BofWebSocket_Write sample_api [Inr new_result, Inr (new_result\<lparr>OpTicket_U32 := 1, Sts_E := BOF_ERR_WRITE\<rparr>)]
     100 3 9 (sample_engine 0) = Some (BOF_ERR_NO_ERROR, 0, [new_result], s')"
  using blocking_calls_hide_the_status [of sample_api "sample_engine 0" "[new_result]"
      "new_result\<lparr>OpTicket_U32 := 1, Sts_E := BOF_ERR_WRITE\<rparr>" "[]" 100 3 9 "\<lambda>_. (0, 0)" "''''" "''k''"]
  by (auto simp: sample_api_def sample_defs new_result_def)

text \<open>The wait of \<open>Run\<close> ends as soon as the clock passes half a second.\<close>

lemma run_wait_ends: "t \<in> set turns \<Longrightarrow> 500 \<le> snd t \<Longrightarrow> run_wait turns = Some ()"
  by (induction turns rule: run_wait.induct) auto

section \<open>Names\<close>

text \<open>The callback of a client taken in by a server.\<close>

definition admitted_call :: "nat \<Rightarrow> session \<Rightarrow> lws_call \<Rightarrow> bool" where
  "admitted_call wsi d cl \<longleftrightarrow> lc_wsi cl = Some wsi \<and> lc_reason cl = LWS_CALLBACK_ESTABLISHED \<and>
     0 \<le> lc_socket_fd cl \<and> lc_socket_sts cl = BOF_ERR_NO_ERROR \<and> lc_session cl = Some d"

lemma admitted_is_registered:
  assumes "admitted_call wsi d cl" "registry_inv s"
    and "length (mClientCollection s) < unat (NbMaxClient_U32 (mWebSocketParam_X s))"
    and "map_of (mClientCollection s) (c_str (lc_stack_key cl)) = None"
  shows "mClientCollection (snd (snd (LwsCallback cl s))) =
    kv_put (c_str (lc_stack_key cl)) (d\<lparr>pWebSocket_X := Some wsi, ConnectDone_B := True\<rparr>) (mClientCollection s)"
    "ConnectDone_B (mWebSocketState_X (snd (snd (LwsCallback cl s))))"
    "mpLwsContext_X (snd (snd (LwsCallback cl s))) = mpLwsContext_X s"
proof -
  obtain e s1 where b: "SetSocketBufferSize (lc_socket_fd cl) (lc_socket_sizes cl) (lc_socket_sts cl)
    (SocketRcvBufferSize_U32 (mWebSocketParam_X s)) (SocketSndBufferSize_U32 (mWebSocketParam_X s)) s = (e, s1)"
    by fastforce
  have s1: "e = BOF_ERR_NO_ERROR" "mClientCollection s1 = mClientCollection s" "mWebSocketParam_X s1 = mWebSocketParam_X s"
      "mpLwsContext_X s1 = mpLwsContext_X s"
    using b assms(1) by (auto simp: SetSocketBufferSize_def admitted_call_def split: prod.splits)
  show "mClientCollection (snd (snd (LwsCallback cl s))) =
      kv_put (c_str (lc_stack_key cl)) (d\<lparr>pWebSocket_X := Some wsi, ConnectDone_B := True\<rparr>) (mClientCollection s)"
    "ConnectDone_B (mWebSocketState_X (snd (snd (LwsCallback cl s))))"
    "mpLwsContext_X (snd (snd (LwsCallback cl s))) = mpLwsContext_X s"
    using assms(1,3,4) b s1
    by (simp_all add: LwsCallback_def cb_first_def cb_second_def cb_established_def AddClient_def admitted_call_def Let_def
        split_def split: option.split)
qed

text \<open>C38. A client is registered under the text its callback finds on the stack: the name it gave in its
  address, which was checked before, plays no part.\<close>

theorem client_is_registered_under_stack_text:
  assumes "admitted_call wsi d cl" "registry_inv s"
    and "length (mClientCollection s) < unat (NbMaxClient_U32 (mWebSocketParam_X s))"
    and "map_of (mClientCollection s) (c_str (lc_stack_key cl)) = None"
  shows "map_of (mClientCollection (snd (snd (LwsCallback (cl\<lparr>lc_urlarg := u\<rparr>) s)))) =
    (map_of (mClientCollection s))(c_str (lc_stack_key cl) \<mapsto> d\<lparr>pWebSocket_X := Some wsi, ConnectDone_B := True\<rparr>)"
proof -
  have "kv_inv (mClientCollection s)" using assms(2) by (simp add: registry_inv_def)
  moreover have "admitted_call wsi d (cl\<lparr>lc_urlarg := u\<rparr>)" using assms(1) by (simp add: admitted_call_def)
  ultimately show ?thesis
    using admitted_is_registered [of wsi d "cl\<lparr>lc_urlarg := u\<rparr>" s] assms(2-4) by (simp add: map_of_kv_put)
qed

theorem client_is_registered_under_stack_text_witness:
  "map_of (mClientCollection (snd (snd (LwsCallback ((sample_call LWS_CALLBACK_ESTABLISHED)\<lparr>lc_urlarg := Some ''bob''\<rparr>)
     (sample_engine 4))))) ''bob'' = None"
  using client_is_registered_under_stack_text [of 5 "\<lparr>ConnectDone_B = False, pWebSocket_X = None\<rparr>"
      "sample_call LWS_CALLBACK_ESTABLISHED" "sample_engine 4" "Some ''bob''"]
  by (simp add: sample_defs admitted_call_def registry_inv_def kv_inv_def c_str_def)

text \<open>Every client without a name has the same one, so a second one is refused.\<close>

lemma anonymous_clients_exclude_each_other:
  assumes "lc_urlarg cl = None" "IsClientExist default_key s"
  shows "fst (cb_add_headers wsi cl s) = 1"
  using assms by (simp add: cb_add_headers_def)

section \<open>Closing\<close>

definition closing_call :: "lws_call \<Rightarrow> bool" where
  "closing_call cl \<longleftrightarrow> lc_wsi cl \<noteq> None \<and>
     (lc_reason cl = LWS_CALLBACK_CLOSED \<or> lc_reason cl = LWS_CALLBACK_CLIENT_CLOSED)"

definition close_infos :: "'a web_socket_scheme \<Rightarrow> byte list list" where
  "close_infos s = concat (map (\<lambda>e. case e of EvCloseInfo bs \<Rightarrow> [bs] | _ \<Rightarrow> []) (ws_trace s))"

lemma close_infos_same: "ws_trace s' = ws_trace s \<Longrightarrow> close_infos s' = close_infos s"
  by (simp add: close_infos_def)

lemma close_infos_events: "close_infos (cb_events wsi cl s) = close_infos s"
  by (simp add: close_infos_def cb_events_def send_reply_def bof_assert_def Let_def split: option.split)

lemma closing_trace:
  fixes s :: "'a web_socket_scheme"
  assumes "closing_call cl"
  shows "\<exists>t :: 'a web_socket_scheme. mWebSocketParam_X t = mWebSocketParam_X s \<and> close_infos t = close_infos s \<and>
    ws_trace (snd (snd (LwsCallback cl s))) = ws_trace (call_OnClose (read_close_info cl t))"
proof -
  obtain wsi where w: "lc_wsi cl = Some wsi" using assms by (auto simp: closing_call_def)
  have c: "cb_first wsi cl s = (0, lc_session cl, s)" using assms by (auto simp: closing_call_def cb_first_def)
  let ?s1 = "(cb_events wsi cl s)\<lparr>mWebSocketState_X := (mWebSocketState_X s)\<lparr>ConnectDone_B := False\<rparr>\<rparr>"
  let ?s2 = "snd (snd (RemoveClient (lc_session cl) ?s1))"
  have p: "mWebSocketParam_X ?s1 = mWebSocketParam_X s" "close_infos ?s1 = close_infos s"
    using close_infos_events [of wsi cl s] by (simp_all add: close_infos_def)
  have q: "mWebSocketParam_X ?s2 = mWebSocketParam_X s" "close_infos ?s2 = close_infos s"
    using p by (simp_all add: RemoveClient_def close_infos_def split: option.split prod.split)
  show ?thesis
  proof (cases "lc_reason cl = LWS_CALLBACK_CLOSED")
    case True
    then show ?thesis using q by (intro exI [of _ ?s2]) (simp add: LwsCallback_def w c cb_second_def split_def)
  next
    case False
    then have "lc_reason cl = LWS_CALLBACK_CLIENT_CLOSED" using assms by (simp add: closing_call_def)
    then show ?thesis using p by (intro exI [of _ ?s1]) (simp add: LwsCallback_def w c cb_second_def)
  qed
qed

text \<open>C39. A connection that closes with a reason, of at most 123 bytes as a control frame allows, has it copied
  once.  The copy ends at the first zero; without one in the reason it goes on behind the payload, so the text
  is not the reason, and it stays within the 512 bytes reserved only if a zero follows in time.\<close>

theorem closing_reason_is_copied:
  fixes s :: "'a web_socket_scheme"
  assumes "closing_call cl" "lc_close_payload cl = Some (a # b # reason)" "length reason \<le> 123"
  defines "behind \<equiv> takeWhile (\<lambda>b. b \<noteq> 0) (lc_close_behind cl)"
  shows "\<exists>bs. close_infos (snd (snd (LwsCallback cl s))) = close_infos s @ [bs] \<and>
    (if 0 \<in> set reason then bs = takeWhile (\<lambda>b. b \<noteq> 0) reason @ [0] else bs = reason @ behind @ [0]) \<and>
    (length bs \<le> 512 \<longleftrightarrow> 0 \<in> set reason \<or> length reason + length behind < 512)"
proof -
  let ?bs = "strcpy_bytes (reason @ lc_close_behind cl)"
  have bs: "?bs = (if 0 \<in> set reason then takeWhile (\<lambda>b. b \<noteq> 0) reason @ [0] else reason @ behind @ [0])"
  proof (cases "0 \<in> set reason")
    case True
    then show ?thesis using takeWhile_append1 [OF True, of "\<lambda>b. b \<noteq> 0" "lc_close_behind cl"] by (simp add: strcpy_bytes_def)
  next
    case False
    then have "takeWhile (\<lambda>b. b \<noteq> 0) (reason @ lc_close_behind cl) = reason @ takeWhile (\<lambda>b. b \<noteq> 0) (lc_close_behind cl)"
      by (intro takeWhile_append2) auto
    then show ?thesis using False by (simp add: strcpy_bytes_def behind_def)
  qed
  have "length (takeWhile (\<lambda>b. b \<noteq> 0) reason) \<le> 123" using length_takeWhile_le [of _ reason] assms(3) by (rule le_trans)
  then have fits: "length ?bs \<le> 512 \<longleftrightarrow> 0 \<in> set reason \<or> length reason + length behind < 512"
    unfolding bs by auto
  obtain t :: "'a web_socket_scheme" where t: "close_infos t = close_infos s"
    "ws_trace (snd (snd (LwsCallback cl s))) = ws_trace (call_OnClose (read_close_info cl t))"
    using closing_trace [OF assms(1), of s] by blast
  have "close_infos (call_OnClose (read_close_info cl t)) = close_infos t @ [?bs]"
    using assms(2,3) by (simp add: read_close_info_def GetCloseInfo_def call_OnClose_def close_infos_def)
  then have "close_infos (snd (snd (LwsCallback cl s))) = close_infos s @ [?bs]"
    using t close_infos_same by metis
  then show ?thesis using bs fits by (intro exI [of _ ?bs]) (simp split: if_split)
qed

text \<open>Two letters left behind the payload of a close.\<close>

theorem closing_reason_is_copied_witness:
  "close_infos (snd (snd (LwsCallback ((sample_call LWS_CALLBACK_CLOSED)
     \<lparr>lc_close_payload := Some [3, 232, 98, 121, 101], lc_close_behind := [33, 63, 0]\<rparr>) (sample_engine 4)))) =
   [[98, 121, 101, 33, 63, 0]]"
  using closing_reason_is_copied [of "(sample_call LWS_CALLBACK_CLOSED)
      \<lparr>lc_close_payload := Some [3, 232, 98, 121, 101], lc_close_behind := [33, 63, 0]\<rparr>" 3 232 "[98, 121, 101]" "sample_engine 4"]
  by (simp add: closing_call_def sample_call_def close_infos_def sample_engine_def start_processing_def web_socket.defs
      BofWebSocket_def bof_assert_def)

text \<open>\<open>OnClose\<close> is called without being asked for when \<open>OnOpen\<close> is set.\<close>

lemma closing_calls_unset_callback:
  fixes s :: "'a web_socket_scheme"
  assumes "closing_call cl" "OnOpen (mWebSocketParam_X s)" "\<not> OnClose (mWebSocketParam_X s)"
  shows "EvBadCall \<in> set (ws_trace (snd (snd (LwsCallback cl s))))"
proof -
  obtain t :: "'a web_socket_scheme" where t: "mWebSocketParam_X t = mWebSocketParam_X s"
      "ws_trace (snd (snd (LwsCallback cl s))) = ws_trace (call_OnClose (read_close_info cl t))"
    using closing_trace [OF assms(1), of s] by blast
  have "mWebSocketParam_X (read_close_info cl t) = mWebSocketParam_X s"
    using t(1) by (simp add: read_close_info_def split: prod.split)
  with t(2) assms(2,3) show ?thesis by (simp add: call_OnClose_def)
qed

end
