(* ===== verification/WsSession.thy ===== *)
theory WsSession
  imports WsTransfer WsCalls
begin

text \<open>
  The calls of the application, the thread and the callback together: a client that connects and writes, from
  programming the CONNECT to the bytes on the socket and the two results.
\<close>

section \<open>The turn that starts a connection\<close>

lemma connect_turn:
  assumes "disconnected s" "ti_pop i = Some op" "Operation_E op = OPERATION_CONNECT" "refusal op = None"
    "ti_context_ok i" "ti_connect i = Some w" "ti_elapsed_io i \<le> TimeOut_U32 op"
  shows "pending_client OPERATION_CONNECT (process_turn i s)"
    "mCurrentOp_X (process_turn i s) = op\<lparr>Timer_U32 := ti_now_cmd i\<rparr>"
    "OpTicket_U32 (l_Result_X (process_turn i s)) = Ticket_U32 op"
    "res_pBuffer_U8 (l_Result_X (process_turn i s)) = NullBuffer"
    "mWebSocketState_X (process_turn i s) = \<lparr>ConnectDone_B = False, pWebSocket_X = Some w\<rparr>"
    "mWebSocketParam_X (process_turn i s) = mWebSocketParam_X s"
    "ws_trace (process_turn i s) = ws_trace s @ [EvCreateContext False,
       EvConnect (DstIpAddr_X (connect_of op)) (DstPort_U16 (connect_of op))
         (connect_path (c_str (pWsCltKey_c (connect_of op))))]"
    "res_Operation_E (l_Result_X (process_turn i s)) = OPERATION_CONNECT"
proof -
  let ?s1 = "s\<lparr>mCurrentOp_X := op, l_NewCommandRcv_B := True\<rparr>"
  let ?a = "accepted i ?s1"
  let ?s2 = "start_connect i ?a"
  have s: "\<not> mpLwsContext_X s" "\<not> is_server s" "\<not> ConnectDone_B (mWebSocketState_X s)" "\<not> l_IoPending_B s"
    "\<not> l_ListeningMode_B s" "\<not> mCancel_B s" using assms(1) by (simp_all add: disconnected_def)
  have k: "c_str (pWsCltKey_c (connect_of op)) \<noteq> []" "length (c_str (pWsCltKey_c (connect_of op))) < 128"
    using assms(3,4) by (auto simp: refusal_def split: if_splits)
  have st: "start_operation i ?a = ?s2" using assms(3) by (simp add: start_operation_def)
  have f: "mpLwsContext_X ?s2" "\<not> l_ListeningMode_B ?s2" "\<not> mCancel_B ?s2" "mWebSocketParam_X ?s2 = mWebSocketParam_X s"
      "mCurrentOp_X ?s2 = op\<lparr>Timer_U32 := ti_now_cmd i\<rparr>" "Sts_E (l_Result_X ?s2) = BOF_ERR_NO_ERROR"
      "OpTicket_U32 (l_Result_X ?s2) = Ticket_U32 op" "res_Operation_E (l_Result_X ?s2) = OPERATION_CONNECT" "res_pBuffer_U8 (l_Result_X ?s2) = NullBuffer" "\<not> ConnectDone_B (mWebSocketState_X ?s2)"
      "pWebSocket_X (mWebSocketState_X ?s2) = Some w"
      "ws_trace ?s2 = ws_trace s @ [EvCreateContext False,
         EvConnect (DstIpAddr_X (connect_of op)) (DstPort_U16 (connect_of op))
           (connect_path (c_str (pWsCltKey_c (connect_of op))))]"
    using s k assms(3,5,6) by (simp_all add: start_connect_def Let_def)
  let ?s3 = "?s2\<lparr>l_IoPending_B := True, l_SendResult_B := False\<rparr>"
  let ?s4 = "?s3\<lparr>l_Result_X := (l_Result_X ?s2)\<lparr>Time_U32 := ti_elapsed_io i\<rparr>\<rparr>"
  have sw: "pending_switch i ?s3 = ?s3" using f(5,10) assms(3) by (simp add: pending_switch_def)
  have t: "pending_timeout i ?s3 = ?s4" using in_time [of ?s3 i] f(5) assms(7) by simp
  have p: "process_turn i s = ?s4"
    using s f(3,6) assms(2) by (simp add: process_turn_def pop_without_context start_command_accepts st
        check_pending_busy sw t do_cancel_idle send_result_simps(2))
  show "pending_client OPERATION_CONNECT (process_turn i s)"
    unfolding p using f(1-3,5) assms(3) by (simp add: pending_client_def)
  show "mWebSocketState_X (process_turn i s) = \<lparr>ConnectDone_B = False, pWebSocket_X = Some w\<rparr>"
    unfolding p using f(10,11) by (cases "mWebSocketState_X ?s2") simp
  show "mCurrentOp_X (process_turn i s) = op\<lparr>Timer_U32 := ti_now_cmd i\<rparr>"
    "OpTicket_U32 (l_Result_X (process_turn i s)) = Ticket_U32 op"
    "res_pBuffer_U8 (l_Result_X (process_turn i s)) = NullBuffer"
    "mWebSocketParam_X (process_turn i s) = mWebSocketParam_X s"
    "ws_trace (process_turn i s) = ws_trace s @ [EvCreateContext False,
       EvConnect (DstIpAddr_X (connect_of op)) (DstPort_U16 (connect_of op))
         (connect_path (c_str (pWsCltKey_c (connect_of op))))]"
    "res_Operation_E (l_Result_X (process_turn i s)) = OPERATION_CONNECT"
    unfolding p using f by simp_all
qed

text \<open>The callback that establishes the connection pushes no result.\<close>

lemma established_results:
  assumes "established_call wsi cl"
  shows "results_of (ws_trace (snd (snd (LwsCallback cl s)))) = results_of (ws_trace s)"
proof (rule results_of_extends)
  have o: "extends not_result t (call_OnOpen u)" if "ws_trace u = ws_trace t" for t u :: "'a web_socket_scheme"
    using that by (auto simp: call_OnOpen_def extends_def not_result_def)
  have b: "extends not_result t (snd (SetSocketBufferSize fd sz sts x y t))" for fd sz sts x y and t :: "'a web_socket_scheme"
    by (auto simp: SetSocketBufferSize_def extends_def not_result_def split: prod.split)
  have a: "extends not_result t (bof_assert c t)" for c and t :: "'a web_socket_scheme"
    by (auto simp: bof_assert_def extends_def not_result_def)
  have first: "extends not_result s (snd (cb_client_established wsi cl s))"
    using extends_trans [OF b extends_trans [OF a o]] b by (simp add: cb_client_established_def Let_def split_def)
  have events: "extends not_result t (cb_events wsi cl t)" for t :: "'a web_socket_scheme"
    using assms by (auto simp: cb_events_def is_receive_def established_call_def send_reply_def Let_def extends_def
        not_result_def split: option.split)
  show "extends not_result s (snd (snd (LwsCallback cl s)))"
    using extends_trans [OF first events] assms
    by (simp add: LwsCallback_def cb_first_def cb_second_def established_call_def Let_def split_def)
qed

text \<open>The turn that ends it, for the composition.\<close>

lemma established_turn:
  assumes "pending_client OPERATION_CONNECT s" "\<not> is_server s" "pWebSocket_X (mWebSocketState_X s) = Some w"
    "ti_pop i = None" "ti_calls i = [cl]" "established_call wsi cl" "ti_elapsed_io i \<le> TimeOut_U32 (mCurrentOp_X s)"
  shows "idle_connected (process_turn i s)"
    "results_of (ws_trace (process_turn i s)) = results_of (ws_trace s) @
       [EvResultPush ((l_Result_X s)\<lparr>Sts_E := BOF_ERR_NO_ERROR, Time_U32 := ti_elapsed_send i\<rparr>) (ti_result_push i)]"
    "mWebSocketParam_X (process_turn i s) = mWebSocketParam_X s"
proof -
  have v: "serve (ti_calls i) s = snd (snd (LwsCallback cl s))" using assms(5) by simp
  have c: "ConnectDone_B (mWebSocketState_X (serve (ti_calls i) s))"
    unfolding v established_callback [OF assms(6)] by simp
  note t = connect_done_turn [OF assms(1,4) c assms(7)]
  have nc: "\<not> mCancel_B s" using assms(1) by (simp add: pending_client_def)
  have p: "process_turn i s = send_result i (check_pending i (pop_command i s))"
    by (rule turn_without_start) (use assms(4) nc in simp_all)
  have q: "\<not> l_ListeningMode_B (process_turn i s)" "\<not> mCancel_B (process_turn i s)"
      "mWebSocketParam_X (process_turn i s) = mWebSocketParam_X s"
    unfolding p using assms(1) by (simp_all add: send_result_simps pending_client_def)
  then show "mWebSocketParam_X (process_turn i s) = mWebSocketParam_X s" by simp
  have st: "mWebSocketState_X (process_turn i s) = (mWebSocketState_X s)\<lparr>ConnectDone_B := True\<rparr>"
      "mpLwsContext_X (process_turn i s) = mpLwsContext_X s"
    using t unfolding v established_callback [OF assms(6)] by blast+
  have "io_ready (process_turn i s)"
    unfolding io_ready_def st(1) using assms(3) by simp
  then show "idle_connected (process_turn i s)"
    using t q st(2) assms(1) by (simp add: idle_connected_def pending_client_def)
  show "results_of (ws_trace (process_turn i s)) = results_of (ws_trace s) @
       [EvResultPush ((l_Result_X s)\<lparr>Sts_E := BOF_ERR_NO_ERROR, Time_U32 := ti_elapsed_send i\<rparr>) (ti_result_push i)]"
    using t established_results [OF assms(6), of s] unfolding v by simp
qed

lemma established_outbox:
  assumes "pending_client OPERATION_CONNECT s" "res_pBuffer_U8 (l_Result_X s) = NullBuffer"
    "ti_pop i = None" "ti_calls i = [cl]" "established_call wsi cl" "ti_elapsed_io i \<le> TimeOut_U32 (mCurrentOp_X s)"
    "lc_reply cl = None"
  shows "outbox (process_turn i s) = outbox s"
proof -
  have v: "serve (ti_calls i) s = snd (snd (LwsCallback cl s))" using assms(4) by simp
  have c: "ConnectDone_B (mWebSocketState_X (serve (ti_calls i) s))"
    unfolding v established_callback [OF assms(5)] by simp
  have r: "\<not> is_receive (lc_reason cl)" using assms(5) by (simp add: established_call_def is_receive_def)
  have o: "outbox (call_OnOpen t) = outbox t" for t :: engine by (simp add: call_OnOpen_def)
  have b: "outbox (snd (SetSocketBufferSize fd sz sts x y t)) = outbox t" for fd sz sts x y and t :: engine
    by (simp add: SetSocketBufferSize_def split: prod.split)
  have "outbox (snd (snd (LwsCallback cl s))) = outbox s"
    using assms(5) r assms(7) by (simp add: LwsCallback_def cb_first_def cb_client_established_def cb_second_def
        established_call_def outbox_cb_events o b Let_def split_def)
  then have s: "outbox (serve (ti_calls i) s) = outbox s" unfolding v .
  from connect_done_turn [OF assms(1,3) c assms(6)]
  have "ws_trace (process_turn i s) = ws_trace (serve (ti_calls i) s) @
      answer i s (mCurrentOp_X s) ((l_Result_X s)\<lparr>Sts_E := BOF_ERR_NO_ERROR, Time_U32 := ti_elapsed_send i\<rparr>)" by blast
  then show ?thesis using s assms(2) by (simp add: outbox_def answer_def)
qed

section \<open>From CONNECT to the bytes on the socket\<close>

text \<open>The inputs of a session in which everything goes well.\<close>

definition good_session ::
    "api_in \<Rightarrow> connect_param \<Rightarrow> u32 \<Rightarrow> turn_in \<Rightarrow> turn_in \<Rightarrow> turn_in \<Rightarrow> lws_call \<Rightarrow> operation_param \<Rightarrow> engine \<Rightarrow> bool" where
  "good_session a p to i1 i2 i3 cl op s \<longleftrightarrow>
     ai_push a = BOF_ERR_NO_ERROR \<and> c_str (pWsCltKey_c p) \<noteq> [] \<and> length (c_str (pWsCltKey_c p)) < 128 \<and>
     ti_pop i1 = Some \<lparr>Operation_E = OPERATION_CONNECT, Ticket_U32 = mTicket_U32 s, TimeOut_U32 = to, Timer_U32 = ai_now a,
       OpParam = Connect_X p\<rparr> \<and> ti_context_ok i1 \<and> ti_connect i1 \<noteq> None \<and> ti_elapsed_io i1 \<le> to \<and>
     ti_pop i2 = None \<and> ti_calls i2 = [cl] \<and> (\<exists>wsi. established_call wsi cl) \<and> lc_reply cl = None \<and> ti_elapsed_io i2 \<le> to \<and>
     ti_calls i3 = [] \<and> ti_pop i3 = Some op \<and> valid_write op \<and> ti_write_push i3 = BOF_ERR_NO_ERROR \<and> 0 < ti_on_writable i3"

lemma session_runs:
  assumes "disconnected s" "good_session a p to i1 i2 i3 cl op s"
    and "Program_Connect a to p s = (e, ticket, s1)"
    and "s2 = process_turn i2 (process_turn i1 s1)" "s3 = process_turn i3 s2"
  shows "e = BOF_ERR_NO_ERROR \<and>
    (\<exists>r. results_of (ws_trace s3) = results_of (ws_trace s) @ [EvResultPush r (ti_result_push i2)] \<and>
      res_Operation_E r = OPERATION_CONNECT \<and> OpTicket_U32 r = ticket \<and> Sts_E r = BOF_ERR_NO_ERROR) \<and>
    outbox s3 = ob_enqueue (asked_write i3 op) (outbox s)"
proof -
  let ?c = "\<lparr>Operation_E = OPERATION_CONNECT, Ticket_U32 = mTicket_U32 s, TimeOut_U32 = to, Timer_U32 = ai_now a,
       OpParam = Connect_X p\<rparr>"
  obtain w wsi where g: "ai_push a = BOF_ERR_NO_ERROR" "refusal ?c = None" "ti_pop i1 = Some ?c" "ti_context_ok i1"
      "ti_connect i1 = Some w" "ti_elapsed_io i1 \<le> TimeOut_U32 ?c" "ti_pop i2 = None" "ti_calls i2 = [cl]"
      "established_call wsi cl" "lc_reply cl = None" "ti_elapsed_io i2 \<le> to"
      "ti_calls i3 = []" "ti_pop i3 = Some op" "valid_write op" "ti_write_push i3 = BOF_ERR_NO_ERROR" "0 < ti_on_writable i3"
    using assms(2) by (auto simp: good_session_def refusal_def connect_of_def)
  have prog: "e = BOF_ERR_NO_ERROR" "ticket = mTicket_U32 s" "disconnected s1" "outbox s1 = outbox s"
      "results_of (ws_trace s1) = results_of (ws_trace s)"
    using assms(1,3) g(1) by (auto simp: Program_Connect_def program_operation_def LWS_WAKEUP_SERVICE_def Let_def
        disconnected_def is_server_def outbox_def results_of_def not_result_def)
  let ?t = "process_turn i1 s1"
  note t = connect_turn [OF prog(3) g(3) _ g(2,4,5,6), simplified]
  have srv: "\<not> is_server ?t" using t(6) prog(3) by (simp add: is_server_def disconnected_def)
  have to: "ti_elapsed_io i2 \<le> TimeOut_U32 (mCurrentOp_X ?t)" using t(2) g(11) by simp
  have pw: "pWebSocket_X (mWebSocketState_X ?t) = Some w" using t(5) by simp
  note u = established_turn [OF t(1) srv pw g(7,8,9) to]
  have "outbox ?t = outbox s1" using t(7) by (simp add: outbox_def)
  then have ob2: "outbox s2 = outbox s"
    using established_outbox [OF t(1) t(4) g(7,8,9) to g(10)] prog(4) assms(4) by simp
  have idle: "idle_connected s2" unfolding assms(4) by (rule u(1))
  have "outbox s3 = ob_enqueue (asked_write i3 op) (outbox s)" "results_of (ws_trace s3) = results_of (ws_trace s2)"
    using write_turn [OF idle g(12-15)] ob2 assms(5) g(16) by simp_all
  moreover have "results_of (ws_trace ?t) = results_of (ws_trace s)"
    using t(7) prog(5) by (simp add: results_of_def not_result_def)
  moreover have "\<exists>r. results_of (ws_trace s2) = results_of (ws_trace ?t) @ [EvResultPush r (ti_result_push i2)] \<and>
      res_Operation_E r = OPERATION_CONNECT \<and> OpTicket_U32 r = ticket \<and> Sts_E r = BOF_ERR_NO_ERROR"
    unfolding assms(4) by (intro exI, rule conjI [OF u(2)]) (simp add: t(3,8) prog(2))
  ultimately show ?thesis using prog(1) by auto
qed

text \<open>C1. A client with nothing to send that programs a CONNECT, gets its connection and then a WRITE, and whose
  writeable callback sends the write whole.  From the CONNECT to that callback the engine pushes exactly two
  results, whoever pushes them: the CONNECT is answered once, without error, under the ticket the call
  returned, and the WRITE is answered once, without error, under its own; exactly the bytes of the WRITE are sent.\<close>

theorem session_end_to_end:
  assumes "disconnected s" "good_session a p to i1 i2 i3 cl op s" "ob_queue (outbox s) = []"
    and "Program_Connect a to p s = (e, ticket, s1)"
    and "s2 = process_turn i2 (process_turn i1 s1)" "s3 = process_turn i3 s2" "complete_write clw s3"
  shows "e = BOF_ERR_NO_ERROR \<and>
    (\<exists>rc rw. results_of (ws_trace (serve [clw] s3)) =
        results_of (ws_trace s) @ [EvResultPush rc (ti_result_push i2), EvResultPush rw (lc_push clw)] \<and>
      res_Operation_E rc = OPERATION_CONNECT \<and> OpTicket_U32 rc = ticket \<and> Sts_E rc = BOF_ERR_NO_ERROR \<and>
      OpTicket_U32 rw = Ticket_U32 op \<and> Sts_E rw = BOF_ERR_NO_ERROR) \<and>
    outbox (serve [clw] s3) = (outbox s)\<lparr>ob_sent := ob_sent (outbox s) @ snd (asked_write i3 op),
      ob_done := ob_done (outbox s) @ [Ticket_U32 op]\<rparr>"
proof -
  note run = session_runs [OF assms(1,2,4,5,6)]
  then have "outbox (serve [clw] s3) = ob_send (ob_enqueue (asked_write i3 op) (outbox s))"
    using LwsCallback_complete [OF assms(7)] by simp
  also have "\<dots> = (outbox s)\<lparr>ob_sent := ob_sent (outbox s) @ snd (asked_write i3 op),
      ob_done := ob_done (outbox s) @ [Ticket_U32 op]\<rparr>"
    using assms(3) by (cases "outbox s") (simp add: ob_send_def ob_enqueue_def asked_write_def)
  finally have ob: "outbox (serve [clw] s3) = (outbox s)\<lparr>ob_sent := ob_sent (outbox s) @ snd (asked_write i3 op),
      ob_done := ob_done (outbox s) @ [Ticket_U32 op]\<rparr>" .
  have q: "ob_queue (outbox s3) = [(Ticket_U32 op, snd (asked_write i3 op))]"
    using run assms(3) by (simp add: ob_enqueue_def asked_write_def)
  obtain w where w: "lc_peek clw = Some w" "OpTicket_U32 (wo_Result_X w) = Ticket_U32 op"
    using assms(7) unfolding complete_write_def q by (auto split: option.splits)
  note rw = results_of_complete [OF assms(7) w(1)]
  obtain rc where rc: "results_of (ws_trace s3) = results_of (ws_trace s) @ [EvResultPush rc (ti_result_push i2)]"
      "res_Operation_E rc = OPERATION_CONNECT" "OpTicket_U32 rc = ticket" "Sts_E rc = BOF_ERR_NO_ERROR"
    using run by blast
  show ?thesis
    using run rc(2-4) w(2) ob rw unfolding rc(1) by simp
qed

theorem session_end_to_end_witness:
  "\<exists>e ticket s1 s4. Program_Connect sample_api 100 \<lparr>pWsCltKey_c = ''k'', DstIpAddr_X = 1, DstPort_U16 = 80\<rparr> (sample_engine 0) =
      (e, ticket, s1) \<and> e = BOF_ERR_NO_ERROR \<and>
    s4 = serve [sample_writeable 3] (process_turn (quiet_turn\<lparr>ti_pop := Some sample_write_op\<rparr>)
      (process_turn (quiet_turn\<lparr>ti_calls := [sample_call LWS_CALLBACK_CLIENT_ESTABLISHED]\<rparr>)
      (process_turn (quiet_turn\<lparr>ti_pop := Some (sample_op OPERATION_CONNECT sample_connect)\<rparr>) s1))) \<and>
    outbox s4 = \<lparr>ob_queue = [], ob_sent = [1, 2, 3], ob_done = [1]\<rparr> \<and> length (results_of (ws_trace s4)) = 2"
proof -
  let ?p = "\<lparr>pWsCltKey_c = ''k'', DstIpAddr_X = 1, DstPort_U16 = 80\<rparr>"
  let ?i1 = "quiet_turn\<lparr>ti_pop := Some (sample_op OPERATION_CONNECT sample_connect)\<rparr>"
  let ?i2 = "quiet_turn\<lparr>ti_calls := [sample_call LWS_CALLBACK_CLIENT_ESTABLISHED]\<rparr>"
  let ?i3 = "quiet_turn\<lparr>ti_pop := Some sample_write_op\<rparr>"
  obtain e ticket s1 where s1: "Program_Connect sample_api 100 ?p (sample_engine 0) = (e, ticket, s1)" by (metis prod_cases3)
  let ?s2 = "process_turn ?i2 (process_turn ?i1 s1)"
  let ?s3 = "process_turn ?i3 ?s2"
  have d: "disconnected (sample_engine 0)" by (simp add: disconnected_def sample_defs)
  have g: "good_session sample_api ?p 100 ?i1 ?i2 ?i3 (sample_call LWS_CALLBACK_CLIENT_ESTABLISHED) sample_write_op (sample_engine 0)"
    by (simp add: good_session_def established_call_def sample_api_def sample_defs sample_write_op_def valid_write_def
        write_of_def c_str_def)
  have o: "outbox (sample_engine 0) = \<lparr>ob_queue = [], ob_sent = [], ob_done = []\<rparr>" by (simp add: outbox_def sample_defs)
  have n: "results_of (ws_trace (sample_engine 0)) = []" by (simp add: results_of_def sample_defs)
  have w: "asked_write ?i3 sample_write_op = (1, [1, 2, 3])"
    by (simp add: asked_write_def sample_write_op_def sample_defs write_of_def)
  have "complete_write (sample_writeable 3) ?s3"
    using session_runs [OF d g s1 refl refl] o w
    by (simp add: complete_write_def ob_enqueue_def sample_write_defs sample_defs)
  from session_end_to_end [OF d g _ s1 refl refl this] o w n
  have "e = BOF_ERR_NO_ERROR \<and> outbox (serve [sample_writeable 3] ?s3) = \<lparr>ob_queue = [], ob_sent = [1, 2, 3], ob_done = [1]\<rparr> \<and>
      length (results_of (ws_trace (serve [sample_writeable 3] ?s3))) = 2"
    by (auto simp: sample_write_op_def sample_op_def)
  with s1 show ?thesis by blast
qed

section \<open>Any number of writes\<close>

text \<open>All bytes that were ever queued, sent or waiting, and the tickets they belong to.\<close>

definition ob_total :: "outbox \<Rightarrow> byte list \<times> u32 list" where
  "ob_total ob = (ob_sent ob @ concat (map snd (ob_queue ob)), ob_done ob @ map fst (ob_queue ob))"

lemma ob_total_enqueue:
  "ob_total (ob_enqueue w ob) = (fst (ob_total ob) @ snd w, snd (ob_total ob) @ [fst w])"
  by (simp add: ob_total_def ob_enqueue_def)

lemma ob_total_send: "ob_total (ob_send ob) = ob_total ob"
  by (simp add: ob_total_def ob_send_def split: list.split)

text \<open>A run of steps, each allowed in the state it is made in.\<close>

fun run_ok :: "('x \<Rightarrow> 's \<Rightarrow> bool) \<Rightarrow> ('x \<Rightarrow> 's \<Rightarrow> 's) \<Rightarrow> 'x list \<Rightarrow> 's \<Rightarrow> bool" where
  "run_ok ok f [] s \<longleftrightarrow> True"
| "run_ok ok f (x # xs) s \<longleftrightarrow> ok x s \<and> run_ok ok f xs (f x s)"

text \<open>The contract of something that implements an outbox.\<close>

locale outbox_implementation =
  fixes abs :: "'s \<Rightarrow> outbox" and can_enqueue :: "'i \<Rightarrow> 's \<Rightarrow> bool" and enqueue :: "'i \<Rightarrow> 's \<Rightarrow> 's"
    and asked :: "'i \<Rightarrow> u32 \<times> byte list" and can_send :: "'c \<Rightarrow> 's \<Rightarrow> bool" and send :: "'c \<Rightarrow> 's \<Rightarrow> 's"
  assumes enqueue_refines: "can_enqueue i s \<Longrightarrow> abs (enqueue i s) = ob_enqueue (asked i) (abs s)"
    and send_refines: "can_send c s \<Longrightarrow> abs (send c s) = ob_send (abs s)"
begin

lemma run_total:
  assumes "run_ok (case_sum can_enqueue can_send) (case_sum enqueue send) xs s"
  shows "ob_total (abs (fold (case_sum enqueue send) xs s)) =
    (fst (ob_total (abs s)) @ concat (map (\<lambda>x. case x of Inl i \<Rightarrow> snd (asked i) | Inr _ \<Rightarrow> []) xs),
     snd (ob_total (abs s)) @ concat (map (\<lambda>x. case x of Inl i \<Rightarrow> [fst (asked i)] | Inr _ \<Rightarrow> []) xs))"
  using assms
proof (induction xs arbitrary: s)
  case Nil
  then show ?case by simp
next
  case (Cons x xs)
  then show ?case
    by (cases x) (simp_all add: enqueue_refines send_refines ob_total_enqueue ob_total_send)
qed

end

text \<open>The engine: a turn that takes a WRITE, and a writeable callback that sends the first write whole.\<close>

definition takes_write :: "turn_in \<Rightarrow> engine \<Rightarrow> bool" where
  "takes_write i s \<longleftrightarrow> idle_connected s \<and> ti_calls i = [] \<and> ti_write_push i = BOF_ERR_NO_ERROR \<and> 0 < ti_on_writable i \<and>
     (case ti_pop i of None \<Rightarrow> False | Some op \<Rightarrow> valid_write op)"

definition turn_write :: "turn_in \<Rightarrow> u32 \<times> byte list" where
  "turn_write i = (case ti_pop i of None \<Rightarrow> (0, []) | Some op \<Rightarrow> asked_write i op)"

definition serve_one :: "lws_call \<Rightarrow> engine \<Rightarrow> engine" where
  "serve_one cl s = serve [cl] s"

interpretation engine_outbox:
  outbox_implementation outbox takes_write process_turn turn_write complete_write serve_one
proof unfold_locales
  fix i and s :: engine
  assume "takes_write i s"
  then show "outbox (process_turn i s) = ob_enqueue (turn_write i) (outbox s)"
    using write_turn by (auto simp: takes_write_def turn_write_def split: option.splits)
next
  fix c and s :: engine
  assume "complete_write c s"
  then show "outbox (serve_one c s) = ob_send (outbox s)" by (simp add: serve_one_def LwsCallback_complete)
qed

text \<open>The engine over turns that take a WRITE (\<open>Inl\<close>) and callbacks (\<open>Inr\<close>), and what the turns ask for.\<close>

abbreviation write_run :: "(turn_in + lws_call) list \<Rightarrow> engine \<Rightarrow> engine" where
  "write_run xs s \<equiv> fold (case_sum process_turn serve_one) xs s"

definition asked_bytes :: "(turn_in + lws_call) list \<Rightarrow> byte list" where
  "asked_bytes xs = concat (map (\<lambda>x. case x of Inl i \<Rightarrow> snd (turn_write i) | Inr _ \<Rightarrow> []) xs)"

definition asked_tickets :: "(turn_in + lws_call) list \<Rightarrow> u32 list" where
  "asked_tickets xs = concat (map (\<lambda>x. case x of Inl i \<Rightarrow> [fst (turn_write i)] | Inr _ \<Rightarrow> []) xs)"

text \<open>C5. Over any interleaving of turns that take a WRITE and callbacks that send the first write whole, no
  byte is lost, repeated or reordered: what was sent and what still waits are together exactly the bytes the
  WRITEs asked for, in their order, and so are the tickets answered and waiting.\<close>

theorem writes_are_delivered_in_order:
  assumes "run_ok (case_sum takes_write complete_write) (case_sum process_turn serve_one) xs s" "ob_queue (outbox s) = []"
  shows "ob_sent (outbox (write_run xs s)) @ concat (map snd (ob_queue (outbox (write_run xs s)))) =
      ob_sent (outbox s) @ asked_bytes xs \<and>
    ob_done (outbox (write_run xs s)) @ map fst (ob_queue (outbox (write_run xs s))) =
      ob_done (outbox s) @ asked_tickets xs"
  using engine_outbox.run_total [OF assms(1)] assms(2)
  by (simp add: ob_total_def asked_bytes_def asked_tickets_def)

theorem writes_are_delivered_in_order_witness:
  "ob_sent (outbox (write_run [Inl (quiet_turn\<lparr>ti_pop := Some sample_write_op\<rparr>), Inr (sample_writeable 3)] sample_connected)) @
     concat (map snd (ob_queue (outbox (write_run
       [Inl (quiet_turn\<lparr>ti_pop := Some sample_write_op\<rparr>), Inr (sample_writeable 3)] sample_connected)))) = [1, 2, 3]"
proof -
  let ?i = "quiet_turn\<lparr>ti_pop := Some sample_write_op\<rparr>"
  have o: "outbox sample_connected = \<lparr>ob_queue = [], ob_sent = [], ob_done = []\<rparr>"
    by (simp add: outbox_def sample_write_defs sample_defs)
  have t: "takes_write ?i sample_connected"
    by (simp add: takes_write_def sample_write_defs sample_defs idle_connected_def valid_write_def write_of_def io_ready_def)
  have w: "turn_write ?i = (1, [1, 2, 3])"
    by (simp add: turn_write_def asked_write_def sample_write_op_def sample_defs write_of_def)
  have "outbox (process_turn ?i sample_connected) = \<lparr>ob_queue = [(1, [1, 2, 3])], ob_sent = [], ob_done = []\<rparr>"
    by (simp add: engine_outbox.enqueue_refines [OF t] o w ob_enqueue_def)
  then have c: "complete_write (sample_writeable 3) (process_turn ?i sample_connected)"
    by (simp add: complete_write_def sample_write_defs sample_defs)
  from writes_are_delivered_in_order [of "[Inl ?i, Inr (sample_writeable 3)]" sample_connected] t c o w
  show ?thesis by (simp add: asked_bytes_def)
qed

end
