(* ===== verification/WsMessages.thy ===== *)
theory WsMessages
  imports WsSession
begin

text \<open>
  Messages between two engines.  The receive buffer is read off the calls made on it: fragments are appended,
  and the final one commits the message.  Messages of one sender arrive whole and in order however they
  are fragmented; fragments of two senders get mixed, because a server has one buffer for all its clients.
\<close>

section \<open>The inbox\<close>

record inbox =
  ib_messages :: "byte list list"
  ib_partial :: "byte list"

fun inbox_step :: "ws_event \<Rightarrow> inbox \<Rightarrow> inbox" where
  "inbox_step (EvRxPush bs sts) ib = (if sts = BOF_ERR_NO_ERROR then ib\<lparr>ib_partial := ib_partial ib @ bs\<rparr> else ib)"
| "inbox_step (EvRxAppend on) ib =
     (if on then ib else \<lparr>ib_messages = ib_messages ib @ [ib_partial ib], ib_partial = []\<rparr>)"
| "inbox_step EvRxReset ib = ib\<lparr>ib_partial := []\<rparr>"
| "inbox_step _ ib = ib"

text \<open>All messages that were ever committed, and the one that is being put together.\<close>

definition inbox :: "'a web_socket_scheme \<Rightarrow> inbox" where
  "inbox s = fold inbox_step (ws_trace s) \<lparr>ib_messages = [], ib_partial = []\<rparr>"

lemma inbox_emit [simp]: "inbox (emit e s) = inbox_step e (inbox s)"
  by (simp add: inbox_def)

lemma inbox_updates [simp]:
  "inbox (s\<lparr>mWebSocketState_X := a\<rparr>) = inbox s" "inbox (s\<lparr>mClientCollection := m\<rparr>) = inbox s"
  "inbox (s\<lparr>mNbTxByServer_U64 := c\<rparr>) = inbox s" "inbox (s\<lparr>mNbTxByClient_U64 := c\<rparr>) = inbox s"
  "inbox (s\<lparr>mNbRxByServer_U64 := c\<rparr>) = inbox s" "inbox (s\<lparr>mNbRxByClient_U64 := c\<rparr>) = inbox s"
  "inbox (bof_assert b s) = inbox s"
  by (simp_all add: inbox_def bof_assert_def)

text \<open>A fragment as libwebsockets delivers it, and what it does to the inbox.\<close>

definition frame :: "lws_call \<Rightarrow> byte list \<times> bool" where
  "frame cl = (lc_input cl, lc_final cl)"

definition take_frame :: "byte list \<times> bool \<Rightarrow> inbox \<Rightarrow> inbox" where
  "take_frame f ib =
     (if snd f then \<lparr>ib_messages = ib_messages ib @ [ib_partial ib @ fst f], ib_partial = []\<rparr>
      else ib\<lparr>ib_partial := ib_partial ib @ fst f\<rparr>)"

definition frames :: "lws_call list \<Rightarrow> (byte list \<times> bool) list" where
  "frames cls = map frame (filter (\<lambda>cl. is_receive (lc_reason cl)) cls)"

text \<open>Callbacks during which the connection stays and the buffer takes what it is given.\<close>

definition harmless :: "lws_call \<Rightarrow> bool" where
  "harmless cl \<longleftrightarrow> lc_wsi cl \<noteq> None \<and> lc_reason cl \<noteq> LWS_CALLBACK_CLIENT_CONNECTION_ERROR \<and>
     (is_receive (lc_reason cl) \<longrightarrow> lc_rx_push cl = BOF_ERR_NO_ERROR)"

section \<open>The callback and the inbox\<close>

lemma inbox_helpers [simp]:
  "inbox (call_OnOpen s) = inbox s" "inbox (call_OnClose s) = inbox s" "inbox (read_close_info cl s) = inbox s"
  "inbox (send_reply wsi cl s) = inbox s" "inbox (snd (SetSocketBufferSize fd sz sts a b s)) = inbox s"
  "inbox (snd (snd (AddClient k d s))) = inbox s" "inbox (snd (snd (RemoveClient d s))) = inbox s"
  "inbox (finish_write cl e w s) = inbox s"
  by (simp_all add: call_OnOpen_def call_OnClose_def read_close_info_def send_reply_def SetSocketBufferSize_def
      AddClient_def RemoveClient_def finish_write_def Let_def split: prod.split option.split)

lemma inbox_parts [simp]:
  "inbox (cb_writeable srv wsi cl s) = inbox s" "inbox (snd (cb_add_headers wsi cl s)) = inbox s"
  "inbox (snd (cb_client_established wsi cl s)) = inbox s" "inbox (cb_events wsi cl s) = inbox s"
  by (simp_all add: cb_writeable_def cb_add_headers_def cb_client_established_def cb_events_def Let_def split_def
      split: option.split)

lemma inbox_established [simp]: "inbox (snd (snd (cb_established wsi cl s))) = inbox s"
  by (simp add: cb_established_def Let_def split_def split: option.split)

lemma inbox_receive:
  "lc_rx_push cl = BOF_ERR_NO_ERROR \<Longrightarrow> inbox (cb_receive srv cl s) = take_frame (frame cl) (inbox s)"
  by (simp add: cb_receive_def take_frame_def frame_def Let_def)

lemma inbox_second: "lc_reason cl \<noteq> LWS_CALLBACK_CLIENT_CONNECTION_ERROR \<Longrightarrow> inbox (snd (cb_second cl d s)) = inbox s"
  by (simp add: cb_second_def split_def split: lws_reason.split)

lemma LwsCallback_inbox:
  assumes "harmless cl"
  shows "inbox (snd (snd (LwsCallback cl s))) =
    (if is_receive (lc_reason cl) then take_frame (frame cl) (inbox s) else inbox s)"
proof -
  obtain wsi where w: "lc_wsi cl = Some wsi" using assms by (auto simp: harmless_def)
  have "inbox (snd (snd (cb_first wsi cl s))) = (if is_receive (lc_reason cl) then take_frame (frame cl) (inbox s) else inbox s)"
    using assms by (auto simp: cb_first_def is_receive_def harmless_def inbox_receive split_def split: lws_reason.split)
  then show ?thesis
    using assms w by (simp add: LwsCallback_def Let_def split_def inbox_second harmless_def)
qed

lemma serve_inbox:
  "list_all harmless cls \<Longrightarrow> inbox (serve cls s) = fold take_frame (frames cls) (inbox s)"
  by (induction cls arbitrary: s) (simp_all add: frames_def LwsCallback_inbox)

section \<open>Messages from one sender\<close>

text \<open>The fragments of a message, and of a sequence of messages.\<close>

fun fragments_of :: "byte list \<Rightarrow> (byte list \<times> bool) list \<Rightarrow> bool" where
  "fragments_of m [] \<longleftrightarrow> False"
| "fragments_of m [f] \<longleftrightarrow> snd f \<and> fst f = m"
| "fragments_of m (f # fs) \<longleftrightarrow> \<not> snd f \<and> take (length (fst f)) m = fst f \<and> fragments_of (drop (length (fst f)) m) fs"

definition fragmented :: "byte list list \<Rightarrow> (byte list \<times> bool) list \<Rightarrow> bool" where
  "fragmented ms fs \<longleftrightarrow> (\<exists>fss. fs = concat fss \<and> list_all2 fragments_of ms fss)"

lemma take_fragments:
  "fragments_of m fs \<Longrightarrow> fold take_frame fs ib = \<lparr>ib_messages = ib_messages ib @ [ib_partial ib @ m], ib_partial = []\<rparr>"
proof (induction m fs arbitrary: ib rule: fragments_of.induct)
  case (3 m f g fs)
  then have m: "fst f @ drop (length (fst f)) m = m" by (metis append_take_drop_id fragments_of.simps(3))
  let ?ib = "ib\<lparr>ib_partial := ib_partial ib @ fst f\<rparr>"
  have "fold take_frame (f # g # fs) ib = fold take_frame (g # fs) ?ib"
    using 3(2) by (simp add: take_frame_def)
  also have "\<dots> = \<lparr>ib_messages = ib_messages ?ib @ [ib_partial ?ib @ drop (length (fst f)) m], ib_partial = []\<rparr>"
    using 3 by (simp del: fold_simps)
  also have "\<dots> = \<lparr>ib_messages = ib_messages ib @ [ib_partial ib @ fst f @ drop (length (fst f)) m], ib_partial = []\<rparr>"
    by simp
  finally have "fold take_frame (f # g # fs) ib =
      \<lparr>ib_messages = ib_messages ib @ [ib_partial ib @ fst f @ drop (length (fst f)) m], ib_partial = []\<rparr>" .
  then show ?case by (simp only: m)
qed (simp_all add: take_frame_def)

text \<open>The messages of one sender, however each is cut into fragments and whatever other callbacks come
  between, are committed whole and in order, and nothing is left over.\<close>

lemma reassembled:
  assumes "list_all harmless cls" "fragmented ms (frames cls)" "ib_partial (inbox s) = []"
  shows "inbox (serve cls s) = \<lparr>ib_messages = ib_messages (inbox s) @ ms, ib_partial = []\<rparr>"
proof -
  obtain fss where f: "frames cls = concat fss" "list_all2 fragments_of ms fss"
    using assms(2) by (auto simp: fragmented_def)
  have "fold take_frame (concat fss) ib = \<lparr>ib_messages = ib_messages ib @ ms, ib_partial = []\<rparr>"
    if "ib_partial ib = []" for ib
    using f(2) that by (induction arbitrary: ib rule: list_all2_induct) (simp_all add: take_fragments)
  then show ?thesis using assms(3) f(1) by (simp add: serve_inbox [OF assms(1)])
qed

definition sample_fragment :: "byte list \<Rightarrow> bool \<Rightarrow> lws_call" where
  "sample_fragment bs fin = (sample_call LWS_CALLBACK_RECEIVE)\<lparr>lc_input := bs, lc_final := fin\<rparr>"

lemmas fragment_simps = sample_fragment_def sample_call_def harmless_def frames_def frame_def is_receive_def

section \<open>Messages from two senders\<close>

text \<open>C30. The clients of a server share one buffer: when a message of one client comes between the two
  fragments of another's, neither arrives.  The first commit is the mixture, the second the rest.\<close>

theorem fragments_of_two_clients_mix:
  assumes "list_all harmless [c1, c2, c3]" "list_all (\<lambda>cl. is_receive (lc_reason cl)) [c1, c2, c3]"
    and "\<not> lc_final c1" "lc_final c2" "lc_final c3" "ib_partial (inbox s) = []"
    and "lc_wsi c1 = lc_wsi c3" "lc_wsi c2 \<noteq> lc_wsi c1"
  shows "ib_messages (inbox (serve [c1, c2, c3] s)) = ib_messages (inbox s) @ [lc_input c1 @ lc_input c2, lc_input c3]"
  using assms by (simp add: serve_inbox [OF assms(1)] frames_def frame_def take_frame_def del: serve.simps)

theorem fragments_of_two_clients_mix_witness:
  "ib_messages (inbox (serve [sample_fragment [1] False, (sample_fragment [9] True)\<lparr>lc_wsi := Some 6\<rparr>, sample_fragment [2] True]
     sample_listening)) = [[1, 9], [2]]"
  using fragments_of_two_clients_mix [of "sample_fragment [1] False" "(sample_fragment [9] True)\<lparr>lc_wsi := Some 6\<rparr>"
      "sample_fragment [2] True" sample_listening]
  by (simp add: fragment_simps inbox_def sample_listening_def sample_engine_def start_processing_def BofWebSocket_def
      bof_assert_def web_socket.defs del: serve.simps)

section \<open>From the WRITEs of a client to the messages of its server\<close>

text \<open>What was handed to the sockets: connection and message of each \<^verbatim>\<open>lws_write\<close>.\<close>

fun written :: "ws_event \<Rightarrow> (nat \<times> byte list) list" where
  "written (EvLwsWrite wsi bs n) = [(wsi, take (nat n) bs)]"
| "written _ = []"

definition lws_writes :: "'a web_socket_scheme \<Rightarrow> (nat \<times> byte list) list" where
  "lws_writes s = concat (map written (ws_trace s))"

lemma lws_writes_emit [simp]: "lws_writes (emit e s) = lws_writes s @ written e"
  by (simp add: lws_writes_def)

lemma lws_writes_same: "ws_trace s' = ws_trace s \<Longrightarrow> lws_writes s' = lws_writes s"
  by (simp add: lws_writes_def)

lemma lws_writes_updates [simp]:
  "lws_writes (s\<lparr>mNbTxByServer_U64 := c\<rparr>) = lws_writes s" "lws_writes (s\<lparr>mNbTxByClient_U64 := c\<rparr>) = lws_writes s"
  "lws_writes (bof_assert b s) = lws_writes s" "lws_writes (finish_write cl sts w s) = lws_writes s"
  by (simp_all add: lws_writes_def bof_assert_def finish_write_def Let_def)

text \<open>A callback that sends the first write whole writes one message.\<close>

lemma complete_write_message:
  assumes "complete_write cl s"
  shows "lws_writes (serve_one cl s) = lws_writes s @ [(the (lc_wsi cl), snd (hd (ob_queue (outbox s))))]"
proof -
  from assms obtain wsi w r where w: "lc_wsi cl = Some wsi" "lc_peek cl = Some w" "RemainToRead w \<noteq> []"
      "lc_written cl = int (length (RemainToRead w))" "length (RemainToRead w) < 2 ^ 64" "lc_reply cl = None"
      "ob_queue (outbox s) = (OpTicket_U32 (wo_Result_X w), RemainToRead w) # r"
      "lc_reason cl = LWS_CALLBACK_SERVER_WRITEABLE \<or> lc_reason cl = LWS_CALLBACK_CLIENT_WRITEABLE"
    by (auto simp: complete_write_def split: option.splits list.splits)
  have "unat (word_of_int (lc_written cl) :: u64) = length (RemainToRead w)"
    using w(4) unat_written [OF w(5)] by simp
  then have "lws_writes (cb_writeable srv wsi cl s) = lws_writes s @ [(wsi, RemainToRead w)]" for srv
    using w(2-4) by (simp add: cb_writeable_def Let_def)
  moreover have "lws_writes (cb_events wsi cl t) = lws_writes t" for t :: engine
    using w(6,8) by (auto simp: cb_events_def is_receive_def send_reply_def Let_def)
  ultimately show ?thesis
    using w(1,7,8) by (auto simp: serve_one_def LwsCallback_def cb_first_def cb_second_def Let_def)
qed

text \<open>A turn by itself writes nothing.\<close>

lemma turn_writes_nothing:
  assumes "ti_calls i = []"
  shows "lws_writes (process_turn i s) = lws_writes s"
proof -
  have p: "lws_writes (pop_command i t) = lws_writes t" for t
    by (rule lws_writes_same) (use assms in \<open>simp add: pop_command_def Let_def split: option.split\<close>)
  have o: "lws_writes (start_operation i t) = lws_writes t" for t
    by (simp add: lws_writes_def start_operation_def start_defs Let_def split: operation.split)
  have c: "lws_writes (start_command i t) = lws_writes t" for t
  proof (cases "(\<not> l_IoPending_B t \<or> l_ListeningMode_B t) \<and> l_NewCommandRcv_B t")
    case True
    have "lws_writes (start_operation i (accepted i t)) = lws_writes t" unfolding o by (rule lws_writes_same) simp
    moreover have "lws_writes (u\<lparr>l_IoPending_B := True\<rparr>) = lws_writes u" for u :: engine by (rule lws_writes_same) simp
    ultimately show ?thesis using True by (simp add: start_command_accepts)
  qed (auto simp: start_command_def)
  have sw: "lws_writes (pending_switch i t) = lws_writes t" for t
    by (simp add: lws_writes_def pending_switch_def Let_def split: operation.split prod.split)
  have tm: "lws_writes (pending_timeout i t) = lws_writes t" for t
    by (simp add: lws_writes_def pending_timeout_def Let_def)
  have k: "lws_writes (check_pending i t) = lws_writes t" for t
  proof -
    have "lws_writes (t\<lparr>l_SendResult_B := False\<rparr>) = lws_writes t" by (rule lws_writes_same) simp
    then show ?thesis by (simp add: check_pending_def sw tm)
  qed
  have r: "lws_writes (send_result i (do_cancel t)) = lws_writes t" for t
    by (simp add: send_result_def do_cancel_def Let_def lws_writes_def)
  show ?thesis by (simp add: process_turn_def p c k r)
qed

definition asked_messages :: "(turn_in + lws_call) list \<Rightarrow> byte list list" where
  "asked_messages xs = concat (map (\<lambda>x. case x of Inl i \<Rightarrow> [snd (turn_write i)] | Inr _ \<Rightarrow> []) xs)"

lemma write_run_messages:
  assumes "run_ok (case_sum takes_write complete_write) (case_sum process_turn serve_one) xs s"
  shows "map snd (lws_writes (write_run xs s)) @ map snd (ob_queue (outbox (write_run xs s))) =
    map snd (lws_writes s) @ map snd (ob_queue (outbox s)) @ asked_messages xs"
  using assms
proof (induction xs arbitrary: s)
  case Nil
  then show ?case by (simp add: asked_messages_def)
next
  case (Cons x xs)
  show ?case
  proof (cases x)
    case (Inl i)
    then have t: "takes_write i s" using Cons.prems by simp
    then have "lws_writes (process_turn i s) = lws_writes s" by (intro turn_writes_nothing) (simp add: takes_write_def)
    then show ?thesis using Cons Inl engine_outbox.enqueue_refines [OF t]
      by (simp add: asked_messages_def ob_enqueue_def)
  next
    case (Inr cl)
    then have c: "complete_write cl s" using Cons.prems by simp
    then have "ob_queue (outbox s) \<noteq> []" by (auto simp: complete_write_def split: option.splits)
    then show ?thesis using Cons Inr engine_outbox.send_refines [OF c] complete_write_message [OF c]
      by (cases "ob_queue (outbox s)") (auto simp: asked_messages_def ob_send_def)
  qed
qed

text \<open>C2. End to end: a client takes any number of WRITEs, its writeable callbacks interleaved with them in any way
  send each whole, and the network brings what was written to the server in fragments of any sizes: the
  messages the server commits are exactly the buffers of the WRITEs, one message each, in their order.\<close>

theorem messages_arrive_as_written:
  assumes "run_ok (case_sum takes_write complete_write) (case_sum process_turn serve_one) xs s"
    and "ob_queue (outbox s) = []" "ob_queue (outbox (write_run xs s)) = []"
    and "list_all harmless cls" "ib_partial (inbox r) = []"
    and "fragmented (map snd (drop (length (lws_writes s)) (lws_writes (write_run xs s)))) (frames cls)"
  shows "inbox (serve cls r) = \<lparr>ib_messages = ib_messages (inbox r) @ asked_messages xs, ib_partial = []\<rparr>"
proof -
  have "map snd (lws_writes (write_run xs s)) = map snd (lws_writes s) @ asked_messages xs"
    using write_run_messages [OF assms(1)] assms(2,3) by simp
  then have "map snd (drop (length (lws_writes s)) (lws_writes (write_run xs s))) = asked_messages xs"
    by (simp add: drop_map [symmetric])
  then show ?thesis using reassembled [OF assms(4) _ assms(5)] assms(6) by simp
qed

theorem messages_arrive_as_written_witness:
  "ib_messages (inbox (serve [sample_fragment [1, 2] False, sample_fragment [3] True] sample_listening)) = [[1, 2, 3]]"
proof -
  let ?i = "quiet_turn\<lparr>ti_pop := Some sample_write_op\<rparr>"
  let ?xs = "[Inl ?i, Inr (sample_writeable 3)]"
  let ?cls = "[sample_fragment [1, 2] False, sample_fragment [3] True]"
  have o: "outbox sample_connected = \<lparr>ob_queue = [], ob_sent = [], ob_done = []\<rparr>" "lws_writes sample_connected = []"
    by (simp_all add: outbox_def lws_writes_def sample_write_defs sample_defs)
  have t: "takes_write ?i sample_connected"
    by (simp add: takes_write_def sample_write_defs sample_defs idle_connected_def valid_write_def write_of_def io_ready_def)
  have w: "turn_write ?i = (1, [1, 2, 3])"
    by (simp add: turn_write_def asked_write_def sample_write_op_def sample_defs write_of_def)
  have o1: "outbox (process_turn ?i sample_connected) = \<lparr>ob_queue = [(1, [1, 2, 3])], ob_sent = [], ob_done = []\<rparr>"
    by (simp add: engine_outbox.enqueue_refines [OF t] o w ob_enqueue_def)
  have c: "complete_write (sample_writeable 3) (process_turn ?i sample_connected)"
    using o1 by (simp add: complete_write_def sample_write_defs sample_defs)
  have r: "run_ok (case_sum takes_write complete_write) (case_sum process_turn serve_one) ?xs sample_connected"
    using t c by simp
  have q: "ob_queue (outbox (write_run ?xs sample_connected)) = []"
    using engine_outbox.send_refines [OF c] o1 by (simp add: ob_send_def)
  have "map snd (lws_writes (write_run ?xs sample_connected)) = [[1, 2, 3]]"
    using write_run_messages [OF r] o q w by (simp add: asked_messages_def)
  moreover have "fragmented [[1, 2, 3]] (frames ?cls)"
    unfolding fragmented_def by (rule exI [of _ "[frames ?cls]"]) (simp add: fragment_simps)
  moreover have "list_all harmless ?cls" "inbox sample_listening = \<lparr>ib_messages = [], ib_partial = []\<rparr>"
    by (simp_all add: fragment_simps inbox_def sample_listening_def sample_engine_def start_processing_def BofWebSocket_def
        bof_assert_def web_socket.defs)
  ultimately show ?thesis
    using messages_arrive_as_written [OF r _ q, of ?cls sample_listening] o w
    by (simp add: asked_messages_def del: serve.simps)
qed

section \<open>Writes of a server\<close>

lemma listening_write_queued:
  assumes "listening_server s" "ti_calls i = []" "ti_pop i = Some op" "valid_write op" "ti_write_push i = BOF_ERR_NO_ERROR"
    and "pWebSocket_X (mWebSocketState_X s) = Some a"
  shows "outbox (process_turn i s) = ob_enqueue (asked_write i op) (outbox s)"
    "EvOnWritable (Some a) \<in> set (ws_trace (process_turn i s))"
proof -
  let ?a = "accepted i (pop_command i s)"
  have op: "Operation_E op = OPERATION_WRITE" using assms(4) by (simp add: valid_write_def)
  have pop: "pop_command i s = s\<lparr>mCurrentOp_X := op, l_NewCommandRcv_B := True\<rparr>"
    using assms(1-3) by (simp add: pop_quiet listening_server_def)
  have a: "mWebSocketState_X ?a = mWebSocketState_X s" "mCurrentOp_X ?a = op\<lparr>Timer_U32 := ti_now_cmd i\<rparr>"
    "is_server ?a" "ws_trace ?a = ws_trace s" "OpTicket_U32 (l_Result_X ?a) = Ticket_U32 op"
    using assms(1) by (simp_all add: pop listening_server_def)
  have io: "io_ready ?a" using a(1,3) assms(6) by (simp add: io_ready_def)
  have v: "valid_write (mCurrentOp_X ?a)" using assms(4) by (simp add: a(2) valid_write_def del: accepted_simps)
  have tr: "ws_trace (process_turn i s) = ws_trace (start_write i ?a)" by (rule listening_write_turn(1) [OF assms(1,3) op])
  have q: "asked_write i (mCurrentOp_X ?a) = asked_write i op" unfolding a(2) by (simp add: asked_write_def)
  have "outbox (start_write i ?a) = ob_enqueue (Ticket_U32 op, snd (asked_write i op)) (outbox s)"
    unfolding start_write_outbox(1) [OF io v] using assms(5) a(5) outbox_same [OF a(4)] q by simp
  then show "outbox (process_turn i s) = ob_enqueue (asked_write i op) (outbox s)"
    using outbox_same [OF tr] by (simp add: asked_write_def)
  show "EvOnWritable (Some a) \<in> set (ws_trace (process_turn i s))"
    unfolding tr using io v assms(5,6) a(1) by (simp add: start_write_def valid_write_def Let_def)
qed

text \<open>C31. A server cannot address its clients: it asks for the connection it bound last to be writeable,
  but the first client that is writeable takes the message, whoever it is, and nothing is left for the other.\<close>

theorem server_write_goes_to_whoever_is_writeable:
  assumes "listening_server s" "ti_calls i = []" "ti_pop i = Some op" "valid_write op" "ti_write_push i = BOF_ERR_NO_ERROR"
    and "pWebSocket_X (mWebSocketState_X s) = Some a" "ob_queue (outbox s) = []"
    and "complete_write cl (process_turn i s)" "lc_wsi cl = Some b"
  shows "EvOnWritable (Some a) \<in> set (ws_trace (process_turn i s)) \<and>
    lws_writes (serve_one cl (process_turn i s)) = lws_writes s @ [(b, snd (asked_write i op))] \<and>
    ob_queue (outbox (serve_one cl (process_turn i s))) = []"
  using listening_write_queued [OF assms(1-6)] turn_writes_nothing [OF assms(2)] complete_write_message [OF assms(8)]
    engine_outbox.send_refines [OF assms(8)] assms(7,9)
  by (simp add: ob_enqueue_def ob_send_def split_def)

theorem server_write_goes_to_whoever_is_writeable_witness:
  "lws_writes (serve_one ((sample_call LWS_CALLBACK_SERVER_WRITEABLE)\<lparr>lc_wsi := Some 6, lc_peek := Some sample_write,
      lc_written := 3\<rparr>) (process_turn (quiet_turn\<lparr>ti_pop := Some sample_write_op\<rparr>)
      (sample_listening\<lparr>mWebSocketState_X := \<lparr>ConnectDone_B = True, pWebSocket_X = Some 5\<rparr>\<rparr>))) = [(6, [1, 2, 3])]"
proof -
  let ?s = "sample_listening\<lparr>mWebSocketState_X := \<lparr>ConnectDone_B = True, pWebSocket_X = Some 5\<rparr>\<rparr>"
  let ?i = "quiet_turn\<lparr>ti_pop := Some sample_write_op\<rparr>"
  let ?cl = "(sample_call LWS_CALLBACK_SERVER_WRITEABLE)\<lparr>lc_wsi := Some 6, lc_peek := Some sample_write, lc_written := 3\<rparr>"
  have s: "listening_server ?s" "valid_write sample_write_op" "ob_queue (outbox ?s) = []" "lws_writes ?s = []"
    by (simp_all add: listening_server_def sample_write_op_def valid_write_def write_of_def outbox_def lws_writes_def sample_defs)
  have w: "snd (asked_write ?i sample_write_op) = [1, 2, 3]"
    by (simp add: asked_write_def sample_write_op_def sample_defs write_of_def)
  have "ob_queue (outbox (process_turn ?i ?s)) = [(1, [1, 2, 3])]"
    using listening_write_queued(1) [OF s(1) _ _ s(2), of ?i 5] s(3)
    by (simp add: ob_enqueue_def asked_write_def sample_write_op_def sample_defs write_of_def)
  then have c: "complete_write ?cl (process_turn ?i ?s)"
    by (simp add: complete_write_def sample_write_defs sample_call_def)
  show ?thesis
    using server_write_goes_to_whoever_is_writeable [OF s(1) _ _ s(2) _ _ s(3) c, where a = 5 and b = 6] s(4) w
    by (simp add: quiet_turn_def sample_call_def)
qed

end
