(* ===== verification/WsAnswers.thy ===== *)
theory WsAnswers
  imports WsCalls
begin

text \<open>
  Commands and answers.  Counted over whole runs of a client's engine: the thread answers a command at most
  once; an operation it waits for is answered exactly once, by its timeout at the latest; so the blocking
  calls return: with that answer, or with the failure of a pop, which has the same timeout as the operation.
\<close>

section \<open>Counting answers\<close>

text \<open>A result the thread itself pushes for ticket \<open>t\<close>; the results of finished writes, which the callback
  pushes, point into the storage of writes.\<close>

fun turn_result :: "u32 \<Rightarrow> ws_event \<Rightarrow> bool" where
  "turn_result t (EvResultPush r _) \<longleftrightarrow> OpTicket_U32 r = t \<and> \<not> write_result (res_pBuffer_U8 r)"
| "turn_result t _ \<longleftrightarrow> False"

definition answers :: "u32 \<Rightarrow> 'a web_socket_scheme \<Rightarrow> nat" where
  "answers t s = length (filter (turn_result t) (ws_trace s))"

definition popped_with :: "u32 \<Rightarrow> operation_param list \<Rightarrow> nat" where
  "popped_with t ops = length (filter (\<lambda>op. Ticket_U32 op = t) ops)"

lemma answers_same: "ws_trace s' = ws_trace s \<Longrightarrow> answers t s' = answers t s"
  by (simp add: answers_def)

lemma answers_extends:
  assumes "extends P s s'" "\<And>e. P e \<Longrightarrow> \<not> turn_result t e"
  shows "answers t s' = answers t s"
proof -
  obtain es where es: "ws_trace s' = ws_trace s @ es" "\<forall>e \<in> set es. P e" using assms(1) by (auto simp: extends_def)
  then have "filter (turn_result t) es = []" using assms(2) by (simp add: filter_empty_conv)
  then show ?thesis by (simp add: answers_def es(1))
qed

lemma turn_result_push: "turn_result t e \<Longrightarrow> is_push e"
  by (cases e) simp_all

text \<open>The parts of a turn before its end answer nothing.\<close>

lemma served_no_answer: "served_event cls e \<Longrightarrow> \<not> turn_result t e"
proof
  assume "served_event cls e" "turn_result t e"
  then obtain cl where cl: "callback_event cl e" "is_push e" by (auto simp: served_event_def turn_result_push)
  then obtain r sts where "e = EvResultPush r sts" "write_result (res_pBuffer_U8 r)"
    by (auto simp: callback_event_def)
  with \<open>turn_result t e\<close> show False by simp
qed

lemma answers_serve: "answers t (serve cls s) = answers t s"
  by (rule answers_extends [OF extends_serve served_no_answer])

lemma answers_pop [simp]: "answers t (pop_command i s) = answers t s"
proof -
  have "answers t (s\<lparr>mCurrentOp_X := op, l_NewCommandRcv_B := b\<rparr>) = answers t (s :: engine)" for s op b
    by (rule answers_same) simp
  moreover have "answers t (s\<lparr>l_NewCommandRcv_B := b\<rparr>) = answers t (s :: engine)" for s b
    by (rule answers_same) simp
  moreover have "answers t (s\<lparr>mCurrentOp_X := op\<rparr>) = answers t (s :: engine)" for s op
    by (rule answers_same) simp
  ultimately show ?thesis
    by (simp add: pop_command_def Let_def answers_serve split: option.split)
qed

lemma answers_start_operation: "answers t (start_operation i s) = answers t s"
  by (rule answers_extends [OF extends_start_operation]) (auto simp: started_event_def dest: turn_result_push)

lemma answers_plain: "extends plain s s' \<Longrightarrow> answers t s' = answers t s"
  by (erule answers_extends) (auto simp: plain_def dest: turn_result_push)

lemma answers_check [simp]: "answers t (check_pending i s) = answers t s"
proof -
  have "answers t (s\<lparr>l_SendResult_B := False\<rparr>) = answers t s" by (rule answers_same) simp
  then show ?thesis
    by (simp add: check_pending_def answers_plain [OF pending_timeout_frame(1)] answers_plain [OF pending_switch_frame(1)])
qed

lemma answers_cancel [simp]: "answers t (do_cancel s) = answers t s"
  by (rule answers_plain [OF do_cancel_frame(1)])

lemma answers_accepted: "answers t (accepted i s) = answers t s"
  by (rule answers_same) simp

lemma answers_start [simp]: "answers t (start_command i s) = answers t s"
proof (cases "(\<not> l_IoPending_B s \<or> l_ListeningMode_B s) \<and> l_NewCommandRcv_B s")
  case True
  have "answers t (start_operation i (accepted i s)) = answers t s"
    by (simp add: answers_start_operation answers_accepted)
  moreover have "answers t (u\<lparr>l_IoPending_B := True\<rparr>) = answers t u" for u :: engine by (rule answers_same) simp
  ultimately show ?thesis using True by (simp add: start_command_accepts)
next
  case False
  then show ?thesis by (auto simp: start_command_def)
qed

text \<open>The end of a turn answers with the result of the turn, once.\<close>

lemma answers_send:
  assumes "\<not> write_result (res_pBuffer_U8 (l_Result_X s))"
  shows "answers t (send_result i s) =
    answers t s + of_bool (l_SendResult_B s \<and> OpTicket_U32 (l_Result_X s) = t)"
proof (cases "l_SendResult_B s")
  case True
  then show ?thesis using assms by (simp add: answers_def send_result_simps(1) answer_def)
next
  case False
  then show ?thesis by (simp add: send_result_simps(2))
qed

section \<open>At most once\<close>

text \<open>The calls of the application that are not turns, and the runs with the operations popped in them.\<close>

inductive app_call :: "engine \<Rightarrow> engine \<Rightarrow> bool" where
  ProgramCall: "app_call s (snd (snd (program_operation a t op p s)))"
| CancelCall: "app_call s (snd (CancelWebSocketOperation e t s))"
| ClearCall: "app_call s (snd (ClearWebSocketOperation s))"
| ResetCall: "app_call s (snd (ResetWebSocketOperation s))"

inductive engine_run :: "u32 \<Rightarrow> web_socket_param \<Rightarrow> operation_param list \<Rightarrow> engine \<Rightarrow> bool" for junk p where
  Begin: "engine_run junk p [] (start_processing junk (BofWebSocket BOF_ERR_NO_ERROR p))"
| RunTurn: "engine_run junk p ops s \<Longrightarrow> engine_run junk p (case ti_pop i of None \<Rightarrow> ops | Some op \<Rightarrow> ops @ [op]) (process_turn i s)"
| RunCall: "engine_run junk p ops s \<Longrightarrow> app_call s s' \<Longrightarrow> engine_run junk p ops s'"

text \<open>Every reachable engine has such a run.\<close>

lemma engine_step_call: "engine_step s s' \<Longrightarrow> app_call s s' \<or> (\<exists>i. s' = process_turn i s)"
  by (erule engine_stepE) (auto dest!: programs_operation intro: app_call.intros)

lemma reachable_run: "reachable junk p s \<Longrightarrow> \<exists>ops. engine_run junk p ops s"
proof (induction rule: reachable.induct)
  case Start
  then show ?case by (blast intro: engine_run.Begin)
next
  case (Step s s')
  then show ?case by (blast dest: engine_step_call intro: engine_run.RunTurn engine_run.RunCall)
qed

text \<open>What the engine still has to answer of ticket \<open>t\<close>: the pending operation, or the result about to be sent.\<close>

definition due :: "u32 \<Rightarrow> engine \<Rightarrow> nat" where
  "due t s = of_bool ((l_IoPending_B s \<or> l_SendResult_B s) \<and> OpTicket_U32 (l_Result_X s) = t)"

text \<open>A client whose result is one of the thread.\<close>

definition client_ok :: "u32 \<Rightarrow> engine \<Rightarrow> bool" where
  "client_ok junk s \<longleftrightarrow> \<not> is_server s \<and> \<not> l_ListeningMode_B s \<and> l_ListenTicketId_U32 s = junk \<and>
     \<not> write_result (res_pBuffer_U8 (l_Result_X s))"

lemma client_ok_pop [simp]: "client_ok junk (pop_command i s) = client_ok junk s"
  by (simp add: client_ok_def)

lemma due_pop [simp]: "due t (pop_command i s) = due t s"
  by (simp add: due_def)

lemma start_operation_buffer [simp]:
  "res_pBuffer_U8 (l_Result_X (start_operation i s)) = res_pBuffer_U8 (l_Result_X s)"
  by (simp add: start_operation_def start_defs Let_def split: operation.split)

lemma start_operation_client:
  "\<not> is_server s \<Longrightarrow> l_ListeningMode_B (start_operation i s) = l_ListeningMode_B s \<and>
     l_ListenTicketId_U32 (start_operation i s) = l_ListenTicketId_U32 s"
  by (simp add: start_operation_def start_defs Let_def split: operation.split)

lemma start_command_due:
  assumes "client_ok junk s" "\<not> l_SendResult_B s"
  shows "client_ok junk (start_command i s)"
    "due t (start_command i s) \<le> due t s + of_bool (l_NewCommandRcv_B s \<and> Ticket_U32 (mCurrentOp_X s) = t)"
proof -
  let ?s1 = "start_operation i (accepted i s)"
  have p: "\<not> is_server (accepted i s)" using assms(1) by (simp add: client_ok_def)
  have c: "client_ok junk ?s1" using assms(1) start_operation_client [OF p, of i]
    by (simp add: client_ok_def is_server_def)
  then have c': "client_ok junk (?s1\<lparr>l_IoPending_B := True\<rparr>)" by (simp add: client_ok_def is_server_def)
  have o: "OpTicket_U32 (l_Result_X ?s1) = Ticket_U32 (mCurrentOp_X s)" by (simp add: start_operation_ticket)
  show "client_ok junk (start_command i s)"
    "due t (start_command i s) \<le> due t s + of_bool (l_NewCommandRcv_B s \<and> Ticket_U32 (mCurrentOp_X s) = t)"
  proof (atomize (full), cases "\<not> l_IoPending_B s \<and> l_NewCommandRcv_B s")
    case True
    have "start_command i s = ?s1 \<or> start_command i s = ?s1\<lparr>l_IoPending_B := True\<rparr>"
      using True by (auto simp: start_command_accepts)
    then show "client_ok junk (start_command i s) \<and> due t (start_command i s) \<le>
        due t s + of_bool (l_NewCommandRcv_B s \<and> Ticket_U32 (mCurrentOp_X s) = t)"
      using True c c' o by (auto simp: due_def)
  next
    case False
    then have "start_command i s = s" using assms by (auto simp: start_command_def client_ok_def)
    then show "client_ok junk (start_command i s) \<and> due t (start_command i s) \<le>
        due t s + of_bool (l_NewCommandRcv_B s \<and> Ticket_U32 (mCurrentOp_X s) = t)"
      using assms by simp
  qed
qed

text \<open>After the look at the pending operation a result to be sent ends it, except for the one that is
  reported under the ticket no LISTEN ever set.\<close>

definition one_due :: "u32 \<Rightarrow> engine \<Rightarrow> bool" where
  "one_due junk s \<longleftrightarrow> (l_SendResult_B s \<and> l_IoPending_B s \<longrightarrow> OpTicket_U32 (l_Result_X s) = junk)"

lemma pending_switch_due:
  assumes "client_ok junk s" "l_IoPending_B s" "\<not> l_SendResult_B s" "t \<noteq> junk"
  shows "client_ok junk (pending_switch i s)" "due t (pending_switch i s) \<le> due t s" "one_due junk (pending_switch i s)"
  using assms
  by (auto simp: pending_switch_def client_ok_def due_def one_due_def is_server_def Let_def
      split: operation.split prod.split)

lemma pending_timeout_due:
  assumes "client_ok junk s" "one_due junk s" "due t s \<le> n" "OpTicket_U32 (l_Result_X s) = t \<longrightarrow> n = 1"
  shows "client_ok junk (pending_timeout i s)" "due t (pending_timeout i s) \<le> n" "one_due junk (pending_timeout i s)"
  using assms
  by (auto simp: pending_timeout_def client_ok_def due_def one_due_def is_server_def Let_def)

lemma check_pending_due:
  assumes "client_ok junk s" "t \<noteq> junk"
  shows "client_ok junk (check_pending i s)" "due t (check_pending i s) \<le> due t s" "one_due junk (check_pending i s)"
proof (atomize (full), cases "l_IoPending_B s")
  case False
  then show "client_ok junk (check_pending i s) \<and> due t (check_pending i s) \<le> due t s \<and> one_due junk (check_pending i s)"
    using assms by (simp add: check_pending_def one_due_def)
next
  case True
  let ?s1 = "s\<lparr>l_SendResult_B := False\<rparr>"
  let ?s2 = "pending_switch i ?s1"
  have s1: "client_ok junk ?s1" "l_IoPending_B ?s1" "\<not> l_SendResult_B ?s1" "due t ?s1 = due t s"
    "l_ListenTicketId_U32 ?s1 = junk"
    using assms(1) True by (simp_all add: client_ok_def is_server_def due_def)
  note sw = pending_switch_due [OF s1(1-3) assms(2)]
  have "OpTicket_U32 (l_Result_X ?s2) = t \<longrightarrow> due t s = 1"
    using pending_switch_frame(2) [of i ?s1] s1(5) assms(2) True by (auto simp: due_def)
  then show "client_ok junk (check_pending i s) \<and> due t (check_pending i s) \<le> due t s \<and> one_due junk (check_pending i s)"
    using pending_timeout_due [OF sw(1) sw(3), where t = t and n = "due t s"] sw(2) s1(4) True
    by (simp add: check_pending_def)
qed

lemma do_cancel_due:
  assumes "client_ok junk s" "one_due junk s"
  shows "client_ok junk (do_cancel s)" "due t (do_cancel s) \<le> due t s" "one_due junk (do_cancel s)"
proof -
  have "is_server (do_cancel s) = is_server s" by (rule is_server_same) simp
  then show "client_ok junk (do_cancel s)" using assms(1) by (simp add: client_ok_def do_cancel_frame)
  show "due t (do_cancel s) \<le> due t s" "one_due junk (do_cancel s)"
    using assms(2) do_cancel_frame [of s] by (auto simp: due_def one_due_def)
qed

lemma send_result_due:
  assumes "client_ok junk s" "one_due junk s" "t \<noteq> junk"
  shows "client_ok junk (send_result i s)" "\<not> l_SendResult_B (send_result i s)"
    "answers t (send_result i s) + due t (send_result i s) \<le> answers t s + due t s"
proof -
  have r: "OpTicket_U32 (l_Result_X (send_result i s)) = OpTicket_U32 (l_Result_X s)"
    "res_pBuffer_U8 (l_Result_X (send_result i s)) = res_pBuffer_U8 (l_Result_X s)"
    "l_ListenTicketId_U32 (send_result i s) = l_ListenTicketId_U32 s"
    by (simp_all add: send_result_def Let_def)
  show "client_ok junk (send_result i s)" "\<not> l_SendResult_B (send_result i s)"
    using assms(1) r by (simp_all add: client_ok_def send_result_simps)
  have "\<not> write_result (res_pBuffer_U8 (l_Result_X s))" using assms(1) by (simp add: client_ok_def)
  then show "answers t (send_result i s) + due t (send_result i s) \<le> answers t s + due t s"
    using assms(2,3) r by (auto simp: answers_send due_def send_result_simps one_due_def)
qed

lemma turn_due:
  assumes c: "client_ok junk s" "\<not> l_SendResult_B s" and t: "t \<noteq> junk"
  shows "client_ok junk (process_turn i s)" "\<not> l_SendResult_B (process_turn i s)"
    "answers t (process_turn i s) + due t (process_turn i s) \<le>
     answers t s + due t s + (case ti_pop i of None \<Rightarrow> 0 | Some op \<Rightarrow> of_bool (Ticket_U32 op = t))"
proof -
  let ?p = "pop_command i s"
  let ?s = "start_command i ?p"
  let ?k = "check_pending i ?s"
  let ?c = "do_cancel ?k"
  have p: "client_ok junk ?p" "\<not> l_SendResult_B ?p" using c by simp_all
  note s = start_command_due [OF p, where i = i]
  note k = check_pending_due [OF s(1) t, where i = i]
  note d = do_cancel_due [OF k(1) k(3)]
  note r = send_result_due [OF d(1) d(3) t, where i = i]
  show "client_ok junk (process_turn i s)" "\<not> l_SendResult_B (process_turn i s)"
    unfolding process_turn_def by (fact r(1), fact r(2))
  have n: "of_bool (l_NewCommandRcv_B ?p \<and> Ticket_U32 (mCurrentOp_X ?p) = t) =
      (case ti_pop i of None \<Rightarrow> 0 :: nat | Some op \<Rightarrow> of_bool (Ticket_U32 op = t))"
    by (cases "ti_pop i") simp_all
  show "answers t (process_turn i s) + due t (process_turn i s) \<le>
     answers t s + due t s + (case ti_pop i of None \<Rightarrow> 0 | Some op \<Rightarrow> of_bool (Ticket_U32 op = t))"
    unfolding process_turn_def using r(3) d(2) [of t] k(2) s(2) [of t, unfolded n] by simp
qed

lemma app_call_frame:
  assumes "app_call s s'"
  shows "locals s' = locals s" "mWebSocketParam_X s' = mWebSocketParam_X s" "answers t s' = answers t s"
  using assms
  by (atomize (full), cases)
    (auto simp: program_operation_def LWS_WAKEUP_SERVICE_def CancelWebSocketOperation_def ClearWebSocketOperation_def
      ResetWebSocketOperation_def Let_def answers_def emit_def locals_def)

lemma popped_snoc [simp]: "popped_with t (ops @ [op]) = popped_with t ops + of_bool (Ticket_U32 op = t)"
  by (simp add: popped_with_def)

lemma run_due:
  assumes "engine_run junk p ops s" "NbMaxClient_U32 p = 0" "t \<noteq> junk"
  shows "client_ok junk s \<and> \<not> l_SendResult_B s \<and> answers t s + due t s \<le> popped_with t ops"
  using assms(1)
proof induction
  case Begin
  show ?case using assms(2)
    by (simp add: client_ok_def is_server_def answers_def due_def start_processing_def web_socket.defs
        BofWebSocket_def bof_assert_def new_result_def)
next
  case (RunTurn ops s i)
  then show ?case using turn_due [of junk s t i] assms(3) by (cases "ti_pop i") fastforce+
next
  case (RunCall ops s s')
  have "client_ok junk s' = client_ok junk s" "l_SendResult_B s' = l_SendResult_B s" "due t s' = due t s"
    using app_call_frame(1,2) [OF RunCall.hyps(2)] by (simp_all add: client_ok_def is_server_def due_def locals_def)
  with RunCall show ?case by (simp add: app_call_frame(3) [OF RunCall.hyps(2), of t])
qed

text \<open>C6. In every run of a client's engine, whatever the order of its turns, the calls of the application and
  the callbacks, the thread answers the commands of a ticket at most as often as it popped one: the thread answers
  no command twice (a WRITE is answered by the callback that sends it, which this does not count).  The value the variable of the LISTEN ticket starts with is excepted, since connections can
  be reported under it.\<close>

theorem each_command_is_answered_at_most_once:
  assumes "engine_run junk p ops s" "NbMaxClient_U32 p = 0" "t \<noteq> junk"
  shows "answers t s \<le> popped_with t ops"
  using run_due [OF assms] by simp

theorem each_command_is_answered_at_most_once_witness:
  "answers 1 (process_turn (quiet_turn\<lparr>ti_pop := Some (sample_op OPERATION_EXIT (Exit_X \<lparr>ex_Unused_U32 = 0\<rparr>))\<rparr>)
     (sample_engine 0)) \<le> 1"
proof -
  have "engine_run 77 (sample_param 0) ([] @ [sample_op OPERATION_EXIT (Exit_X \<lparr>ex_Unused_U32 = 0\<rparr>)])
     (process_turn (quiet_turn\<lparr>ti_pop := Some (sample_op OPERATION_EXIT (Exit_X \<lparr>ex_Unused_U32 = 0\<rparr>))\<rparr>) (sample_engine 0))"
    using engine_run.RunTurn [OF engine_run.Begin, of 77 "sample_param 0"
        "quiet_turn\<lparr>ti_pop := Some (sample_op OPERATION_EXIT (Exit_X \<lparr>ex_Unused_U32 = 0\<rparr>))\<rparr>"]
    by (simp add: sample_engine_def)
  from each_command_is_answered_at_most_once [OF this, of 1] show ?thesis
    by (simp add: sample_param_def popped_with_def sample_op_def)
qed

section \<open>At least once\<close>

text \<open>The engine waits for the answer of ticket \<open>t\<close>, with at most \<open>T\<close> of patience; it is idle.\<close>

definition idle :: "engine \<Rightarrow> bool" where
  "idle s \<longleftrightarrow> \<not> l_IoPending_B s \<and> \<not> l_SendResult_B s \<and> \<not> l_ListeningMode_B s \<and> \<not> mCancel_B s"

definition awaits :: "u32 \<Rightarrow> u32 \<Rightarrow> engine \<Rightarrow> bool" where
  "awaits t T s \<longleftrightarrow> l_IoPending_B s \<and> \<not> l_SendResult_B s \<and> \<not> l_ListeningMode_B s \<and> \<not> mCancel_B s \<and>
     OpTicket_U32 (l_Result_X s) = t \<and> \<not> write_result (res_pBuffer_U8 (l_Result_X s)) \<and>
     Operation_E (mCurrentOp_X s) \<in> {OPERATION_CONNECT, OPERATION_DISCONNECT, OPERATION_READ} \<and>
     TimeOut_U32 (mCurrentOp_X s) \<le> T"

text \<open>A turn that pops nothing and looks at the clock.\<close>

definition quiet :: "turn_in \<Rightarrow> bool" where
  "quiet i \<longleftrightarrow> ti_pop i = None \<and> 0 < ti_elapsed_io i"

lemma idle_turn:
  assumes "idle s" "quiet i"
  shows "idle (process_turn i s)" "answers t (process_turn i s) = answers t s"
proof -
  have p: "process_turn i s = pop_command i s"
    using assms by (simp add: turn_without_start quiet_def idle_def check_pending_idle send_result_simps(2))
  show "idle (process_turn i s)" "answers t (process_turn i s) = answers t s"
    unfolding p using assms(1) by (simp_all add: idle_def)
qed

lemma idle_turns: "idle s \<Longrightarrow> list_all quiet is \<Longrightarrow> idle (run_turns is s) \<and> answers t (run_turns is s) = answers t s"
  by (induction "is" arbitrary: s) (simp_all add: idle_turn)

text \<open>One look at the pending operation: it is answered, or waited for as before, and too late means answered.\<close>

definition looked_at :: "u32 \<Rightarrow> u32 \<Rightarrow> engine \<Rightarrow> bool" where
  "looked_at t T s \<longleftrightarrow> \<not> l_ListeningMode_B s \<and> \<not> mCancel_B s \<and> OpTicket_U32 (l_Result_X s) = t \<and>
     \<not> write_result (res_pBuffer_U8 (l_Result_X s)) \<and> (l_SendResult_B s \<longleftrightarrow> \<not> l_IoPending_B s) \<and>
     (l_IoPending_B s \<longrightarrow> Operation_E (mCurrentOp_X s) \<in> {OPERATION_CONNECT, OPERATION_DISCONNECT, OPERATION_READ} \<and>
        TimeOut_U32 (mCurrentOp_X s) \<le> T)"

lemma looked_at_sent:
  assumes "looked_at t T s"
  shows "idle (send_result i s) \<and> answers t (send_result i s) = answers t s + 1 \<or>
    awaits t T (send_result i s) \<and> answers t (send_result i s) = answers t s"
proof (cases "l_SendResult_B s")
  case True
  then show ?thesis using assms by (simp add: looked_at_def idle_def send_result_simps answers_send)
next
  case False
  then show ?thesis using assms by (simp add: looked_at_def awaits_def send_result_simps(2))
qed

lemma looked_at_timeout:
  assumes "looked_at t T s"
  shows "looked_at t T (pending_timeout i s)"
  using assms by (cases "Operation_E (mCurrentOp_X s) = OPERATION_CONNECT")
    (simp_all add: looked_at_def pending_timeout_def Let_def)

lemma looked_at_too_late:
  assumes "\<not> l_ListeningMode_B s" "\<not> mCancel_B s" "OpTicket_U32 (l_Result_X s) = t"
    and "\<not> write_result (res_pBuffer_U8 (l_Result_X s))" "Operation_E (mCurrentOp_X s) \<noteq> OPERATION_WRITE"
    and "TimeOut_U32 (mCurrentOp_X s) < ti_elapsed_io i"
  shows "looked_at t T (pending_timeout i s) \<and> l_SendResult_B (pending_timeout i s)"
  using assms(1-5) by (simp add: looked_at_def too_late [OF assms(1,5,6)])

lemma looked_at_switch:
  assumes "l_IoPending_B s" "\<not> l_SendResult_B s" "\<not> l_ListeningMode_B s" "\<not> mCancel_B s" "OpTicket_U32 (l_Result_X s) = t"
    and "\<not> write_result (res_pBuffer_U8 (l_Result_X s))"
    and "Operation_E (mCurrentOp_X s) \<in> {OPERATION_CONNECT, OPERATION_DISCONNECT, OPERATION_READ}"
    and "TimeOut_U32 (mCurrentOp_X s) \<le> T"
  shows "looked_at t T (pending_switch i s)" "mCurrentOp_X (pending_switch i s) = mCurrentOp_X s"
proof -
  have "looked_at t T (pending_switch i s) \<and> mCurrentOp_X (pending_switch i s) = mCurrentOp_X s"
  proof (cases "Operation_E (mCurrentOp_X s) = OPERATION_READ")
    case True
    then show ?thesis using assms(1-6,8)
      by (cases "fst (ti_rx_pop i) = BOF_ERR_NO_ERROR") (simp_all add: looked_at_def pending_switch_def Let_def split_def)
  next
    case False
    then consider "Operation_E (mCurrentOp_X s) = OPERATION_CONNECT" | "Operation_E (mCurrentOp_X s) = OPERATION_DISCONNECT"
      using assms(7) by blast
    then show ?thesis using assms(1-6,8)
      by cases (simp_all add: looked_at_def pending_switch_def)
  qed
  then show "looked_at t T (pending_switch i s)" "mCurrentOp_X (pending_switch i s) = mCurrentOp_X s" by simp_all
qed

lemma check_looks:
  assumes "l_IoPending_B s" "\<not> l_ListeningMode_B s" "\<not> mCancel_B s" "OpTicket_U32 (l_Result_X s) = t"
    and "\<not> write_result (res_pBuffer_U8 (l_Result_X s))"
    and "Operation_E (mCurrentOp_X s) \<in> {OPERATION_CONNECT, OPERATION_DISCONNECT, OPERATION_READ} \<and>
        TimeOut_U32 (mCurrentOp_X s) \<le> T \<or>
      Operation_E (mCurrentOp_X s) = OPERATION_MAX \<and> TimeOut_U32 (mCurrentOp_X s) = 0 \<and> 0 < ti_elapsed_io i"
  shows "looked_at t T (check_pending i s)" "T < ti_elapsed_io i \<Longrightarrow> l_SendResult_B (check_pending i s)"
proof -
  let ?s0 = "s\<lparr>l_SendResult_B := False\<rparr>"
  let ?s1 = "pending_switch i ?s0"
  have c: "check_pending i s = pending_timeout i ?s1" using assms(1) by (rule check_pending_busy)
  have "looked_at t T (pending_timeout i ?s1) \<and> (T < ti_elapsed_io i \<longrightarrow> l_SendResult_B (pending_timeout i ?s1))"
    using assms(6)
  proof
    assume op: "Operation_E (mCurrentOp_X s) \<in> {OPERATION_CONNECT, OPERATION_DISCONNECT, OPERATION_READ} \<and>
        TimeOut_U32 (mCurrentOp_X s) \<le> T"
    then have l: "looked_at t T ?s1" "mCurrentOp_X ?s1 = mCurrentOp_X s"
      using assms(1-5) looked_at_switch [of ?s0 t T i] by simp_all
    have "l_SendResult_B (pending_timeout i ?s1)" if "T < ti_elapsed_io i"
    proof -
      have "TimeOut_U32 (mCurrentOp_X ?s1) < ti_elapsed_io i" using op that l(2) by (metis order_le_less_trans)
      moreover have "Operation_E (mCurrentOp_X ?s1) \<noteq> OPERATION_WRITE" using op l(2) by auto
      ultimately show ?thesis using l(1) looked_at_too_late [of ?s1 t i T] unfolding looked_at_def by blast
    qed
    with looked_at_timeout [OF l(1)] show ?thesis by blast
  next
    assume "Operation_E (mCurrentOp_X s) = OPERATION_MAX \<and> TimeOut_U32 (mCurrentOp_X s) = 0 \<and> 0 < ti_elapsed_io i"
    then have "?s1 = (set_status BOF_ERR_BAD_ID ?s0)\<lparr>l_IoPending_B := False\<rparr>"
      "Operation_E (mCurrentOp_X s) \<noteq> OPERATION_WRITE" "TimeOut_U32 (mCurrentOp_X s) < ti_elapsed_io i"
      by (simp_all add: pending_switch_def)
    then show ?thesis using assms(1-5) looked_at_too_late [of ?s1 t i T] by simp
  qed
  then show "looked_at t T (check_pending i s)" "T < ti_elapsed_io i \<Longrightarrow> l_SendResult_B (check_pending i s)"
    unfolding c by simp_all
qed

lemma awaiting_turn:
  assumes a: "awaits t T s" and q: "quiet i"
  shows "idle (process_turn i s) \<and> answers t (process_turn i s) = answers t s + 1 \<or>
      awaits t T (process_turn i s) \<and> answers t (process_turn i s) = answers t s"
    "T < ti_elapsed_io i \<Longrightarrow> idle (process_turn i s)"
proof -
  let ?p = "pop_command i s"
  have o: "mCurrentOp_X ?p = (if mpLwsContext_X s then mCurrentOp_X s else OPERATION_PARAM_Reset (mCurrentOp_X s))"
    using q by (simp add: pop_command_def quiet_def Let_def)
  have p: "process_turn i s = send_result i (check_pending i ?p)"
    using a q by (simp add: turn_without_start quiet_def awaits_def)
  have "Operation_E (mCurrentOp_X ?p) \<in> {OPERATION_CONNECT, OPERATION_DISCONNECT, OPERATION_READ} \<and>
        TimeOut_U32 (mCurrentOp_X ?p) \<le> T \<or>
      Operation_E (mCurrentOp_X ?p) = OPERATION_MAX \<and> TimeOut_U32 (mCurrentOp_X ?p) = 0 \<and> 0 < ti_elapsed_io i"
    using a q unfolding o by (auto simp: awaits_def quiet_def OPERATION_PARAM_Reset_def)
  note l = check_looks [OF _ _ _ _ _ this]
  have l1: "looked_at t T (check_pending i ?p)" using a by (intro l) (simp_all add: awaits_def)
  show "idle (process_turn i s) \<and> answers t (process_turn i s) = answers t s + 1 \<or>
      awaits t T (process_turn i s) \<and> answers t (process_turn i s) = answers t s"
    unfolding p using looked_at_sent [OF l1, of i] by simp
  show "T < ti_elapsed_io i \<Longrightarrow> idle (process_turn i s)"
  proof -
    assume "T < ti_elapsed_io i"
    then have "l_SendResult_B (check_pending i ?p)" using a by (intro l(2)) (simp_all add: awaits_def)
    then show ?thesis unfolding p using l1 by (simp add: looked_at_def idle_def send_result_simps)
  qed
qed

lemma awaited_answer:
  assumes "awaits t T s" "list_all quiet is" "\<exists>i \<in> set is. T < ti_elapsed_io i"
  shows "idle (run_turns is s) \<and> answers t (run_turns is s) = answers t s + 1"
  using assms
proof (induction "is" arbitrary: s)
  case (Cons i "is")
  have q: "quiet i" "list_all quiet is" using Cons.prems(2) by simp_all
  note step = awaiting_turn [OF Cons.prems(1) q(1)]
  show ?case
  proof (cases "idle (process_turn i s)")
    case True
    then have "answers t (process_turn i s) = answers t s + 1" using step(1) by (auto simp: idle_def awaits_def)
    then show ?thesis using idle_turns [OF True q(2)] by simp
  next
    case False
    then have "awaits t T (process_turn i s)" "answers t (process_turn i s) = answers t s" "\<not> T < ti_elapsed_io i"
      using step by auto
    then show ?thesis using Cons.IH [OF _ q(2)] Cons.prems(3) by auto
  qed
qed simp

text \<open>The turn in which the command is popped.\<close>

lemma start_operation_waited:
  assumes "Operation_E (mCurrentOp_X s) \<in> {OPERATION_CONNECT, OPERATION_DISCONNECT, OPERATION_READ}"
  shows "l_ListeningMode_B (start_operation i s) = l_ListeningMode_B s" "mCurrentOp_X (start_operation i s) = mCurrentOp_X s"
  using assms by (elim insertE; simp add: start_operation_def start_defs Let_def)+

lemma idle_starts:
  assumes "idle s" "ti_pop i = Some op" "Operation_E op \<in> {OPERATION_CONNECT, OPERATION_DISCONNECT, OPERATION_READ}"
  shows "idle (process_turn i s) \<and> answers (Ticket_U32 op) (process_turn i s) = answers (Ticket_U32 op) s + 1 \<or>
    awaits (Ticket_U32 op) (TimeOut_U32 op) (process_turn i s) \<and>
    answers (Ticket_U32 op) (process_turn i s) = answers (Ticket_U32 op) s"
proof -
  let ?p = "pop_command i s"
  let ?o = "start_operation i (accepted i ?p)"
  let ?s = "start_command i ?p"
  have p: "mCurrentOp_X ?p = op" "\<not> l_IoPending_B ?p" "l_NewCommandRcv_B ?p" "\<not> l_ListeningMode_B ?p" "\<not> mCancel_B ?p"
    using assms(1,2) by (simp_all add: idle_def)
  have k: "Operation_E (mCurrentOp_X (accepted i ?p)) \<in> {OPERATION_CONNECT, OPERATION_DISCONNECT, OPERATION_READ}"
    using assms(3) p(1) by simp
  have o: "mCurrentOp_X ?o = op\<lparr>Timer_U32 := ti_now_cmd i\<rparr>" "\<not> l_ListeningMode_B ?o" "\<not> mCancel_B ?o"
    "OpTicket_U32 (l_Result_X ?o) = Ticket_U32 op" "\<not> write_result (res_pBuffer_U8 (l_Result_X ?o))"
    "l_SendResult_B ?o" "\<not> l_IoPending_B ?o"
    using p start_operation_waited [OF k, of i] by (simp_all add: start_operation_ticket start_operation_flags)
  have st: "?s = (if Sts_E (l_Result_X ?o) = BOF_ERR_NO_ERROR then ?o\<lparr>l_IoPending_B := True\<rparr> else ?o)"
    using p by (simp add: start_command_accepts)
  have "looked_at (Ticket_U32 op) (TimeOut_U32 op) (check_pending i ?s)"
  proof (cases "Sts_E (l_Result_X ?o) = BOF_ERR_NO_ERROR")
    case True
    then have s: "?s = ?o\<lparr>l_IoPending_B := True\<rparr>" using st by simp
    show ?thesis unfolding s by (rule check_looks(1)) (use o assms(3) in simp_all)
  next
    case False
    then show ?thesis using st o by (simp add: check_pending_idle looked_at_def)
  qed
  moreover have "\<not> mCancel_B (check_pending i ?s)" using p(5) by simp
  ultimately show ?thesis
    using looked_at_sent [of "Ticket_U32 op" "TimeOut_U32 op" "check_pending i ?s" i]
    by (simp add: process_turn_def do_cancel_idle)
qed

text \<open>C7. A CONNECT, DISCONNECT or READ that an idle engine pops is answered exactly once, whatever
  libwebsockets does meanwhile (connection, failure, loss of the context, data or none), in the turns that
  follow up to one that sees its timeout passed; and the engine is idle again.\<close>

theorem popped_operation_is_answered_exactly_once:
  assumes "idle s" "ti_pop i = Some op" "Operation_E op \<in> {OPERATION_CONNECT, OPERATION_DISCONNECT, OPERATION_READ}"
    and "list_all quiet is" "\<exists>j \<in> set is. TimeOut_U32 op < ti_elapsed_io j"
  shows "answers (Ticket_U32 op) (run_turns (i # is) s) = answers (Ticket_U32 op) s + 1 \<and>
    idle (run_turns (i # is) s)"
  using idle_starts [OF assms(1-3)] idle_turns [OF _ assms(4)] awaited_answer [OF _ assms(4,5)] by fastforce

theorem popped_operation_is_answered_exactly_once_witness:
  "answers 1 (run_turns [quiet_turn\<lparr>ti_pop := Some (sample_op OPERATION_CONNECT sample_connect)\<rparr>,
      quiet_turn\<lparr>ti_elapsed_io := 50\<rparr>, quiet_turn\<lparr>ti_elapsed_io := 101\<rparr>] (sample_engine 0)) = 1"
proof -
  have "answers 1 (sample_engine 0) = 0" by (simp add: answers_def sample_defs)
  then show ?thesis
    using popped_operation_is_answered_exactly_once [of "sample_engine 0"
        "quiet_turn\<lparr>ti_pop := Some (sample_op OPERATION_CONNECT sample_connect)\<rparr>"
        "sample_op OPERATION_CONNECT sample_connect" "[quiet_turn\<lparr>ti_elapsed_io := 50\<rparr>, quiet_turn\<lparr>ti_elapsed_io := 101\<rparr>]"]
    by (simp add: idle_def quiet_def sample_defs del: run_turns_simps)
qed

section \<open>The blocking calls return\<close>

text \<open>The results in the queue: those whose push succeeded.\<close>

definition delivered :: "ws_event \<Rightarrow> operation_result list" where
  "delivered e = (case e of EvResultPush r sts \<Rightarrow> if sts = BOF_ERR_NO_ERROR then [r] else [] | _ \<Rightarrow> [])"

definition queued_results :: "'a web_socket_scheme \<Rightarrow> operation_result list" where
  "queued_results s = concat (map delivered (ws_trace s))"

definition queued_since :: "'a web_socket_scheme \<Rightarrow> 'a web_socket_scheme \<Rightarrow> operation_result list" where
  "queued_since s s' = drop (length (queued_results s)) (queued_results s')"

definition pushed_well :: "ws_event \<Rightarrow> bool" where
  "pushed_well e \<longleftrightarrow> (\<forall>t. turn_result t e \<longrightarrow> delivered e \<noteq> [])"

lemma pushed_well_quiet: "(\<And>t. \<not> turn_result t e) \<Longrightarrow> pushed_well e"
  by (simp add: pushed_well_def)

lemma extends_turn:
  assumes "ti_result_push i = BOF_ERR_NO_ERROR"
  shows "extends pushed_well s (process_turn i s)"
proof -
  have mono: "extends P u u' \<Longrightarrow> (\<And>e t. P e \<Longrightarrow> \<not> turn_result t e) \<Longrightarrow> extends pushed_well u u'" for P and u u' :: engine
    by (erule extends_mono) (blast intro: pushed_well_quiet)
  have plain: "extends plain u u' \<Longrightarrow> extends pushed_well u u'" for u u' :: engine
    by (erule mono) (auto simp: plain_def dest: turn_result_push)
  have v: "extends pushed_well s (serve cls s)" for cls and s :: engine
    by (rule mono [OF extends_serve]) (rule served_no_answer)
  have p: "extends pushed_well s (pop_command i s)" for s
  proof -
    have "extends pushed_well s (if mpLwsContext_X s then serve (ti_calls i) s
        else s\<lparr>mCurrentOp_X := OPERATION_PARAM_Reset (mCurrentOp_X s)\<rparr>)" (is "extends _ s ?s1")
      using v by simp
    then show ?thesis by (rule extends_same) (simp add: pop_command_def Let_def split: option.split)
  qed
  have o: "extends pushed_well s (start_operation i s)" for s
    by (rule mono [OF extends_start_operation]) (auto simp: started_event_def dest: turn_result_push)
  have c: "extends pushed_well s (start_command i s)" for s
  proof (cases "(\<not> l_IoPending_B s \<or> l_ListeningMode_B s) \<and> l_NewCommandRcv_B s")
    case True
    have "extends pushed_well s (start_operation i (accepted i s))"
      by (rule extends_trans [OF _ o]) simp
    then show ?thesis using True by (auto simp: start_command_accepts intro: extends_same)
  qed (auto simp: start_command_def)
  have k: "extends pushed_well s (check_pending i s)" for s
  proof -
    have "extends pushed_well (s\<lparr>l_SendResult_B := False\<rparr>) (pending_timeout i (pending_switch i (s\<lparr>l_SendResult_B := False\<rparr>)))"
      by (rule extends_trans [OF plain [OF pending_switch_frame(1)] plain [OF pending_timeout_frame(1)]])
    then show ?thesis by (simp add: check_pending_def extends_def)
  qed
  have r: "extends pushed_well s (send_result i s)" for s
    using assms by (auto simp: send_result_def Let_def extends_def pushed_well_def delivered_def)
  show ?thesis unfolding process_turn_def
    by (rule extends_trans [OF extends_trans [OF extends_trans [OF extends_trans [OF p c] k] plain [OF do_cancel_frame(1)]] r])
qed

lemma extends_turns:
  "\<forall>i \<in> set is. ti_result_push i = BOF_ERR_NO_ERROR \<Longrightarrow> extends pushed_well s (run_turns is s)"
  by (induction "is" arbitrary: s) (auto intro: extends_trans extends_turn)

text \<open>An answer of the thread since then is in the queue of results.\<close>

lemma answer_is_queued:
  assumes "extends pushed_well s s'" "answers t s < answers t s'"
  shows "\<exists>r \<in> set (queued_since s s'). OpTicket_U32 r = t"
proof -
  obtain es where es: "ws_trace s' = ws_trace s @ es" "\<forall>e \<in> set es. pushed_well e"
    using assms(1) by (auto simp: extends_def)
  then have q: "queued_since s s' = concat (map delivered es)"
    by (simp add: queued_since_def queued_results_def)
  have "filter (turn_result t) es \<noteq> []" using assms(2) by (auto simp: answers_def es(1))
  then obtain e where e: "e \<in> set es" "turn_result t e" by (auto simp: filter_empty_conv)
  obtain r sts where r: "e = EvResultPush r sts" "OpTicket_U32 r = t" using e(2) by (cases e) auto
  moreover have "delivered e \<noteq> []" using es(2) e by (auto simp: pushed_well_def)
  ultimately have "r \<in> set (delivered e)" by (simp add: delivered_def split: if_split_asm)
  then show ?thesis using e(1) r(2) unfolding q by auto
qed

text \<open>What successive pops of a queue of results give: a failure, which takes nothing, or the first result.\<close>

fun pops_from :: "operation_result list \<Rightarrow> (boferr + operation_result) list \<Rightarrow> bool" where
  "pops_from q [] \<longleftrightarrow> True"
| "pops_from q (Inl e # as) \<longleftrightarrow> e \<noteq> BOF_ERR_NO_ERROR \<and> pops_from q as"
| "pops_from [] (Inr r # as) \<longleftrightarrow> False"
| "pops_from (x # q) (Inr r # as) \<longleftrightarrow> r = x \<and> pops_from q as"

text \<open>The loop of the blocking calls stops at the answer, or at the first pop that fails before it.\<close>

definition stops_at ::
    "u32 \<Rightarrow> (boferr + operation_result) list \<Rightarrow> operation_result list \<Rightarrow> boferr + operation_result \<Rightarrow> bool" where
  "stops_at t as lost x \<longleftrightarrow> (\<exists>rest. as = map Inr lost @ x # rest) \<and> (\<forall>r \<in> set lost. OpTicket_U32 r \<noteq> t) \<and>
     (case x of Inl e \<Rightarrow> e \<noteq> BOF_ERR_NO_ERROR | Inr r \<Rightarrow> OpTicket_U32 r = t)"

lemma stops_at_Cons: "stops_at t as lost x \<Longrightarrow> OpTicket_U32 r \<noteq> t \<Longrightarrow> stops_at t (Inr r # as) (r # lost) x"
  by (auto simp: stops_at_def)

lemma wait_result_stops:
  "pops_from q as \<Longrightarrow> length q \<le> length as \<Longrightarrow> \<exists>r \<in> set q. OpTicket_U32 r = t \<Longrightarrow>
    \<exists>lost x. stops_at t as lost x \<and>
      wait_result t as = Some (fst (GetWebSocketOperationResult x), snd (GetWebSocketOperationResult x), lost)"
proof (induction q as rule: pops_from.induct)
  case (2 q e as)
  then have "stops_at t (Inl e # as) [] (Inl e)" by (simp add: stops_at_def)
  then show ?case using 2 by (intro exI) (auto simp: GetWebSocketOperationResult_def)
next
  case (4 y q r as)
  show ?case
  proof (cases "OpTicket_U32 r = t")
    case True
    then have "stops_at t (Inr r # as) [] (Inr r)" by (simp add: stops_at_def)
    then show ?thesis using True by (intro exI) (auto simp: GetWebSocketOperationResult_def)
  next
    case False
    with 4 obtain lost x where "stops_at t as lost x"
      "wait_result t as = Some (fst (GetWebSocketOperationResult x), snd (GetWebSocketOperationResult x), lost)" by auto
    then show ?thesis using False stops_at_Cons [of t as lost x r]
      by (intro exI) (auto simp: GetWebSocketOperationResult_def split: sum.splits)
  qed
qed simp_all

lemma idle_app_call: "app_call s s' \<Longrightarrow> mCancel_B s' = mCancel_B s \<Longrightarrow> idle s' = idle s"
  using app_call_frame(1) [of s s'] by (simp add: idle_def locals_def)

text \<open>The engine answers the call that programmed the operation.\<close>

lemma program_operation_accepted:
  "ai_push a = BOF_ERR_NO_ERROR \<Longrightarrow> program_operation a T k prm s =
     (BOF_ERR_NO_ERROR, mTicket_U32 s, snd (snd (program_operation a T k prm s)))"
  by (simp add: program_operation_def Let_def)

lemma programmed_is_answered:
  assumes "idle s" "k \<in> {OPERATION_CONNECT, OPERATION_DISCONNECT, OPERATION_READ}"
    and "ti_pop i = Some \<lparr>Operation_E = k, Ticket_U32 = mTicket_U32 s, TimeOut_U32 = T, Timer_U32 = ai_now a, OpParam = prm\<rparr>"
    and "list_all quiet is" "\<exists>j \<in> set is. T < ti_elapsed_io j" "\<forall>j \<in> set (i # is). ti_result_push j = BOF_ERR_NO_ERROR"
  shows "\<exists>r \<in> set (queued_since (snd (snd (program_operation a T k prm s)))
      (run_turns (i # is) (snd (snd (program_operation a T k prm s))))). OpTicket_U32 r = mTicket_U32 s"
proof -
  let ?s1 = "snd (snd (program_operation a T k prm s))"
  let ?op = "\<lparr>Operation_E = k, Ticket_U32 = mTicket_U32 s, TimeOut_U32 = T, Timer_U32 = ai_now a, OpParam = prm\<rparr>"
  have c: "app_call s ?s1" by (rule ProgramCall)
  have "mCancel_B ?s1 = mCancel_B s" by (simp add: program_operation_def LWS_WAKEUP_SERVICE_def Let_def)
  with c assms(1) have "idle ?s1" using idle_app_call by blast
  then have "answers (mTicket_U32 s) (run_turns (i # is) ?s1) = answers (mTicket_U32 s) ?s1 + 1"
    using idle_starts [of ?s1 i ?op] idle_turns [OF _ assms(4)] awaited_answer [OF _ assms(4,5)] assms(2,3)
    by fastforce
  with answer_is_queued [OF extends_turns [OF assms(6)]] show ?thesis by fastforce
qed

text \<open>C8. A blocking \<^verbatim>\<open>Read\<close> on an idle engine returns, whatever its pops give.  The queue of results is what was left
  there and then what the engine pushes in the turns that pop the command and follow, up to one that sees its
  timeout passed; a pop takes the first result of the queue or fails, as it does after the same timeout.  When
  as many pops are made as the queue has results, the call has returned: with the first failure before its
  answer, and zero bytes, or with its answer and the size in it.  Results of other tickets before that are
  dropped.\<close>

theorem blocking_read_returns:
  assumes "idle s" "ai_push a = BOF_ERR_NO_ERROR"
    and "ti_pop i = Some \<lparr>Operation_E = OPERATION_READ, Ticket_U32 = mTicket_U32 s, TimeOut_U32 = T, Timer_U32 = ai_now a,
      OpParam = Read_X \<lparr>Nb_U32 = nb, io_pBuffer_U8 = dat\<rparr>\<rparr>"
    and "list_all quiet is" "\<exists>j \<in> set is. T < ti_elapsed_io j" "\<forall>j \<in> set (i # is). ti_result_push j = BOF_ERR_NO_ERROR"
    and "s1 = snd (snd (Program_Read a T \<lparr>Nb_U32 = nb, io_pBuffer_U8 = dat\<rparr> s))"
    and "pops_from (old @ queued_since s1 (run_turns (i # is) s1)) as"
    and "length (old @ queued_since s1 (run_turns (i # is) s1)) \<le> length as"
  shows "\<exists>lost x rest. as = map Inr lost @ x # rest \<and> (\<forall>r \<in> set lost. OpTicket_U32 r \<noteq> mTicket_U32 s) \<and>
    (case x of
       Inl e \<Rightarrow> e \<noteq> BOF_ERR_NO_ERROR \<and> BofWebSocket_Read a as T nb dat s = Some (e, 0, lost, s1)
     | Inr r \<Rightarrow> OpTicket_U32 r = mTicket_U32 s \<and>
         BofWebSocket_Read a as T nb dat s = Some (BOF_ERR_NO_ERROR, Size_U32 r, lost, s1))"
proof -
  have s1: "s1 = snd (snd (program_operation a T OPERATION_READ (Read_X \<lparr>Nb_U32 = nb, io_pBuffer_U8 = dat\<rparr>) s))"
    using assms(7) by (simp add: Program_Read_def)
  have "\<exists>r \<in> set (old @ queued_since s1 (run_turns (i # is) s1)). OpTicket_U32 r = mTicket_U32 s"
    using programmed_is_answered [OF assms(1) _ assms(3-6)] unfolding s1 by auto
  from wait_result_stops [OF assms(8,9) this] obtain lost x where x: "stops_at (mTicket_U32 s) as lost x"
    "wait_result (mTicket_U32 s) as = Some (fst (GetWebSocketOperationResult x), snd (GetWebSocketOperationResult x), lost)"
    by blast
  have "program_operation a T OPERATION_READ (Read_X \<lparr>Nb_U32 = nb, io_pBuffer_U8 = dat\<rparr>) s =
      (BOF_ERR_NO_ERROR, mTicket_U32 s, s1)"
    unfolding s1 using assms(2) by (rule program_operation_accepted)
  then have "BofWebSocket_Read a as T nb dat s = Some (case x of
      Inl e \<Rightarrow> (e, 0, lost, s1) | Inr r \<Rightarrow> (BOF_ERR_NO_ERROR, Size_U32 r, lost, s1))"
    using x by (cases x) (auto simp: BofWebSocket_Read_def program_and_wait_def Program_Read_def split_def
        GetWebSocketOperationResult_def stops_at_def)
  moreover obtain rest where "as = map Inr lost @ x # rest" using x(1) by (auto simp: stops_at_def)
  ultimately show ?thesis
    using x(1) by (intro exI [of _ lost] exI [of _ x] exI [of _ rest]) (auto simp: stops_at_def split: sum.splits)
qed

text \<open>A READ without data: the first pop fails after the timeout, before the thread has looked at it, and the
  call returns that; the answer comes too late and is left in the queue.\<close>

definition sample_read :: engine where
  "sample_read = snd (snd (Program_Read sample_api 100 \<lparr>Nb_U32 = 3, io_pBuffer_U8 = 9\<rparr> (sample_engine 0)))"

definition sample_read_turns :: "turn_in list" where
  "sample_read_turns = [quiet_turn\<lparr>ti_pop := Some (sample_op OPERATION_READ (Read_X \<lparr>Nb_U32 = 3, io_pBuffer_U8 = 9\<rparr>))\<rparr>,
     quiet_turn\<lparr>ti_elapsed_io := 101\<rparr>]"

theorem blocking_read_returns_witness:
  "BofWebSocket_Read sample_api [Inl BOF_ERR_ETIMEDOUT,
      Inr (l_Result_X (run_turns sample_read_turns sample_read))] 100 3 9 (sample_engine 0) =
    Some (BOF_ERR_ETIMEDOUT, 0, [], sample_read)"
proof -
  let ?late = "l_Result_X (run_turns sample_read_turns sample_read)"
  have i: "idle (sample_engine 0)" "ai_push sample_api = BOF_ERR_NO_ERROR" "mTicket_U32 (sample_engine 0) = 1" "ai_now sample_api = 0"
    by (simp_all add: idle_def sample_defs sample_api_def)
  have q: "queued_since sample_read (run_turns sample_read_turns sample_read) = [?late]"
    by code_simp
  have turns: "hd sample_read_turns # tl sample_read_turns = sample_read_turns"
    "ti_pop (hd sample_read_turns) = Some \<lparr>Operation_E = OPERATION_READ, Ticket_U32 = mTicket_U32 (sample_engine 0),
      TimeOut_U32 = 100, Timer_U32 = ai_now sample_api, OpParam = Read_X \<lparr>Nb_U32 = 3, io_pBuffer_U8 = 9\<rparr>\<rparr>"
    "list_all quiet (tl sample_read_turns)" "\<exists>j \<in> set (tl sample_read_turns). 100 < ti_elapsed_io j"
    "\<forall>j \<in> set sample_read_turns. ti_result_push j = BOF_ERR_NO_ERROR"
    using i by (simp_all add: sample_read_turns_def quiet_turn_def quiet_def sample_op_def)
  obtain lost x rest where x: "[Inl BOF_ERR_ETIMEDOUT, Inr ?late] = map Inr lost @ x # rest"
    "case x of Inl e \<Rightarrow> e \<noteq> BOF_ERR_NO_ERROR \<and>
         BofWebSocket_Read sample_api [Inl BOF_ERR_ETIMEDOUT, Inr ?late] 100 3 9 (sample_engine 0) = Some (e, 0, lost, sample_read)
     | Inr r \<Rightarrow> OpTicket_U32 r = mTicket_U32 (sample_engine 0) \<and>
         BofWebSocket_Read sample_api [Inl BOF_ERR_ETIMEDOUT, Inr ?late] 100 3 9 (sample_engine 0) =
           Some (BOF_ERR_NO_ERROR, Size_U32 r, lost, sample_read)"
    using blocking_read_returns [OF i(1,2) turns(2-4), unfolded turns(1), OF turns(5) sample_read_def,
        of "[]" "[Inl BOF_ERR_ETIMEDOUT, Inr ?late]"] q by auto
  then show ?thesis by (cases lost) auto
qed

end
