(* ===== verification/WsServerSession.thy ===== *)
theory WsServerSession
  imports WsCalls
begin

text \<open>
  A server from its constructor to its first client: \<^verbatim>\<open>Run\<close> programs the LISTEN, the thread that waits for a
  command takes it and creates the context, the callback of libwebsockets registers the client, and the
  application is told of it under the ticket of the LISTEN.
\<close>

section \<open>A thread that waits\<close>

text \<open>The engine of a server before its LISTEN.\<close>

definition waiting_server :: "engine \<Rightarrow> bool" where
  "waiting_server s \<longleftrightarrow> is_server s \<and> \<not> mpLwsContext_X s \<and> \<not> ConnectDone_B (mWebSocketState_X s) \<and>
     \<not> l_IoPending_B s \<and> \<not> l_ListeningMode_B s \<and> \<not> l_SendResult_B s \<and> \<not> mCancel_B s \<and> mClientCollection s = []"

lemma accepted_clients [simp]: "mClientCollection (accepted i s) = mClientCollection s"
  by (simp add: accepted_def)

lemma waiting_turn:
  assumes "waiting_server s" "ti_pop i = None"
  shows "process_turn i s = s\<lparr>mCurrentOp_X := OPERATION_PARAM_Reset (mCurrentOp_X s), l_NewCommandRcv_B := False\<rparr>"
  using assms
  by (simp add: process_turn_def pop_command_def waiting_server_def start_command_ignores check_pending_idle
      do_cancel_idle send_result_simps(2))

lemma waiting_turns:
  assumes "waiting_server s" "\<forall>i \<in> set is. ti_pop i = None"
  shows "waiting_server (fold process_turn is s) \<and> ws_trace (fold process_turn is s) = ws_trace s \<and>
    mWebSocketParam_X (fold process_turn is s) = mWebSocketParam_X s"
  using assms
proof (induction "is" arbitrary: s)
  case Nil
  then show ?case by simp
next
  case (Cons i "is")
  let ?t = "s\<lparr>mCurrentOp_X := OPERATION_PARAM_Reset (mCurrentOp_X s), l_NewCommandRcv_B := False\<rparr>"
  have "process_turn i s = ?t" by (rule waiting_turn) (use Cons.prems in simp_all)
  moreover have "waiting_server ?t" using Cons.prems(1) by (simp add: waiting_server_def is_server_def)
  ultimately show ?case using Cons.IH [of ?t] Cons.prems(2) by simp
qed

text \<open>The turn that takes the LISTEN.  When the context cannot be created the LISTEN is answered; otherwise it
  is not, and its ticket is kept for the clients to come.\<close>

lemma listen_turn:
  assumes "waiting_server s" "ti_pop i = Some op" "Operation_E op = OPERATION_LISTEN"
  shows "if ti_context_ok i
    then listening_server (process_turn i s) \<and> ws_trace (process_turn i s) = ws_trace s @ [EvCreateContext True] \<and>
      l_ListenTicketId_U32 (process_turn i s) = Ticket_U32 op \<and> mClientCollection (process_turn i s) = [] \<and>
      mWebSocketParam_X (process_turn i s) = mWebSocketParam_X s
    else waiting_server (process_turn i s) \<and>
      ws_trace (process_turn i s) = ws_trace s @ [EvCreateContext True, EvRxReset] @
        answer i s op \<lparr>res_Operation_E = OPERATION_LISTEN, OpTicket_U32 = Ticket_U32 op, Sts_E = BOF_ERR_INIT,
          Size_U32 = 0, res_pBuffer_U8 = NullBuffer, Time_U32 = ti_elapsed_send i\<rparr>"
proof -
  let ?s1 = "s\<lparr>mCurrentOp_X := op, l_NewCommandRcv_B := True\<rparr>"
  let ?s2 = "start_listen i (accepted i ?s1)"
  have w: "is_server s" "\<not> mpLwsContext_X s" "\<not> ConnectDone_B (mWebSocketState_X s)" "\<not> l_IoPending_B s"
      "\<not> l_ListeningMode_B s" "\<not> mCancel_B s" "mClientCollection s = []"
    using assms(1) by (simp_all add: waiting_server_def)
  have pop: "pop_command i s = ?s1" by (rule pop_without_context [OF w(2) assms(2)])
  have st: "start_operation i (accepted i ?s1) = ?s2" using assms(3) by (simp add: start_operation_def)
  have srv: "is_server ?s1" using w(1) by (simp add: is_server_def)
  show ?thesis
  proof (cases "ti_context_ok i")
    case True
    let ?s3 = "?s2\<lparr>l_IoPending_B := True, l_SendResult_B := False\<rparr>"
    have s2: "Sts_E (l_Result_X ?s2) = BOF_ERR_NO_ERROR" "Operation_E (mCurrentOp_X ?s2) = OPERATION_LISTEN"
        "\<not> ConnectDone_B (mWebSocketState_X ?s2)" "l_ListeningMode_B ?s2" "mpLwsContext_X ?s2" "mCancel_B ?s2 = mCancel_B s"
        "ws_trace ?s2 = ws_trace s @ [EvCreateContext True]" "l_ListenTicketId_U32 ?s2 = Ticket_U32 op"
        "mClientCollection ?s2 = []" "mWebSocketParam_X ?s2 = mWebSocketParam_X s"
      using True w srv assms(3) by (simp_all add: start_listen_def set_status_def Let_def)
    have sw: "pending_switch i ?s3 = ?s3" using s2(2,3) by (simp add: pending_switch_def)
    have p: "process_turn i s = ?s3\<lparr>l_Result_X := (l_Result_X ?s3)\<lparr>Time_U32 := ti_elapsed_io i\<rparr>\<rparr>"
      using w s2(1,4,6) sw
      by (simp add: process_turn_def pop start_command_accepts st check_pending_busy in_time do_cancel_idle send_result_simps(2))
    show ?thesis unfolding p using True s2 w(1,6) by (simp add: listening_server_def is_server_def)
  next
    case False
    have s2: "l_Result_X ?s2 = \<lparr>res_Operation_E = OPERATION_LISTEN, OpTicket_U32 = Ticket_U32 op, Sts_E = BOF_ERR_INIT,
          Size_U32 = 0, res_pBuffer_U8 = NullBuffer, Time_U32 = ti_elapsed_cmd i\<rparr>"
        "ws_trace ?s2 = ws_trace s @ [EvCreateContext True, EvRxReset]" "mCurrentOp_X ?s2 = op\<lparr>Timer_U32 := ti_now_cmd i\<rparr>"
        "\<not> l_IoPending_B ?s2" "\<not> l_ListeningMode_B ?s2" "\<not> mCancel_B ?s2" "l_SendResult_B ?s2" "\<not> mpLwsContext_X ?s2"
        "\<not> ConnectDone_B (mWebSocketState_X ?s2)" "mClientCollection ?s2 = []" "mWebSocketParam_X ?s2 = mWebSocketParam_X s"
      using False w srv assms(3) by (simp_all add: start_listen_def set_status_def Let_def)
    have p: "process_turn i s = send_result i ?s2"
      using w(4,5) s2 by (simp add: process_turn_def pop start_command_accepts st check_pending_idle do_cancel_idle)
    have srv2: "is_server ?s2" using w(1) s2(11) by (simp add: is_server_def)
    have col: "mClientCollection (send_result i ?s2) = mClientCollection ?s2" by (simp add: send_result_def Let_def)
    have "waiting_server (process_turn i s)"
      unfolding p waiting_server_def using s2 srv2 col by (simp add: send_result_simps)
    moreover have "ws_trace (process_turn i s) = ws_trace s @ [EvCreateContext True, EvRxReset] @
        answer i s op \<lparr>res_Operation_E = OPERATION_LISTEN, OpTicket_U32 = Ticket_U32 op, Sts_E = BOF_ERR_INIT,
          Size_U32 = 0, res_pBuffer_U8 = NullBuffer, Time_U32 = ti_elapsed_send i\<rparr>"
      unfolding p using s2 by (simp add: send_result_simps answer_def)
    ultimately show ?thesis using False by simp
  qed
qed

section \<open>Run\<close>

text \<open>What \<^verbatim>\<open>Run\<close> leaves of a new server: the LISTEN in the command queue.\<close>

definition the_listen :: "api_in \<Rightarrow> (string \<Rightarrow> u32) \<Rightarrow> web_socket_param \<Rightarrow> operation_param" where
  "the_listen a to_binary p =
     \<lparr>Operation_E = OPERATION_LISTEN, Ticket_U32 = 1, TimeOut_U32 = 2000, Timer_U32 = ai_now a,
      OpParam = Listen_X \<lparr>SrcIpAddr_X = to_binary (fst (ServerIp_X p)), SrcPort_U16 = snd (ServerIp_X p),
        li_NbMaxClient_U32 = NbMaxClient_U32 p\<rparr>\<rparr>"

lemma run_of_new_server:
  assumes "NbMaxClient_U32 p \<noteq> 0"
    and "BofWebSocket_Run a BOF_ERR_NO_ERROR True turns to_binary (BofWebSocket BOF_ERR_NO_ERROR p) = Some (BOF_ERR_NO_ERROR, ws)"
  shows "waiting_server (start_processing junk ws) \<and> mWebSocketParam_X (start_processing junk ws) = p \<and>
    ws_trace (start_processing junk ws) = [EvThreadStart, EvCmdPush (the_listen a to_binary p) BOF_ERR_NO_ERROR]"
  using assms
  by (auto simp: BofWebSocket_Run_def Program_Listen_def program_operation_def the_listen_def BofWebSocket_def bof_assert_def
      emit_def LWS_WAKEUP_SERVICE_def start_processing_def web_socket.defs waiting_server_def is_server_def Let_def
      split: option.splits prod.splits if_splits)

text \<open>The wait of \<^verbatim>\<open>Run\<close> is for a context that only the LISTEN it programs afterwards creates: on a new server
  it always lasts half a second.\<close>

lemma run_waits_half_a_second:
  assumes "\<forall>t \<in> set turns. \<not> fst t"
  shows "run_wait turns = Some () \<longleftrightarrow> (\<exists>t \<in> set turns. 500 \<le> snd t)"
  using assms by (induction turns rule: run_wait.induct) auto

section \<open>The first client\<close>

text \<open>C4. A server that is run gets its first client.  \<^verbatim>\<open>Run\<close> returned without an error, the thread waited any number
  of turns, took the LISTEN and could create the context; then libwebsockets establishes a connection.  The
  client is the one in the registry, the application gets exactly one result, a CONNECT under the ticket of the
  LISTEN (which itself is never answered), and the server goes on listening.\<close>

theorem server_reports_its_first_client:
  assumes "NbMaxClient_U32 p \<noteq> 0"
    and "BofWebSocket_Run a BOF_ERR_NO_ERROR True turns to_binary (BofWebSocket BOF_ERR_NO_ERROR p) = Some (BOF_ERR_NO_ERROR, ws)"
    and "\<forall>i \<in> set is. ti_pop i = None"
    and "ti_pop i1 = Some op" "EvCmdPush op BOF_ERR_NO_ERROR \<in> set (ws_trace ws)" "ti_context_ok i1"
    and "ti_pop i2 = None" "ti_calls i2 = [cl]" "admitted_call wsi d cl" "lc_peek cl = None"
    and s: "s = process_turn i2 (process_turn i1 (fold process_turn is (start_processing junk ws)))"
  shows "\<exists>r. results_of (ws_trace s) = [EvResultPush r (ti_result_push i2)] \<and> OpTicket_U32 r = Ticket_U32 op \<and>
      res_Operation_E r = OPERATION_CONNECT \<and> Sts_E r = BOF_ERR_NO_ERROR \<and>
      mClientCollection s = [(c_str (lc_stack_key cl), d\<lparr>pWebSocket_X := Some wsi, ConnectDone_B := True\<rparr>)] \<and>
      listening_server s"
proof -
  let ?w = "fold process_turn is (start_processing junk ws)"
  let ?l = "process_turn i1 ?w"
  let ?c = "snd (snd (LwsCallback cl ?l))"
  note run = run_of_new_server [OF assms(1,2), of junk]
  have "ws_trace ws = ws_trace (start_processing junk ws)" by (simp add: start_processing_def web_socket.defs)
  then have op: "op = the_listen a to_binary p" using assms(5) run by simp
  have w: "waiting_server ?w" "ws_trace ?w = ws_trace (start_processing junk ws)" "mWebSocketParam_X ?w = p"
    using waiting_turns [OF _ assms(3)] run by auto
  have l: "listening_server ?l" "ws_trace ?l = ws_trace ?w @ [EvCreateContext True]" "l_ListenTicketId_U32 ?l = Ticket_U32 op"
      "mClientCollection ?l = []" "mWebSocketParam_X ?l = p"
    using listen_turn [OF w(1) assms(4)] assms(6) op w(3) by (simp_all add: the_listen_def)
  have seats: "length (mClientCollection ?l) < unat (NbMaxClient_U32 (mWebSocketParam_X ?l))"
    using assms(1) l(4,5) by (simp add: unat_gt_0)
  have c: "mClientCollection ?c = [(c_str (lc_stack_key cl), d\<lparr>pWebSocket_X := Some wsi, ConnectDone_B := True\<rparr>)]"
      "ConnectDone_B (mWebSocketState_X ?c)" "mpLwsContext_X ?c"
    using admitted_is_registered [OF assms(9) _ seats] l(1,4) by (simp_all add: registry_inv_def kv_inv_def listening_server_def)
  have serve: "serve (ti_calls i2) ?l = ?c" using assms(8) by simp
  have t: "ws_trace s = ws_trace ?c @ answer i2 ?l (mCurrentOp_X ?l) ((l_Result_X ?l)\<lparr>res_Operation_E := OPERATION_CONNECT,
        OpTicket_U32 := Ticket_U32 op, Sts_E := BOF_ERR_NO_ERROR, Time_U32 := ti_elapsed_send i2\<rparr>)" "listening_server s"
    using listening_turn [OF l(1) assms(7)] c l(3) unfolding serve s by simp_all
  have "registry_view s = registry_view ?c"
    using l(1) assms(7) serve unfolding s process_turn_view
    by (simp add: pop_nothing listening_server_def) (simp add: registry_view_def)
  then have "mClientCollection s = mClientCollection ?c" by (simp add: registry_view_def)
  moreover have "results_of (ws_trace ?c) = []"
    using callback_without_results [OF assms(10), of ?l] l(2) w(2) run by (simp add: results_of_def not_result_def)
  ultimately show ?thesis using t c(1)
    by (simp add: results_of_def answer_def not_result_def)
qed

definition sample_run :: web_socket where
  "sample_run = snd (the (BofWebSocket_Run sample_api BOF_ERR_NO_ERROR True [(False, 20), (False, 500)] (\<lambda>_. 1)
     (BofWebSocket BOF_ERR_NO_ERROR (sample_param 4))))"

lemma sample_run_returns:
  "BofWebSocket_Run sample_api BOF_ERR_NO_ERROR True [(False, 20), (False, 500)] (\<lambda>_. 1)
     (BofWebSocket BOF_ERR_NO_ERROR (sample_param 4)) = Some (BOF_ERR_NO_ERROR, sample_run)"
  "EvCmdPush (the_listen sample_api (\<lambda>_. 1) (sample_param 4)) BOF_ERR_NO_ERROR \<in> set (ws_trace sample_run)"
  by (simp_all add: sample_run_def BofWebSocket_Run_def Program_Listen_def program_operation_def sample_api_def the_listen_def
      BofWebSocket_def bof_assert_def sample_param_def LWS_WAKEUP_SERVICE_def emit_def Let_def)

theorem server_reports_its_first_client_witness:
  "\<exists>r. results_of (ws_trace (process_turn (quiet_turn\<lparr>ti_calls := [sample_call LWS_CALLBACK_ESTABLISHED]\<rparr>)
      (process_turn (quiet_turn\<lparr>ti_pop := Some (the_listen sample_api (\<lambda>_. 1) (sample_param 4))\<rparr>)
        (process_turn quiet_turn (start_processing 77 sample_run))))) = [EvResultPush r BOF_ERR_NO_ERROR] \<and>
     OpTicket_U32 r = 1 \<and> res_Operation_E r = OPERATION_CONNECT"
proof -
  have "NbMaxClient_U32 (sample_param 4) \<noteq> 0" by (simp add: sample_param_def)
  from server_reports_its_first_client [OF this sample_run_returns(1), of "[quiet_turn]"
      "quiet_turn\<lparr>ti_pop := Some (the_listen sample_api (\<lambda>_. 1) (sample_param 4))\<rparr>"
      "the_listen sample_api (\<lambda>_. 1) (sample_param 4)"
      "quiet_turn\<lparr>ti_calls := [sample_call LWS_CALLBACK_ESTABLISHED]\<rparr>" "sample_call LWS_CALLBACK_ESTABLISHED"
      5 "\<lparr>ConnectDone_B = False, pWebSocket_X = None\<rparr>" _ 77, OF _ _ sample_run_returns(2) _ _ _ _ _ refl]
  show ?thesis by (auto simp: quiet_turn_def sample_call_def admitted_call_def the_listen_def)
qed

end
