(* ===== verification/Grpc.thy ===== *)
theory Grpc
  imports WsTypes
begin

text \<open>
  The gRPC wrapper (\<^verbatim>\<open>include/bofwebrpc/bofgrpc.h\<close>, \<^verbatim>\<open>src/src/bofgrpc.cpp\<close>): the state machine of an
  asynchronous call, the loop that drives it from the completion queue, the server thread, the logging
  interceptor.  gRPC itself and the service type \<^verbatim>\<open>T\<close> are outside: what they answer is an input, the calls
  made on them are events in order.
\<close>

section \<open>Parameters\<close>

record grpc_server_param =
  gs_Ip_X :: "string \<times> u16"
  ServerThreadParam_X :: thread_param
  gs_Async_B :: bool                     \<comment> \<open>only with \<^verbatim>\<open>ASYNC\<close>\<close>
  pService :: u64

definition GRPC_SERVER_PARAM_Reset ::
    "nat \<Rightarrow> nat \<Rightarrow> (string \<times> u16) \<Rightarrow> grpc_server_param \<Rightarrow> grpc_server_param" where
  [reset_defs]: "GRPC_SERVER_PARAM_Reset policy_max priority_000 no_ip p =
     p\<lparr>gs_Ip_X := no_ip, ServerThreadParam_X := THREAD_PARAM_Reset policy_max priority_000 (ServerThreadParam_X p),
       gs_Async_B := False, pService := 0\<rparr>"

record grpc_client_param =
  gc_Ip_X :: "string \<times> u16"
  gc_Async_B :: bool

definition GRPC_CLIENT_PARAM_Reset :: "(string \<times> u16) \<Rightarrow> grpc_client_param \<Rightarrow> grpc_client_param" where
  [reset_defs]: "GRPC_CLIENT_PARAM_Reset no_ip p = p\<lparr>gc_Ip_X := no_ip, gc_Async_B := False\<rparr>"

text \<open>A client is its parameters and the channel to the address in them; \<open>to_text\<close> is bofstd's text of an address,
  \<open>create\<close> is \<^verbatim>\<open>grpc::CreateChannel\<close> without credentials.\<close>

record 'channel grpc_client =
  mGrpcClientParam_X :: grpc_client_param
  mpsGrpcChannel :: 'channel

definition GrpcClient ::
    "(string \<times> u16 \<Rightarrow> string) \<Rightarrow> (string \<Rightarrow> 'channel) \<Rightarrow> grpc_client_param \<Rightarrow> 'channel grpc_client" where
  "GrpcClient to_text create p = \<lparr>mGrpcClientParam_X = p, mpsGrpcChannel = create (to_text (gc_Ip_X p))\<rparr>"

record grpc_data_per_session =
  pGrpcServer :: "nat option"

definition GRPC_DATA_PER_SESSION_Reset :: "grpc_data_per_session \<Rightarrow> grpc_data_per_session" where
  [reset_defs]: "GRPC_DATA_PER_SESSION_Reset d = d\<lparr>pGrpcServer := None\<rparr>"

section \<open>Calls on gRPC\<close>

text \<open>The hook points, in the order the interceptor asks for them.\<close>

datatype hook_point =
    PRE_SEND_INITIAL_METADATA | PRE_SEND_MESSAGE | POST_SEND_MESSAGE | PRE_SEND_STATUS | PRE_SEND_CLOSE
  | PRE_RECV_INITIAL_METADATA | PRE_RECV_MESSAGE | PRE_RECV_STATUS | POST_RECV_INITIAL_METADATA
  | POST_RECV_MESSAGE | POST_RECV_STATUS | POST_RECV_CLOSE | PRE_SEND_CANCEL

datatype grpc_event =
    EvRequest nat                        \<comment> \<open>\<^verbatim>\<open>service_->f\<close> with the call as its tag\<close>
  | EvFinish nat "nat option"            \<comment> \<open>\<^verbatim>\<open>service_->g\<close>: tag and responder\<close>
  | EvDeleted nat
  | EvUseAfterFree nat
  | EvListeningPort string
  | EvRegister bool                      \<comment> \<open>the asynchronous service or not\<close>
  | EvAddQueue
  | EvBuildAndStart bool
  | EvStartAssertFailed
  | EvServerWait
  | EvServerShutdown
  | EvQueueShutdown
  | EvNullQueue                          \<comment> \<open>a null completion queue was used\<close>
  | EvLaunch boferr
  | EvDestroyThread boferr
  | EvLog hook_point
  | EvProceed

text \<open>\<open>GrpcInterceptor::Intercept\<close>: one test and one line of log per hook point, then the call goes on.\<close>

definition log_if :: "(hook_point \<Rightarrow> bool) \<Rightarrow> hook_point \<Rightarrow> grpc_event list \<Rightarrow> grpc_event list" where
  "log_if q h tr = (if q h then tr @ [EvLog h] else tr)"

definition Intercept :: "(hook_point \<Rightarrow> bool) \<Rightarrow> grpc_event list \<Rightarrow> grpc_event list" where
  "Intercept q tr =
     (let tr = log_if q PRE_SEND_INITIAL_METADATA tr;
          tr = log_if q PRE_SEND_MESSAGE tr;
          tr = log_if q POST_SEND_MESSAGE tr;
          tr = log_if q PRE_SEND_STATUS tr;
          tr = log_if q PRE_SEND_CLOSE tr;
          tr = log_if q PRE_RECV_INITIAL_METADATA tr;
          tr = log_if q PRE_RECV_MESSAGE tr;
          tr = log_if q PRE_RECV_STATUS tr;
          tr = log_if q POST_RECV_INITIAL_METADATA tr;
          tr = log_if q POST_RECV_MESSAGE tr;
          tr = log_if q POST_RECV_STATUS tr;
          tr = log_if q POST_RECV_CLOSE tr;
          tr = log_if q PRE_SEND_CANCEL tr
      in tr @ [EvProceed])"

section \<open>The call state machine\<close>

datatype call_state = CREATE | PROCESS | FINISH

record async_call =
  call_status :: call_state
  mpResponder :: "nat option"

text \<open>The calls by address; addresses are numbers that are never used again.\<close>

record async_calls =
  call_at :: "nat \<Rightarrow> async_call option"
  next_call :: nat
  grpc_trace :: "grpc_event list"

definition grpc_emit :: "grpc_event \<Rightarrow> async_calls \<Rightarrow> async_calls" where
  "grpc_emit e st = st\<lparr>grpc_trace := grpc_trace st @ [e]\<rparr>"

definition set_call :: "nat \<Rightarrow> async_call option \<Rightarrow> async_calls \<Rightarrow> async_calls" where
  "set_call t c st = st\<lparr>call_at := (call_at st)(t := c)\<rparr>"

text \<open>\<open>f\<close> is the service's function: the responder it gives for a tag.\<close>

definition proceed_create :: "(nat \<Rightarrow> nat option) \<Rightarrow> nat \<Rightarrow> async_call \<Rightarrow> async_calls \<Rightarrow> async_calls" where
  "proceed_create f t c st =
     set_call t (Some (c\<lparr>call_status := PROCESS, mpResponder := f t\<rparr>)) (grpc_emit (EvRequest t) st)"

definition AsyncCallStateMachine :: "(nat \<Rightarrow> nat option) \<Rightarrow> async_calls \<Rightarrow> async_calls" where
  "AsyncCallStateMachine f st =
     proceed_create f (next_call st) \<lparr>call_status = CREATE, mpResponder = None\<rparr> (st\<lparr>next_call := next_call st + 1\<rparr>)"

text \<open>\<open>Proceed\<close>; a tag without a call is a call that was deleted.\<close>

definition Proceed :: "(nat \<Rightarrow> nat option) \<Rightarrow> nat \<Rightarrow> async_calls \<Rightarrow> async_calls" where
  "Proceed f t st =
     (case call_at st t of
        None \<Rightarrow> grpc_emit (EvUseAfterFree t) st
      | Some c \<Rightarrow>
          (case call_status c of
             CREATE \<Rightarrow> proceed_create f t c st
           | PROCESS \<Rightarrow>
               (let st1 = AsyncCallStateMachine f st;
                    st2 = grpc_emit (EvFinish t (mpResponder c)) st1
                in set_call t (Some (c\<lparr>call_status := FINISH\<rparr>)) st2)
           | FINISH \<Rightarrow> set_call t None (grpc_emit (EvDeleted t) st)))"

text \<open>
  \<open>HandleRpc\<close> over the answers of \<^verbatim>\<open>cq_->Next\<close> (got, ok, tag): it never returns, it only waits for the
  next event or aborts the process.
\<close>

datatype rpc_end = Waiting async_calls | Aborted async_calls

fun handle_events :: "(nat \<Rightarrow> nat option) \<Rightarrow> (bool \<times> bool \<times> nat) list \<Rightarrow> async_calls \<Rightarrow> rpc_end" where
  "handle_events f [] st = Waiting st"
| "handle_events f ((got, ok, t) # es) st =
     (if got \<and> ok then handle_events f es (Proceed f t st) else Aborted st)"

definition HandleRpc :: "(nat \<Rightarrow> nat option) \<Rightarrow> (bool \<times> bool \<times> nat) list \<Rightarrow> async_calls \<Rightarrow> rpc_end" where
  "HandleRpc f es st = handle_events f es (AsyncCallStateMachine f st)"

section \<open>The server thread\<close>

record grpc_server =
  mGrpcServerParam_X :: grpc_server_param
  mpuServer :: bool
  cq_set :: bool                            \<comment> \<open>the completion queue the functions name\<close>
  grpc_calls :: async_calls

definition no_calls :: async_calls where
  "no_calls = \<lparr>call_at = (\<lambda>_. None), next_call = 0, grpc_trace = []\<rparr>"

definition GrpcServer :: "grpc_server_param \<Rightarrow> grpc_server" where
  "GrpcServer p = \<lparr>mGrpcServerParam_X = p, mpuServer = False, cq_set = False, grpc_calls = no_calls\<rparr>"

definition srv_emit :: "grpc_event \<Rightarrow> grpc_server \<Rightarrow> grpc_server" where
  "srv_emit e s = s\<lparr>grpc_calls := grpc_emit e (grpc_calls s)\<rparr>"

definition GrpcServer_Run :: "boferr \<Rightarrow> grpc_server \<Rightarrow> boferr \<times> grpc_server" where
  "GrpcServer_Run launch_sts s = (launch_sts, srv_emit (EvLaunch launch_sts) s)"

text \<open>\<open>async\<close>: the build has \<^verbatim>\<open>ASYNC\<close>.\<close>

definition GrpcServer_Stop :: "bool \<Rightarrow> boferr \<Rightarrow> grpc_server \<Rightarrow> boferr \<times> grpc_server" where
  "GrpcServer_Stop async destroy_sts s =
     (let s1 = (if mpuServer s then srv_emit EvServerShutdown s else s);
          s2 = (if async \<and> gs_Async_B (mGrpcServerParam_X s1)
                then srv_emit (if cq_set s1 then EvQueueShutdown else EvNullQueue) s1 else s1)
      in (destroy_sts, srv_emit (EvDestroyThread destroy_sts) s2))"

text \<open>The thread: \<open>None\<close> when it has not returned, or the process was aborted.\<close>

definition Grpc_V_OnProcessing ::
    "bool \<Rightarrow> bool \<Rightarrow> (nat \<Rightarrow> nat option) \<Rightarrow> (bool \<times> bool \<times> nat) list \<Rightarrow> bool \<Rightarrow> ((string \<times> u16) \<Rightarrow> string) \<Rightarrow>
     grpc_server \<Rightarrow> boferr option \<times> grpc_server" where
  "Grpc_V_OnProcessing async started f es shut_down to_string s =
     (let asy = (async \<and> gs_Async_B (mGrpcServerParam_X s));
          s1 = srv_emit (EvListeningPort (to_string (gs_Ip_X (mGrpcServerParam_X s)))) s;
          s2 = (if asy then (srv_emit EvAddQueue (srv_emit (EvRegister True) s1))\<lparr>cq_set := True\<rparr>
                else srv_emit (EvRegister False) s1);
          s3 = (srv_emit (EvBuildAndStart started) s2)\<lparr>mpuServer := started\<rparr>
      in if \<not> started then (Some BOF_ERR_INIT, srv_emit EvStartAssertFailed s3)
         else if asy then
           (case HandleRpc f es (grpc_calls s3) of
              Waiting st \<Rightarrow> (None, s3\<lparr>grpc_calls := st\<rparr>)
            | Aborted st \<Rightarrow> (None, s3\<lparr>grpc_calls := st\<rparr>))
         else (if shut_down then Some BOF_ERR_EXIT_THREAD else None, srv_emit EvServerWait s3))"

section \<open>The calls of a server that is driven by its queue\<close>

text \<open>What the completion queue will deliver: each request and each finish once.\<close>

fun owed_step :: "grpc_event \<Rightarrow> nat list \<Rightarrow> nat list" where
  "owed_step (EvRequest t) ts = t # ts"
| "owed_step (EvFinish t _) ts = t # ts"
| "owed_step _ ts = ts"

text \<open>The queue delivers what it owes: \<open>owed\<close> are the tags not delivered yet.\<close>

fun delivers :: "(nat \<Rightarrow> nat option) \<Rightarrow> nat list \<Rightarrow> nat list \<Rightarrow> async_calls \<Rightarrow> bool" where
  "delivers f owed [] st \<longleftrightarrow> True"
| "delivers f owed (t # ts) st \<longleftrightarrow> t \<in> set owed \<and>
     (let st' = Proceed f t st
      in delivers f (fold owed_step (drop (length (grpc_trace st)) (grpc_trace st')) (remove1 t owed)) ts st')"

text \<open>Every call alive is owed one event; exactly one call waits for the next client.\<close>

definition calls_inv :: "nat list \<Rightarrow> async_calls \<Rightarrow> bool" where
  "calls_inv owed st \<longleftrightarrow> distinct owed \<and> (\<forall>t. t \<in> set owed \<longleftrightarrow> call_at st t \<noteq> None) \<and>
     (\<forall>t c. call_at st t = Some c \<longrightarrow> t < next_call st \<and> call_status c \<noteq> CREATE) \<and>
     (\<exists>!t. \<exists>c. call_at st t = Some c \<and> call_status c = PROCESS) \<and>
     (\<forall>t. EvUseAfterFree t \<notin> set (grpc_trace st))"

definition waits :: "async_calls \<Rightarrow> nat \<Rightarrow> bool" where
  "waits st t \<longleftrightarrow> (\<exists>c. call_at st t = Some c \<and> call_status c = PROCESS)"

lemma Proceed_process:
  assumes "call_at st t = Some c" "call_status c = PROCESS" "t < next_call st"
  shows "Proceed f t st = \<lparr>call_at = (call_at st)(next_call st \<mapsto> \<lparr>call_status = PROCESS, mpResponder = f (next_call st)\<rparr>,
       t \<mapsto> c\<lparr>call_status := FINISH\<rparr>), next_call = Suc (next_call st),
     grpc_trace = grpc_trace st @ [EvRequest (next_call st), EvFinish t (mpResponder c)]\<rparr>"
  using assms by (simp add: Proceed_def AsyncCallStateMachine_def proceed_create_def set_call_def grpc_emit_def Let_def)

lemma Proceed_finish:
  assumes "call_at st t = Some c" "call_status c = FINISH"
  shows "Proceed f t st = st\<lparr>call_at := (call_at st)(t := None), grpc_trace := grpc_trace st @ [EvDeleted t]\<rparr>"
  using assms by (simp add: Proceed_def set_call_def grpc_emit_def)

definition owed_after :: "nat list \<Rightarrow> nat \<Rightarrow> async_calls \<Rightarrow> async_calls \<Rightarrow> nat list" where
  "owed_after owed t st st' =
     fold owed_step (drop (length (grpc_trace st)) (grpc_trace st')) (remove1 t owed)"

lemma Proceed_inv:
  assumes inv: "calls_inv owed st" and t: "t \<in> set owed"
  shows "calls_inv (owed_after owed t st (Proceed f t st)) (Proceed f t st)"
proof -
  obtain c where c: "call_at st t = Some c" using inv t by (auto simp: calls_inv_def)
  have old: "t < next_call st" "call_status c \<noteq> CREATE" "call_at st (next_call st) = None"
    using inv c by (auto simp: calls_inv_def) (metis less_irrefl not_None_eq)
  have fresh: "next_call st \<notin> set owed" using inv old(3) by (simp add: calls_inv_def)
  show ?thesis
  proof (cases "call_status c")
    case PROCESS
    have one: "waits st u \<longleftrightarrow> u = t" for u
      using inv c PROCESS unfolding calls_inv_def waits_def by blast
    then have "\<exists>!u. waits (Proceed f t st) u"
      using old(1) by (intro ex1I [of _ "next_call st"])
        (auto simp: Proceed_process [OF c PROCESS old(1)] waits_def split: if_splits)
    then show ?thesis
      using inv old fresh t
      by (auto simp: Proceed_process [OF c PROCESS old(1)] calls_inv_def owed_after_def waits_def less_Suc_eq)
  next
    case FINISH
    have "\<not> waits st t" using c FINISH by (simp add: waits_def)
    moreover have "\<exists>!u. waits st u" using inv by (simp add: calls_inv_def waits_def)
    ultimately have "\<exists>!u. waits (Proceed f t st) u"
      by (auto simp: Proceed_finish [OF c FINISH] waits_def)
    then show ?thesis
      using inv by (auto simp: Proceed_finish [OF c FINISH] calls_inv_def owed_after_def waits_def)
  qed (use old in simp)
qed

text \<open>What happened to one call: it is registered, finished with its own responder and deleted, in this order.\<close>

fun concerns :: "nat \<Rightarrow> grpc_event \<Rightarrow> bool" where
  "concerns t (EvRequest u) \<longleftrightarrow> u = t"
| "concerns t (EvFinish u r) \<longleftrightarrow> u = t"
| "concerns t (EvDeleted u) \<longleftrightarrow> u = t"
| "concerns t (EvUseAfterFree u) \<longleftrightarrow> u = t"
| "concerns t e \<longleftrightarrow> False"

definition call_history :: "nat \<Rightarrow> async_calls \<Rightarrow> grpc_event list" where
  "call_history t st = filter (concerns t) (grpc_trace st)"

text \<open>After \<open>n t\<close> events for each tag \<open>t\<close>: the call waits, is finished, or is gone, and its history is that.\<close>

definition history_inv :: "(nat \<Rightarrow> nat option) \<Rightarrow> (nat \<Rightarrow> nat) \<Rightarrow> async_calls \<Rightarrow> bool" where
  "history_inv f n st \<longleftrightarrow> (\<forall>t. n t \<le> 2 \<and> (next_call st \<le> t \<longrightarrow> n t = 0) \<and>
     call_at st t = (if t < next_call st \<and> n t < 2
       then Some \<lparr>call_status = (if n t = 0 then PROCESS else FINISH), mpResponder = f t\<rparr> else None) \<and>
     call_history t st =
       (if t < next_call st then take (Suc (n t)) [EvRequest t, EvFinish t (f t), EvDeleted t] else []))"

lemma Proceed_history:
  assumes h: "history_inv f n st" and c: "call_at st t = Some c"
  shows "history_inv f (n(t := Suc (n t))) (Proceed f t st)"
proof -
  have ct: "(if t < next_call st \<and> n t < 2
       then Some \<lparr>call_status = (if n t = 0 then PROCESS else FINISH), mpResponder = f t\<rparr> else None) = Some c"
    using h c unfolding history_inv_def by metis
  then have t: "t < next_call st" "n t < 2" "c = \<lparr>call_status = (if n t = 0 then PROCESS else FINISH), mpResponder = f t\<rparr>"
    by (simp_all split: if_split_asm)
  have new: "n (next_call st) = 0" using h by (simp add: history_inv_def)
  consider "n t = 0" | "n t = 1" using t(2) by linarith
  then show ?thesis
  proof cases
    case 1
    then have p: "call_status c = PROCESS" by (simp add: t(3))
    show ?thesis using h t new 1
      by (auto simp: Proceed_process [OF c p t(1)] history_inv_def call_history_def less_Suc_eq)
  next
    case 2
    then have p: "call_status c = FINISH" by (simp add: t(3))
    show ?thesis using h t 2
      by (auto simp: Proceed_finish [OF c p] history_inv_def call_history_def numeral_2_eq_2 numeral_3_eq_3)
  qed
qed

text \<open>The tags the loop goes on with: those of the events before the first that is not a good one.\<close>

definition good :: "bool \<times> bool \<times> nat \<Rightarrow> bool" where
  "good e \<longleftrightarrow> fst e \<and> fst (snd e)"

definition deliveries :: "(bool \<times> bool \<times> nat) list \<Rightarrow> nat list" where
  "deliveries es = map (snd \<circ> snd) (takeWhile good es)"

lemma handle_events_deliveries:
  "handle_events f es st =
     (if list_all good es then Waiting else Aborted) (fold (Proceed f) (deliveries es) st)"
  by (induction f es st rule: handle_events.induct) (simp_all add: deliveries_def good_def)

lemma delivers_inv:
  assumes "delivers f owed ts st" "calls_inv owed st" "history_inv f n st"
  shows "(\<exists>owed'. calls_inv owed' (fold (Proceed f) ts st)) \<and>
    history_inv f (\<lambda>t. n t + count_list ts t) (fold (Proceed f) ts st)"
  using assms
proof (induction ts arbitrary: owed n st)
  case Nil
  then show ?case by auto
next
  case (Cons t ts)
  then have t: "t \<in> set owed" "delivers f (owed_after owed t st (Proceed f t st)) ts (Proceed f t st)"
    by (simp_all add: owed_after_def Let_def)
  then obtain c where "call_at st t = Some c" using Cons.prems(2) by (auto simp: calls_inv_def)
  from Proceed_history [OF Cons.prems(3) this]
  have "history_inv f (n(t := Suc (n t))) (Proceed f t st)" .
  moreover have "(\<lambda>u. (n(t := Suc (n t))) u + count_list ts u) = (\<lambda>u. n u + count_list (t # ts) u)" by auto
  ultimately show ?case
    using Cons.IH [OF t(2) Proceed_inv [OF Cons.prems(2) t(1)]] by (metis fold_simps(2))
qed

lemma first_call_inv: "calls_inv [0] (AsyncCallStateMachine f no_calls)" "history_inv f (\<lambda>_. 0) (AsyncCallStateMachine f no_calls)"
  by (auto simp: calls_inv_def history_inv_def call_history_def AsyncCallStateMachine_def proceed_create_def set_call_def grpc_emit_def no_calls_def)

text \<open>C24. While the completion queue delivers each registered request and each finish once, in any order, whatever
  it says of them, the loop goes on to the first event that is not a good one and aborts there.  Until then
  exactly one call waits for the next client, and the history of each call is given by the number of events
  delivered for it: registered; then finished with its own responder; then deleted, and its memory free.\<close>

theorem one_call_waits_for_next_client:
  assumes "delivers f [0] (deliveries es) (AsyncCallStateMachine f no_calls)"
  shows "\<exists>st. HandleRpc f es no_calls = (if list_all good es then Waiting st else Aborted st) \<and>
    (\<exists>!t. \<exists>c. call_at st t = Some c \<and> call_status c = PROCESS) \<and>
    (\<forall>t. call_history t st = (if t < next_call st
       then take (Suc (count_list (deliveries es) t)) [EvRequest t, EvFinish t (f t), EvDeleted t] else [])) \<and>
    (\<forall>t. call_at st t = None \<longleftrightarrow> next_call st \<le> t \<or> count_list (deliveries es) t = 2)"
proof -
  let ?st = "fold (Proceed f) (deliveries es) (AsyncCallStateMachine f no_calls)"
  have i: "\<exists>owed. calls_inv owed ?st" "history_inv f (count_list (deliveries es)) ?st"
    using delivers_inv [OF assms first_call_inv] by simp_all
  have "call_at ?st t = None \<longleftrightarrow> next_call ?st \<le> t \<or> count_list (deliveries es) t = 2" for t
    using i(2) unfolding history_inv_def
    by (metis leD le_neq_implies_less linorder_not_less option.distinct(1))
  moreover have "call_history t ?st = (if t < next_call ?st
       then take (Suc (count_list (deliveries es) t)) [EvRequest t, EvFinish t (f t), EvDeleted t] else [])" for t
    using i(2) unfolding history_inv_def by metis
  moreover have "\<exists>!t. \<exists>c. call_at ?st t = Some c \<and> call_status c = PROCESS"
    using i(1) unfolding calls_inv_def by blast
  ultimately show ?thesis
    by (intro exI [of _ ?st]) (simp add: HandleRpc_def handle_events_deliveries)
qed

text \<open>Two clients; the second cancels, so its finish is delivered as not good and the process is aborted.\<close>

theorem one_call_waits_for_next_client_witness:
  "\<exists>st. HandleRpc Some [(True, True, 0), (True, True, 1), (True, True, 0), (True, False, 1)] no_calls = Aborted st \<and>
    call_history 0 st = [EvRequest 0, EvFinish 0 (Some 0), EvDeleted 0] \<and> call_at st 0 = None \<and>
    (\<exists>!t. \<exists>c. call_at st t = Some c \<and> call_status c = PROCESS)"
proof -
  let ?es = "[(True, True, 0), (True, True, 1), (True, True, 0), (True, False, 1)]"
  have d: "deliveries ?es = [0, 1, 0]" by (simp add: deliveries_def good_def)
  have "delivers Some [0] (deliveries ?es) (AsyncCallStateMachine Some no_calls)"
    unfolding d by (simp add: AsyncCallStateMachine_def proceed_create_def Proceed_def set_call_def grpc_emit_def no_calls_def)
  from one_call_waits_for_next_client [OF this] obtain st where st:
    "HandleRpc Some ?es no_calls = (if list_all good ?es then Waiting st else Aborted st)"
    "\<exists>!t. \<exists>c. call_at st t = Some c \<and> call_status c = PROCESS"
    "call_history 0 st = (if 0 < next_call st
       then take (Suc (count_list [0, 1, 0 :: nat] 0)) [EvRequest 0, EvFinish 0 (Some 0), EvDeleted 0] else [])"
    "call_at st 0 = None \<longleftrightarrow> next_call st \<le> 0 \<or> count_list [0, 1, 0 :: nat] 0 = 2"
    unfolding d by blast
  have "call_history 0 st \<noteq> []"
    using st(1) by (auto simp: HandleRpc_def AsyncCallStateMachine_def proceed_create_def Proceed_def set_call_def
        grpc_emit_def no_calls_def good_def call_history_def)
  then show ?thesis using st by (auto simp: good_def split: if_splits)
qed

text \<open>The hook points are logged in one order, and the call always goes on.\<close>

lemma Intercept_logs:
  "Intercept q tr = tr @ map EvLog (filter q [PRE_SEND_INITIAL_METADATA, PRE_SEND_MESSAGE, POST_SEND_MESSAGE,
     PRE_SEND_STATUS, PRE_SEND_CLOSE, PRE_RECV_INITIAL_METADATA, PRE_RECV_MESSAGE, PRE_RECV_STATUS,
     POST_RECV_INITIAL_METADATA, POST_RECV_MESSAGE, POST_RECV_STATUS, POST_RECV_CLOSE, PRE_SEND_CANCEL]) @ [EvProceed]"
proof -
  have l: "log_if q h tr = tr @ map EvLog (filter q [h])" for h tr by (simp add: log_if_def)
  show ?thesis unfolding Intercept_def Let_def l append_assoc map_append [symmetric] filter_append [symmetric] append.simps
    by simp
qed

end
