(* ===== verification/Spec2Isabelle.thy ===== *)
theory Spec2Isabelle
  imports TransferService WsReasons WsTables WsMessages WsAnswers WsServerSession Grpc
begin

text \<open>
  Verification development of BofWebRpc, a C++ library of web applications: an HTTP client and an HTTP
  server over cpp-httplib (\<^verbatim>\<open>src/src/bofwebclient.cpp\<close>, \<^verbatim>\<open>src/src/bofwebserver.cpp\<close>) on a common base
  class (\<^verbatim>\<open>src/src/bofwebapp.cpp\<close>), a websocket engine over libwebsockets (\<^verbatim>\<open>src/src/bofwebsocket.cpp\<close>)
  and a gRPC wrapper (\<^verbatim>\<open>src/include/bofwebrpc/bofgrpc.h\<close>, \<^verbatim>\<open>src/src/bofgrpc.cpp\<close>).

  \<^bold>\<open>How the code is modelled.\<close>  Each structure of the headers is a record, each enumerator a datatype, with
  the names of the source; integers keep their width (\<open>u8\<close> to \<open>u64\<close> are words).  A method is a function
  from the members to its result and the members after it.  What is not in the repository (bofstd,
  cpp-httplib, libwebsockets, gRPC, the operating system, the callbacks of the application) is an argument:
  a function, or a record of what it answers during one call (\<open>lws_call\<close>, \<open>turn_in\<close>, \<open>api_in\<close>).  The calls
  made on it are recorded, in order, in a ghost trace, which is what the websocket and gRPC properties
  speak about.  A failed \<^verbatim>\<open>BOF_ASSERT\<close>, a null pointer that is read, a callback that is called without
  being set are events or results too, not hypotheses.

  \<^bold>\<open>The theories.\<close>
  \<^item> \<open>WebRpc_Prelude\<close>: machine integers, C strings and \<^verbatim>\<open>snprintf\<close>, decimal numbers, files as byte lists,
    the status codes; collections \<open>reset_defs\<close>, \<open>io_simps\<close>, \<open>word_nat\<close>.
  \<^item> \<open>WebApp\<close>: \<^verbatim>\<open>BofWebApp\<close>.  The Content-Range text is read back as it was printed, and the parsers accept
    exactly the texts of their regular expressions.
  \<^item> \<open>WebClient\<close>: \<^verbatim>\<open>BofWebClient\<close>: connection, the seven verbs, \<^verbatim>\<open>Benchmark\<close>.
  \<^item> \<open>Upload\<close>: \<^verbatim>\<open>BofWebClient::Upload\<close>.  The requests follow the plan of chunks whatever the server answers;
    true means that the whole file was posted.
  \<^item> \<open>Download\<close>: \<^verbatim>\<open>BofWebClient::Download\<close>.  For any server: what is stored is what was received; the ranges asked
    for follow one plan, whose last range starts one byte too early, so that more than one chunk is never stored
    with the right size; the loop need not end.
  \<^item> \<open>TransferServer\<close>: the peers of the two transfers, \<^verbatim>\<open>GetDownload\<close> and \<^verbatim>\<open>PostUpload\<close> of the test server
    (\<^verbatim>\<open>src/tests/src/ut_webapp.cpp\<close>), chunk by chunk.
  \<^item> \<open>Transfers\<close>: client and handlers composed, the handlers behind their routes as the network of the client, without
    the payload limit of the server.  Which sizes an upload refuses, what a download brings back, sessions whose
    requests are interleaved, requests that end the server.
  \<^item> \<open>WebServer\<close>: \<^verbatim>\<open>BofWebServer\<close> and its task queue: the settings of the constructor, the registrations, the
    polling loops of \<^verbatim>\<open>Start\<close> and \<^verbatim>\<open>Stop\<close> with at most one listening thread.
  \<^item> \<open>TransferService\<close>: the test server as one object, the constructors of \<^verbatim>\<open>BofWebServer\<close> and \<^verbatim>\<open>UtWebServer\<close> with
    its routes, and an upload through it: stored when its chunks fit the payload limit, refused otherwise.  How
    cpp-httplib treats a request is the hypothesis \<open>listens_as_documented\<close>.
  \<^item> \<open>WsTypes\<close>: the data of the websocket engine (\<^verbatim>\<open>bofwebsocket.h\<close>).
  \<^item> \<open>WsReasons\<close>: the name table of the reasons of libwebsockets.
  \<^item> \<open>WsRegistry\<close>: the clients of a server.  \<open>client_map\<close> is the interface of the map, \<open>client_registry\<close> the
    contract of a registry with seats; both are interpreted on the operations of the code.
  \<^item> \<open>WsCallback\<close>: \<^verbatim>\<open>BofWebSocket::LwsCallback\<close>, one definition per case of its switches.
  \<^item> \<open>WsApi\<close>: construction, \<^verbatim>\<open>ProgramWebSocketOperation\<close>, cancelling, the blocking calls, \<^verbatim>\<open>Run\<close>, \<^verbatim>\<open>Stop\<close>.
  \<^item> \<open>WsProcess\<close>: \<^verbatim>\<open>BofWebSocket::V_OnProcessing\<close>; one turn is \<open>process_turn\<close>, composed of the parts of the
    source: serve and pop, start, look at the pending operation, cancel, send the result.
  \<^item> \<open>WsTables\<close>: the mount point, the protocol tables and the structures LISTEN and CONNECT give libwebsockets; a
    client asks for a protocol every server offers.  The macro that prints a reply, and the length that is sent.
  \<^item> \<open>WsEngine\<close>: frames (\<open>untouched\<close> is interpreted for the views the callback does not change) and the
    engine as a transition system, \<open>engine_step\<close> and \<open>reachable\<close>: turns of the thread interleaved with calls
    of the application, the six overloads of \<^verbatim>\<open>ProgramWebSocketOperation\<close> (\<open>programs\<close>) among them.
  \<^item> \<open>WsCommands\<close>, \<open>WsConnection\<close>: the phases of a turn as rewriting rules; refusals, cancellation, exit,
    connection, timeouts, listening; commands that are lost or misread.
  \<^item> \<open>WsTransfer\<close>: the outbox, an abstract queue of writes read off the trace; the start of a WRITE and the
    writeable callback refine its operations, failed writes do not.
  \<^item> \<open>WsServer\<close>: invariants of every reachable state: seats, typed operation, programmed tickets, roles, and
    connections that are those of the CONNECTs the application programmed.
  \<^item> \<open>WsCalls\<close>: blocking calls against results, names of clients, closing.
  \<^item> \<open>WsSession\<close>: the parts together: a session from \<^verbatim>\<open>Connect\<close> to the bytes on the socket, and any interleaving
    of writes, by the contract \<open>outbox_implementation\<close>.
  \<^item> \<open>WsServerSession\<close>: a server from its constructor and \<^verbatim>\<open>Run\<close> to the report of its first client.
  \<^item> \<open>WsMessages\<close>: two engines.  The receive buffer as an inbox read off the trace; the messages of one sender arrive
    as they were written, those of two senders can mix, and a server cannot choose whom it writes to.
  \<^item> \<open>WsAnswers\<close>: commands against answers over whole runs: at most one each, exactly one for what the thread
    waits for, and so a blocking call returns, with that answer or with the failure of a pop before it.
  \<^item> \<open>Grpc\<close>: the asynchronous call state machine, its loop, the server thread, the interceptor.  The history of a
    call is given by the events delivered for it: registered, finished, deleted, once each.

  \<^bold>\<open>Loops.\<close>  Loops over data are structural recursion.  \<^verbatim>\<open>Upload\<close> ends by a measure on the bytes left;
  \<^verbatim>\<open>Download\<close> has no bound and is a partial function, \<open>None\<close> where it does not return.  Loops that wait for
  the outside (\<^verbatim>\<open>Start\<close>, \<^verbatim>\<open>Run\<close>, the blocking calls, \<^verbatim>\<open>V_OnProcessing\<close>, \<^verbatim>\<open>HandleRpc\<close>) recurse over the
  list of its answers: \<open>None\<close> (or \<open>Waiting\<close>) says that the answers given so far do not end the loop, so no
  fuel is chosen anywhere.

  \<^bold>\<open>Ordering.\<close>  A turn of the thread, a callback inside its service and a call of the application are each one
  step; the queues of bofstd and the mutex of the registry make them so.  The unsynchronised accesses of the
  application to \<^verbatim>\<open>mTicket_U32\<close> and \<^verbatim>\<open>mpLwsContext_X\<close> from several threads at once are not modelled.  Neither
  are handlers of the test server that overlap in its thread pool, where they share the map of tasks without a
  lock: its requests are handled one after the other.  A pop or
  peek gives something that was pushed (\<open>queues_honest\<close>); more is assumed only where a property says so.

  \<^bold>\<open>Not modelled.\<close>  The callbacks libwebsockets makes before a call of the thread returns (creating and
  destroying a context, asking for a connection): the callbacks of a turn are those of its service.  A push
  into the receive buffer that fails and leaves the raw buffer the callback then hands on unset.  The debug logs; the two counters of queue elements, which only read bofstd; the empty
  hooks of the server class; the macros that only call a buffer of bofstd; the JSON schema, read by bofstd; the pure virtual interfaces; the code
  under \<^verbatim>\<open>#if 0\<close>; the unit tests and, of their server, everything but the constructor and the transfer handlers; the buffering of
  stdio, so a write to a file is seen at once.  With \<^verbatim>\<open>ASYNC\<close> the gRPC server names a member \<^verbatim>\<open>cq_\<close> that it does
  not declare: the model has it.
\<close>

end
